theory Spec2Isabelle
  imports Main
begin

section \<open>The Date built-in, after ECMA-262\<close>

text \<open>
  The calendar widget computes with the host language's \<^verbatim>\<open>Date\<close> objects.  A Date wraps a
  time value: milliseconds since the epoch in UTC, or NaN for an Invalid Date.  The day and
  month arithmetic below follows the abstract operations of ECMA-262 (section "Date Objects").
  The local time zone is a fixed offset \<open>tza\<close> in milliseconds (no daylight saving shifts), and
  time values are unbounded integers (the range limit of TimeClip is not part of the model).
\<close>

definition msPerDay :: int where
  "msPerDay = 86400000"

definition Day :: "int \<Rightarrow> int" where
  "Day t = t div msPerDay"

definition TimeWithinDay :: "int \<Rightarrow> int" where
  "TimeWithinDay t = t mod msPerDay"

definition DaysInYear :: "int \<Rightarrow> int" where
  "DaysInYear y =
     (if y mod 4 \<noteq> 0 then 365
      else if y mod 100 \<noteq> 0 then 366
      else if y mod 400 \<noteq> 0 then 365
      else 366)"

definition DayFromYear :: "int \<Rightarrow> int" where
  "DayFromYear y =
     365 * (y - 1970) + (y - 1969) div 4 - (y - 1901) div 100 + (y - 1601) div 400"

definition TimeFromYear :: "int \<Rightarrow> int" where
  "TimeFromYear y = msPerDay * DayFromYear y"

text \<open>
  ECMA-262 defines \<open>YearFromTime t\<close> as the largest \<open>y\<close> with \<open>TimeFromYear y \<le> t\<close>.  The
  executable form estimates the year from the mean year length and corrects it by one;
  \<open>YearFromTime_iff\<close> below shows that it is the year of the standard.
\<close>

definition YearFromDay :: "int \<Rightarrow> int" where
  "YearFromDay d =
     (let y = 1970 + (400 * d) div 146097
      in if d < DayFromYear y then y - 1
         else if DayFromYear (y + 1) \<le> d then y + 1
         else y)"

definition YearFromTime :: "int \<Rightarrow> int" where
  "YearFromTime t = YearFromDay (Day t)"

definition InLeapYear :: "int \<Rightarrow> int" where
  "InLeapYear t = (if DaysInYear (YearFromTime t) = 366 then 1 else 0)"

definition DayWithinYear :: "int \<Rightarrow> int" where
  "DayWithinYear t = Day t - DayFromYear (YearFromTime t)"

definition MonthFromTime :: "int \<Rightarrow> int" where
  "MonthFromTime t =
     (let d = DayWithinYear t; l = InLeapYear t
      in if d < 31 then 0
         else if d < 59 + l then 1
         else if d < 90 + l then 2
         else if d < 120 + l then 3
         else if d < 151 + l then 4
         else if d < 181 + l then 5
         else if d < 212 + l then 6
         else if d < 243 + l then 7
         else if d < 273 + l then 8
         else if d < 304 + l then 9
         else if d < 334 + l then 10
         else 11)"

definition DateFromTime :: "int \<Rightarrow> int" where
  "DateFromTime t =
     (let d = DayWithinYear t; l = InLeapYear t; m = MonthFromTime t
      in if m = 0 then d + 1
         else if m = 1 then d - 30
         else if m = 2 then d - 58 - l
         else if m = 3 then d - 89 - l
         else if m = 4 then d - 119 - l
         else if m = 5 then d - 150 - l
         else if m = 6 then d - 180 - l
         else if m = 7 then d - 211 - l
         else if m = 8 then d - 242 - l
         else if m = 9 then d - 272 - l
         else if m = 10 then d - 303 - l
         else d - 333 - l)"

definition WeekDay :: "int \<Rightarrow> int" where
  "WeekDay t = (Day t + 4) mod 7"

text \<open>
  \<open>MonthStart l mn\<close> is the day within the year of the first day of month \<open>mn\<close> (0 to 11),
  in a year with leap flag \<open>l\<close>: the boundaries of the \<open>MonthFromTime\<close> table.
\<close>

definition MonthStart :: "int \<Rightarrow> int \<Rightarrow> int" where
  "MonthStart l mn =
     (if mn = 0 then 0
      else if mn = 1 then 31
      else if mn = 2 then 59 + l
      else if mn = 3 then 90 + l
      else if mn = 4 then 120 + l
      else if mn = 5 then 151 + l
      else if mn = 6 then 181 + l
      else if mn = 7 then 212 + l
      else if mn = 8 then 243 + l
      else if mn = 9 then 273 + l
      else if mn = 10 then 304 + l
      else 334 + l)"

text \<open>
  \<open>MakeDay\<close>: the month may lie outside 0 to 11 and the date outside the month; the year
  carries the months and the day number carries the date.  ECMA-262 asks for the day of a
  time value \<open>t\<close> whose year is \<open>ym\<close>, whose month is \<open>mn\<close> and whose date is 1
  (\<open>MakeDay_first\<close> below shows that this is it).
\<close>

definition MakeDay :: "int \<Rightarrow> int \<Rightarrow> int \<Rightarrow> int" where
  "MakeDay year month date =
     (let ym = year + month div 12;
          mn = month mod 12;
          l = (if DaysInYear ym = 366 then 1 else 0)
      in DayFromYear ym + MonthStart l mn + date - 1)"

definition MakeDate :: "int \<Rightarrow> int \<Rightarrow> int" where
  "MakeDate day time = day * msPerDay + time"

definition LocalTime :: "int \<Rightarrow> int \<Rightarrow> int" where
  "LocalTime tza t = t + tza"

definition UTC :: "int \<Rightarrow> int \<Rightarrow> int" where
  "UTC tza t = t - tza"

subsection \<open>Date methods\<close>

text \<open>
  A time value is \<open>Some t\<close>, or \<open>None\<close> for NaN.  JavaScript numbers read from a Date are
  modelled the same way.
\<close>

type_synonym timeval = "int option"

definition getFullYear :: "int \<Rightarrow> timeval \<Rightarrow> int option" where
  "getFullYear tza tv = map_option (\<lambda>t. YearFromTime (LocalTime tza t)) tv"

definition getMonth :: "int \<Rightarrow> timeval \<Rightarrow> int option" where
  "getMonth tza tv = map_option (\<lambda>t. MonthFromTime (LocalTime tza t)) tv"

definition getDate :: "int \<Rightarrow> timeval \<Rightarrow> int option" where
  "getDate tza tv = map_option (\<lambda>t. DateFromTime (LocalTime tza t)) tv"

definition getDay :: "int \<Rightarrow> timeval \<Rightarrow> int option" where
  "getDay tza tv = map_option (\<lambda>t. WeekDay (LocalTime tza t)) tv"

definition setDate :: "int \<Rightarrow> timeval \<Rightarrow> int \<Rightarrow> timeval" where
  "setDate tza tv dt =
     (case tv of
        None \<Rightarrow> None
      | Some u \<Rightarrow>
          (let t = LocalTime tza u;
               newDate = MakeDate (MakeDay (YearFromTime t) (MonthFromTime t) dt) (TimeWithinDay t)
           in Some (UTC tza newDate)))"

definition setMonth :: "int \<Rightarrow> timeval \<Rightarrow> int option \<Rightarrow> timeval" where
  "setMonth tza tv month =
     (case tv of
        None \<Rightarrow> None
      | Some u \<Rightarrow>
          (case month of
             None \<Rightarrow> None
           | Some m \<Rightarrow>
               (let t = LocalTime tza u;
                    newDate = MakeDate (MakeDay (YearFromTime t) m (DateFromTime t)) (TimeWithinDay t)
                in Some (UTC tza newDate))))"

definition setFullYear :: "int \<Rightarrow> timeval \<Rightarrow> int \<Rightarrow> timeval" where
  "setFullYear tza tv y =
     (let t = (case tv of None \<Rightarrow> 0 | Some u \<Rightarrow> LocalTime tza u);
          newDate = MakeDate (MakeDay y (MonthFromTime t) (DateFromTime t)) (TimeWithinDay t)
      in Some (UTC tza newDate))"

subsection \<open>Date objects in a store\<close>

text \<open>
  Date objects are mutable, so they live in a store: a reference is an index into the list
  of the time values of all Date objects created so far.
\<close>

type_synonym store = "timeval list"

definition Date_new :: "store \<Rightarrow> timeval \<Rightarrow> store \<times> nat" where
  "Date_new h tv = (h @ [tv], length h)"

definition getTime :: "store \<Rightarrow> nat \<Rightarrow> timeval" where
  "getTime h r = h ! r"

subsection \<open>Strings of numbers and dates\<close>

definition digit :: "nat \<Rightarrow> char" where
  "digit n = char_of (48 + n mod 10)"

fun digits :: "nat \<Rightarrow> string" where
  "digits n = (if n < 10 then [digit n] else digits (n div 10) @ [digit n])"

declare digits.simps [simp del]

definition int_str :: "int \<Rightarrow> string" where
  "int_str i = (if i < 0 then CHR ''-'' # digits (nat (- i)) else digits (nat i))"

text \<open>A number in a template string or as text content; NaN prints as \<^verbatim>\<open>NaN\<close>.\<close>

definition num_str :: "int option \<Rightarrow> string" where
  "num_str n = (case n of None \<Rightarrow> ''NaN'' | Some i \<Rightarrow> int_str i)"

definition pad2 :: "int \<Rightarrow> string" where
  "pad2 i = (if i < 10 then CHR ''0'' # digits (nat i) else digits (nat i))"

text \<open>
  \<^verbatim>\<open>toLocaleDateString('en-CA')\<close>: the local calendar date as year, month and day joined by
  hyphens, month and day with two digits.  The locale data prints the year of the era without
  padding; years before 1 count backwards in their era.
\<close>

definition toLocaleDateString_en_CA :: "int \<Rightarrow> timeval \<Rightarrow> string" where
  "toLocaleDateString_en_CA tza tv =
     (case tv of
        None \<Rightarrow> ''Invalid Date''
      | Some u \<Rightarrow>
          (let t = LocalTime tza u;
               y = YearFromTime t;
               era_year = (if y \<le> 0 then 1 - y else y)
           in digits (nat era_year) @ ''-'' @ pad2 (MonthFromTime t + 1) @ ''-''
                @ pad2 (DateFromTime t)))"

definition month_names :: "string list" where
  "month_names =
     [''January'', ''February'', ''March'', ''April'', ''May'', ''June'',
      ''July'', ''August'', ''September'', ''October'', ''November'', ''December'']"

text \<open>\<^verbatim>\<open>toLocaleString('en-GB', { month: 'long' })\<close>.\<close>

definition toLocaleString_month_long :: "int \<Rightarrow> timeval \<Rightarrow> string" where
  "toLocaleString_month_long tza tv =
     (case tv of
        None \<Rightarrow> ''Invalid Date''
      | Some u \<Rightarrow> month_names ! nat (MonthFromTime (LocalTime tza u)))"

text \<open>
  \<^verbatim>\<open>new Date(string)\<close> on the date-only form \<^verbatim>\<open>YYYY-MM-DD\<close> of the standard's date-time string
  format: the date at midnight UTC.  Every other argument (among them \<^verbatim>\<open>undefined\<close>) gives an
  Invalid Date here; the standard leaves other string forms to the implementation.
\<close>

definition is_digit :: "char \<Rightarrow> bool" where
  "is_digit c = ((48::nat) \<le> of_char c \<and> of_char c \<le> (57::nat))"

definition digit_val :: "char \<Rightarrow> int" where
  "digit_val c = int (of_char c) - 48"

fun number_of :: "string \<Rightarrow> int" where
  "number_of cs = foldl (\<lambda>n c. 10 * n + digit_val c) 0 cs"

definition DaysInMonth :: "int \<Rightarrow> int \<Rightarrow> int" where
  "DaysInMonth y mn =
     (if mn = 1 then (if DaysInYear y = 366 then 29 else 28)
      else if mn = 3 \<or> mn = 5 \<or> mn = 8 \<or> mn = 10 then 30
      else 31)"

definition Date_parse :: "string option \<Rightarrow> timeval" where
  "Date_parse arg =
     (case arg of
        None \<Rightarrow> None
      | Some s \<Rightarrow>
          (case s of
             [y1, y2, y3, y4, h1, m1, m2, h2, d1, d2] \<Rightarrow>
               (if is_digit y1 \<and> is_digit y2 \<and> is_digit y3 \<and> is_digit y4 \<and> h1 = CHR ''-''
                   \<and> is_digit m1 \<and> is_digit m2 \<and> h2 = CHR ''-'' \<and> is_digit d1 \<and> is_digit d2
                then
                  (let y = number_of [y1, y2, y3, y4];
                       m = number_of [m1, m2];
                       d = number_of [d1, d2]
                   in if 1 \<le> m \<and> m \<le> 12 \<and> 1 \<le> d \<and> d \<le> DaysInMonth y (m - 1)
                      then Some (MakeDate (MakeDay y (m - 1) d) 0)
                      else None)
                else None)
           | _ \<Rightarrow> None))"

section \<open>The tools object (calendar-widget.js)\<close>

text \<open>
  \<^verbatim>\<open>cloneDate(date, { day, month, year } = {})\<close>: a new Date object with the time value of
  \<open>date\<close>, then changed by the options that are given (\<open>None\<close> is an option left out).
\<close>

definition cloneDate ::
  "int \<Rightarrow> store \<Rightarrow> nat \<Rightarrow> int option \<Rightarrow> int option \<Rightarrow> int option \<Rightarrow> store \<times> nat" where
  "cloneDate tza h date day month year =
     (let (h0, output) = Date_new h (getTime h date);
          h1 = (case year of None \<Rightarrow> h0
                | Some y \<Rightarrow> h0[output := setFullYear tza (h0 ! output) y]);
          h2 = (case month of None \<Rightarrow> h1
                | Some m \<Rightarrow> h1[output := setMonth tza (h1 ! output) (Some m)]);
          h3 = (case day of None \<Rightarrow> h2
                | Some d \<Rightarrow> h2[output := setDate tza (h2 ! output) d])
      in (h3, output))"

text \<open>The loop of \<^verbatim>\<open>getDateArray\<close>: \<^verbatim>\<open>for (let day = start; day < end; day++)\<close>.\<close>

function getDateArray_loop ::
  "int \<Rightarrow> store \<Rightarrow> nat \<Rightarrow> int \<Rightarrow> int \<Rightarrow> nat list \<Rightarrow> store \<times> nat list" where
  "getDateArray_loop tza h firstDate day end dates =
     (if day < end
      then (let (h', date) = cloneDate tza h firstDate (Some day) None None
            in getDateArray_loop tza h' firstDate (day + 1) end (dates @ [date]))
      else (h, dates))"
  by pat_completeness auto
termination
  by (relation "measure (\<lambda>(tza, h, firstDate, day, end, dates). nat (end - day))") auto

declare getDateArray_loop.simps [simp del]

text \<open>
  \<^verbatim>\<open>getDateArray(date)\<close>.  When \<open>date\<close> is an Invalid Date, \<^verbatim>\<open>getDay()\<close> is NaN, so are
  \<^verbatim>\<open>start\<close> and \<^verbatim>\<open>end\<close>, the loop condition is false at once and the array is empty.
\<close>

definition getDateArray :: "int \<Rightarrow> store \<Rightarrow> nat \<Rightarrow> store \<times> nat list" where
  "getDateArray tza h date =
     (let (h1, firstDate) = cloneDate tza h date (Some 1) None None;
          firstIndex = getDay tza (h1 ! firstDate)
      in case firstIndex of
           None \<Rightarrow> (h1, [])
         | Some fi \<Rightarrow>
             (let mondayIndex = (fi + 6) mod 7;
                  start = 1 - mondayIndex;
                  end = start + 42
              in getDateArray_loop tza h1 firstDate start end []))"

definition toShort :: "int \<Rightarrow> timeval \<Rightarrow> string" where
  "toShort tza date = toLocaleDateString_en_CA tza date"

definition toMonthName :: "int \<Rightarrow> timeval \<Rightarrow> string" where
  "toMonthName tza date = toLocaleString_month_long tza date"

definition toYear :: "int \<Rightarrow> timeval \<Rightarrow> int option" where
  "toYear tza date = getFullYear tza date"

text \<open>Strict equality of two numbers: NaN is equal to nothing.\<close>

definition num_eq :: "int option \<Rightarrow> int option \<Rightarrow> bool" where
  "num_eq a b = (case a of None \<Rightarrow> False | Some x \<Rightarrow> (case b of None \<Rightarrow> False | Some y \<Rightarrow> x = y))"

definition isSameDate :: "int \<Rightarrow> timeval \<Rightarrow> timeval \<Rightarrow> bool" where
  "isSameDate tza d1 d2 =
     (num_eq (getFullYear tza d1) (getFullYear tza d2) \<and>
      num_eq (getMonth tza d1) (getMonth tza d2) \<and>
      num_eq (getDate tza d1) (getDate tza d2))"

text \<open>\<^verbatim>\<open>isToday(date)\<close>: \<open>now\<close> is the time value that \<^verbatim>\<open>new Date()\<close> reads off the clock.\<close>

definition isToday :: "int \<Rightarrow> int \<Rightarrow> timeval \<Rightarrow> bool" where
  "isToday tza now date = (let today = Some now in isSameDate tza date today)"

section \<open>The CalendarWidget element\<close>

text \<open>
  A day cell of the grid: its class list, its text and its \<^verbatim>\<open>data-date\<close> attribute
  (\<open>None\<close> while it was never set).
\<close>

record day_element =
  classList :: "string list"
  textContent :: string
  dataset_date :: "string option"

definition classList_remove :: "string list \<Rightarrow> string list \<Rightarrow> string list" where
  "classList_remove cl tokens = filter (\<lambda>c. c \<notin> set tokens) cl"

definition classList_add :: "string list \<Rightarrow> string \<Rightarrow> string list" where
  "classList_add cl token = (if token \<in> set cl then cl else cl @ [token])"

text \<open>
  The widget.  \<open>objs\<close> is the store of its Date objects; \<open>dateToday\<close>, \<open>dateChosen\<close> and
  \<open>dateDisplayed\<close> are references into it.  \<open>onDayClick\<close> is the host's callback (\<open>None\<close> is
  \<^verbatim>\<open>null\<close>); the host's function itself is not part of the widget, so a call of it is
  recorded in \<open>notified\<close> with the time value of the date and the index of the cell it was
  given.  \<open>timers\<close> counts the re-renders scheduled with \<^verbatim>\<open>setTimeout\<close> that have not run yet.
\<close>

record widget =
  objs :: store
  starredDates :: "string list"
  dateToday :: nat
  dateChosen :: nat
  dateDisplayed :: nat
  navigatorText :: string
  dayGrid :: "day_element list"
  onDayClick :: "nat option"
  notified :: "(timeval \<times> nat) list"
  timers :: nat

datatype js_error = TypeError

definition resetDayClasses :: "day_element \<Rightarrow> day_element" where
  "resetDayClasses day =
     day\<lparr>classList := classList_remove (classList day) [''dimmed'', ''marked'', ''starred'', ''today'']\<rparr>"

definition shouldStar :: "int \<Rightarrow> widget \<Rightarrow> timeval \<Rightarrow> bool" where
  "shouldStar tza w date = (let shortDate = toShort tza date in shortDate \<in> set (starredDates w))"

text \<open>
  The body of the loop of \<^verbatim>\<open>updateCalendar\<close> for one cell: \<open>dateObject\<close> and \<open>date\<close> are
  the time values of the cell's Date and of the argument of \<^verbatim>\<open>updateCalendar\<close>.
\<close>

definition updateDay :: "int \<Rightarrow> int \<Rightarrow> widget \<Rightarrow> timeval \<Rightarrow> timeval \<Rightarrow> day_element \<Rightarrow> day_element" where
  "updateDay tza now w date dateObject dayElement =
     (let el = resetDayClasses dayElement;
          el' =
            (if \<not> num_eq (getMonth tza dateObject) (getMonth tza date)
               then el\<lparr>classList := classList_add (classList el) ''dimmed''\<rparr>
             else if isToday tza now dateObject
               then el\<lparr>classList := classList_add (classList el) ''today''\<rparr>
             else if isSameDate tza dateObject (objs w ! dateChosen w)
               then el\<lparr>classList := classList_add (classList el) ''marked''\<rparr>
             else if shouldStar tza w dateObject
               then el\<lparr>classList := classList_add (classList el) ''starred''\<rparr>
             else el)
      in el'\<lparr>textContent := num_str (getDate tza dateObject),
             dataset_date := Some (toShort tza dateObject)\<rparr>)"

text \<open>
  \<^verbatim>\<open>for (const [index, dateObject] of dateObjects.entries())\<close>: a date without a day element
  at its index makes \<^verbatim>\<open>resetDayClasses(undefined)\<close> throw a TypeError.
\<close>

fun updateDays ::
  "int \<Rightarrow> int \<Rightarrow> widget \<Rightarrow> timeval \<Rightarrow> nat \<Rightarrow> nat list \<Rightarrow> day_element list
     \<Rightarrow> js_error + day_element list" where
  "updateDays tza now w date index [] dayElements = Inr dayElements"
| "updateDays tza now w date index (dateObject # rest) dayElements =
     (if index < length dayElements
      then updateDays tza now w date (Suc index) rest
             (dayElements[index := updateDay tza now w date (objs w ! dateObject) (dayElements ! index)])
      else Inl TypeError)"

definition updateCalendar :: "int \<Rightarrow> int \<Rightarrow> widget \<Rightarrow> nat \<Rightarrow> js_error + widget" where
  "updateCalendar tza now w date =
     (let (h, dateObjects) = getDateArray tza (objs w) date;
          w1 = w\<lparr>objs := h\<rparr>;
          monthName = toMonthName tza (h ! date);
          year = toYear tza (h ! date);
          w2 = w1\<lparr>navigatorText := monthName @ '' '' @ num_str year\<rparr>
      in case updateDays tza now w2 (h ! date) 0 dateObjects (dayGrid w2) of
           Inl e \<Rightarrow> Inl e
         | Inr days \<Rightarrow> Inr (w2\<lparr>dayGrid := days\<rparr>))"

definition navigateMonth :: "int \<Rightarrow> int \<Rightarrow> widget \<Rightarrow> int \<Rightarrow> js_error + widget" where
  "navigateMonth tza now w change =
     (let currentMonth = getMonth tza (objs w ! dateDisplayed w);
          h = (objs w)[dateDisplayed w :=
                 setMonth tza (objs w ! dateDisplayed w) (map_option (\<lambda>m. m + change) currentMonth)]
      in updateCalendar tza now (w\<lparr>objs := h\<rparr>) (dateDisplayed w))"

text \<open>
  What a click in the shadow root can hit: nothing, the navigator text, the two navigator
  buttons, the day grid outside every day cell, the day cell with a given index, or any other
  part of the widget.
\<close>

datatype target =
    NoTarget
  | NavigatorText
  | NavigatorLeft
  | NavigatorRight
  | DayGridGap
  | DayCell nat
  | Elsewhere

text \<open>
  The click listener of \<^verbatim>\<open>setupListeners\<close>.  A day cell that does not exist cannot be clicked;
  the model leaves the widget as it is for such an index.
\<close>

definition click :: "int \<Rightarrow> int \<Rightarrow> widget \<Rightarrow> target \<Rightarrow> js_error + widget" where
  "click tza now w tgt =
     (case tgt of
        NoTarget \<Rightarrow> Inr w
      | NavigatorText \<Rightarrow> updateCalendar tza now w (dateToday w)
      | NavigatorLeft \<Rightarrow> navigateMonth tza now w (- 1)
      | NavigatorRight \<Rightarrow> navigateMonth tza now w 1
      | DayGridGap \<Rightarrow> Inr w
      | DayCell i \<Rightarrow>
          (if i < length (dayGrid w)
           then (case onDayClick w of
                   None \<Rightarrow> Inr w
                 | Some callback \<Rightarrow>
                     (let element = dayGrid w ! i;
                          (h, chosen) = Date_new (objs w) (Date_parse (dataset_date element))
                      in Inr (w\<lparr>objs := h,
                                dateChosen := chosen,
                                notified := notified w @ [(h ! chosen, i)],
                                timers := timers w + 1\<rparr>)))
           else Inr w)
      | Elsewhere \<Rightarrow> Inr w)"

text \<open>
  One scheduled re-render runs: \<^verbatim>\<open>this.updateCalendar(this.dateChosen)\<close>, with the fields as
  they are when it runs.
\<close>

definition timeout :: "int \<Rightarrow> int \<Rightarrow> widget \<Rightarrow> js_error + widget" where
  "timeout tza now w =
     (if timers w = 0 then Inr w
      else updateCalendar tza now (w\<lparr>timers := timers w - 1\<rparr>) (dateChosen w))"

text \<open>
  The constructor at clock time \<open>now\<close>: three fresh Date objects, the 42 day cells of the
  shadow markup (text: a zero width space), and the first render.
\<close>

definition shadow_day :: day_element where
  "shadow_day =
     \<lparr>classList = [''cell'', ''day''],
      textContent = [char_of (226::nat), char_of (128::nat), char_of (139::nat)],
      dataset_date = None\<rparr>"

definition constructor :: "int \<Rightarrow> int \<Rightarrow> js_error + widget" where
  "constructor tza now =
     (let w = \<lparr>objs = [Some now, Some now, Some now],
               starredDates = [],
               dateToday = 0,
               dateChosen = 1,
               dateDisplayed = 2,
               navigatorText = [],
               dayGrid = replicate 42 shadow_day,
               onDayClick = None,
               notified = [],
               timers = 0\<rparr>
      in updateCalendar tza now w (dateToday w))"

text \<open>
  The classification of a cell, read off its class list: which of the four state classes it
  carries.
\<close>

definition state_classes :: "day_element \<Rightarrow> string list" where
  "state_classes day =
     filter (\<lambda>c. c \<in> set [''dimmed'', ''today'', ''marked'', ''starred'']) (classList day)"

text \<open>A widget whose references point into its store and whose grid has its 42 day cells.\<close>

definition wf_widget :: "widget \<Rightarrow> bool" where
  "wf_widget w =
     (dateToday w < length (objs w) \<and> dateChosen w < length (objs w) \<and>
      dateDisplayed w < length (objs w) \<and> length (dayGrid w) = 42)"

section \<open>SimpleDatabase (simple-database.js)\<close>

text \<open>
  Keys and values come from the caller, so they are JavaScript strings in full: the list
  of the UTF-16 code units of the string, each a number below 65536.  \<open>utf16\<close> gives the
  code units of a literal of this theory (one unit for each of its characters).
\<close>

type_synonym js_string = "nat list"

definition utf16 :: "string \<Rightarrow> js_string" where
  "utf16 s = map of_char s"

text \<open>Values that a caller can pass where a string is expected.\<close>

datatype js_value = JUndefined | JNull | JString js_string | JNumber int

text \<open>
  The code units that \<^verbatim>\<open>String.prototype.trim\<close> strips: the white space of ECMA-262 (tab,
  vertical tab, form feed, the byte order mark U+FEFF and the space separators U+0020,
  U+00A0, U+1680, U+2000 to U+200A, U+202F, U+205F, U+3000) and its line terminators (line
  feed, carriage return, U+2028, U+2029).
\<close>

definition is_white_space :: "nat \<Rightarrow> bool" where
  "is_white_space u =
     (u \<in> {9, 10, 11, 12, 13, 32, 160, 5760, 8232, 8233, 8239, 8287, 12288, 65279}
      \<or> (8192 \<le> u \<and> u \<le> 8202))"

definition trim :: "js_string \<Rightarrow> js_string" where
  "trim s = rev (dropWhile is_white_space (rev (dropWhile is_white_space s)))"

fun validString :: "js_value list \<Rightarrow> bool" where
  "validString [] = True"
| "validString (arg # args) =
     (case arg of
        JString s \<Rightarrow> (if trim s = [] then False else validString args)
      | _ \<Rightarrow> False)"

text \<open>
  An exception object: a \<^verbatim>\<open>DOMException\<close> with its name, or an \<^verbatim>\<open>Error\<close> with its
  message (the name of an \<^verbatim>\<open>Error\<close> is \<^verbatim>\<open>Error\<close>).
\<close>

datatype js_exception = DOMException string | Error string

definition exception_name :: "js_exception \<Rightarrow> string" where
  "exception_name e = (case e of DOMException n \<Rightarrow> n | Error m \<Rightarrow> ''Error'')"

text \<open>\<^verbatim>\<open>${x.error?.name}\<close> in a template string: \<^verbatim>\<open>undefined\<close> when there is no error object.\<close>

definition error_name :: "js_exception option \<Rightarrow> string" where
  "error_name e = (case e of None \<Rightarrow> ''undefined'' | Some x \<Rightarrow> exception_name x)"

text \<open>
  The result objects \<^verbatim>\<open>{ success, data, message, error }\<close>; a property that is left out is
  \<open>None\<close>.  The data is a string, an array of strings, or an object from keys to values.
\<close>

datatype payload =
    PString js_string
  | PArray "js_string list"
  | PObject "(js_string \<times> js_string) list"

record db_result =
  success :: bool
  data :: "payload option"
  message :: "string option"
  error :: "js_exception option"

definition succeeded :: db_result where
  "succeeded = \<lparr>success = True, data = None, message = None, error = None\<rparr>"

definition succeeded_with :: "payload \<Rightarrow> db_result" where
  "succeeded_with d = \<lparr>success = True, data = Some d, message = None, error = None\<rparr>"

definition failed :: "string \<Rightarrow> js_exception option \<Rightarrow> db_result" where
  "failed msg e = \<lparr>success = False, data = None, message = Some msg, error = e\<rparr>"

text \<open>How the promise that a method returns ends.\<close>

datatype settlement = Pending | Resolved db_result | Rejected js_exception

text \<open>
  IndexedDB is the environment; each method is given what IndexedDB does with the request
  that the method starts.  Either a call that starts the request (\<^verbatim>\<open>indexedDB.open\<close>,
  \<^verbatim>\<open>deleteDatabase\<close>, \<^verbatim>\<open>transaction\<close>, \<^verbatim>\<open>objectStore\<close>, \<^verbatim>\<open>put\<close>, \<^verbatim>\<open>get\<close>, \<^verbatim>\<open>getAllKeys\<close>,
  \<^verbatim>\<open>getAll\<close>, \<^verbatim>\<open>openCursor\<close>) throws: these calls stand in the promise executor without a
  \<^verbatim>\<open>try\<close>, so the promise is rejected with the exception.  Or the calls return, and the
  request and its transaction fire events, given in the order in which they fire.
\<close>

datatype idb_event =
    UpgradeNeeded
  | RequestSuccess
  | RequestError "js_exception option"
  | TransactionError "js_exception option"
  | TransactionAbort
  | Blocked

datatype idb_response = Throws js_exception | Fires "idb_event list"

text \<open>
  A promise settles with the first call of \<^verbatim>\<open>resolve\<close>: the first event whose handler calls
  it.  \<open>handler e\<close> is \<open>None\<close> when no handler is set for \<open>e\<close> or the handler does not resolve.
\<close>

fun settle :: "(idb_event \<Rightarrow> db_result option) \<Rightarrow> idb_event list \<Rightarrow> settlement" where
  "settle handler [] = Pending"
| "settle handler (e # es) =
     (case handler e of Some r \<Rightarrow> Resolved r | None \<Rightarrow> settle handler es)"

text \<open>
  A write takes effect when its request succeeds and its transaction does not abort
  afterwards.
\<close>

definition committed :: "idb_event list \<Rightarrow> bool" where
  "committed evs = (RequestSuccess \<in> set evs \<and> TransactionAbort \<notin> set evs)"

text \<open>
  The instance with its database: \<open>linked\<close> says that \<^verbatim>\<open>this._db\<close> is not null, \<open>records\<close> is
  the content of the object store \<^verbatim>\<open>default\<close> of the database named \<open>dbName\<close>, in key order
  (a database that does not exist yet has no records).
\<close>

record simple_database =
  dbName :: js_string
  linked :: bool
  records :: "(js_string \<times> js_string) list"

text \<open>The constructor throws when the name is not a non-blank string.\<close>

definition new_SimpleDatabase ::
  "js_value \<Rightarrow> (js_string \<times> js_string) list \<Rightarrow> js_exception + simple_database" where
  "new_SimpleDatabase name stored =
     (if \<not> validString [name] then Inl (Error ''Expected non-empty string for dbName'')
      else (case name of
              JString n \<Rightarrow> Inr \<lparr>dbName = n, linked = False, records = stored\<rparr>
            | _ \<Rightarrow> Inl (Error ''Expected non-empty string for dbName'')))"

text \<open>IndexedDB orders string keys by their code units.\<close>

fun key_le :: "js_string \<Rightarrow> js_string \<Rightarrow> bool" where
  "key_le [] ys = True"
| "key_le (x # xs) [] = False"
| "key_le (x # xs) (y # ys) =
     (if x < y then True else if x = y then key_le xs ys else False)"

fun put ::
  "js_string \<Rightarrow> js_string \<Rightarrow> (js_string \<times> js_string) list \<Rightarrow> (js_string \<times> js_string) list" where
  "put value key [] = [(key, value)]"
| "put value key ((k, v) # rest) =
     (if key = k then (key, value) # rest
      else if key_le key k then (key, value) # (k, v) # rest
      else (k, v) # put value key rest)"

text \<open>
  The handlers that \<^verbatim>\<open>open\<close> sets on its request.  The success handler stores the
  connection in \<^verbatim>\<open>this._db\<close> whenever it runs.
\<close>

definition opening_handlers :: "idb_event \<Rightarrow> db_result option" where
  "opening_handlers e =
     (case e of
        RequestSuccess \<Rightarrow> Some succeeded
      | RequestError err \<Rightarrow>
          Some (failed (''Error in the opening process: '' @ error_name err) err)
      | _ \<Rightarrow> None)"

definition db_open :: "simple_database \<Rightarrow> idb_response \<Rightarrow> settlement \<times> simple_database" where
  "db_open db response =
     (if linked db then (Resolved succeeded, db)
      else
        (case response of
           Throws e \<Rightarrow> (Rejected e, db)
         | Fires evs \<Rightarrow>
             (settle opening_handlers evs,
              if RequestSuccess \<in> set evs then db\<lparr>linked := True\<rparr> else db)))"

text \<open>The handlers that \<^verbatim>\<open>save\<close> sets on its request and its transaction.\<close>

definition saving_handlers :: "idb_event \<Rightarrow> db_result option" where
  "saving_handlers e =
     (case e of
        RequestSuccess \<Rightarrow> Some succeeded
      | RequestError err \<Rightarrow>
          Some (failed (''Error in the saving process: '' @ error_name err) err)
      | TransactionError err \<Rightarrow>
          Some (failed (''Error in the saving process: '' @ error_name err) err)
      | TransactionAbort \<Rightarrow>
          Some (failed (''Error in the saving process: ''
                  @ exception_name (Error ''Transaction aborted''))
                (Some (Error ''Transaction aborted'')))
      | _ \<Rightarrow> None)"

definition save ::
  "simple_database \<Rightarrow> js_value \<Rightarrow> js_value \<Rightarrow> idb_response \<Rightarrow> settlement \<times> simple_database" where
  "save db key value response =
     (if \<not> linked db then (Resolved (failed ''Database not currently linked'' None), db)
      else if \<not> validString [key, value]
        then (Resolved (failed ''Expected a non-empty string'' None), db)
      else
        (case response of
           Throws e \<Rightarrow> (Rejected e, db)
         | Fires evs \<Rightarrow>
             (settle saving_handlers evs,
              case key of
                JString k \<Rightarrow>
                  (case value of
                     JString v \<Rightarrow>
                       (if committed evs then db\<lparr>records := put v k (records db)\<rparr> else db)
                   | _ \<Rightarrow> db)
              | _ \<Rightarrow> db)))"

text \<open>
  The handlers of the reading methods differ only in what the request's result is: \<open>found\<close>
  is that result, or \<open>None\<close> when it is \<^verbatim>\<open>undefined\<close> (the test is \<^verbatim>\<open>request.result != null\<close>).
\<close>

definition loading_handlers :: "payload option \<Rightarrow> idb_event \<Rightarrow> db_result option" where
  "loading_handlers found e =
     (case e of
        RequestSuccess \<Rightarrow>
          (case found of
             Some d \<Rightarrow> Some (succeeded_with d)
           | None \<Rightarrow> Some (failed ''Data was nullish'' None))
      | RequestError err \<Rightarrow>
          Some (failed (''Error in the loading process: '' @ error_name err) err)
      | TransactionError err \<Rightarrow>
          Some (failed (''Error in the loading process: '' @ error_name err) err)
      | TransactionAbort \<Rightarrow>
          Some (failed (''Error in the loading process: ''
                  @ exception_name (Error ''Transaction aborted''))
                (Some (Error ''Transaction aborted'')))
      | _ \<Rightarrow> None)"

definition load ::
  "simple_database \<Rightarrow> js_value \<Rightarrow> idb_response \<Rightarrow> settlement \<times> simple_database" where
  "load db key response =
     (if \<not> linked db then (Resolved (failed ''Database not currently linked'' None), db)
      else if \<not> validString [key]
        then (Resolved (failed ''Expected a non-empty string'' None), db)
      else
        (case response of
           Throws e \<Rightarrow> (Rejected e, db)
         | Fires evs \<Rightarrow>
             (case key of
                JString k \<Rightarrow>
                  (settle (loading_handlers (map_option PString (map_of (records db) k))) evs, db)
              | _ \<Rightarrow> (Resolved (failed ''Expected a non-empty string'' None), db))))"

definition loadAllKeys :: "simple_database \<Rightarrow> idb_response \<Rightarrow> settlement \<times> simple_database" where
  "loadAllKeys db response =
     (if \<not> linked db then (Resolved (failed ''Database not currently linked'' None), db)
      else
        (case response of
           Throws e \<Rightarrow> (Rejected e, db)
         | Fires evs \<Rightarrow>
             (settle (loading_handlers (Some (PArray (map fst (records db))))) evs, db)))"

definition loadAllValues :: "simple_database \<Rightarrow> idb_response \<Rightarrow> settlement \<times> simple_database" where
  "loadAllValues db response =
     (if \<not> linked db then (Resolved (failed ''Database not currently linked'' None), db)
      else
        (case response of
           Throws e \<Rightarrow> (Rejected e, db)
         | Fires evs \<Rightarrow>
             (settle (loading_handlers (Some (PArray (map snd (records db))))) evs, db)))"

text \<open>
  \<^verbatim>\<open>loadAll\<close> walks a cursor: each success event of the request brings the next record, which
  is added to the object \<^verbatim>\<open>data\<close> (here \<open>entries\<close>), or no cursor at the end, and then the
  promise resolves.
\<close>

fun loadAll_cursor ::
  "(js_string \<times> js_string) list \<Rightarrow> (js_string \<times> js_string) list \<Rightarrow> idb_event list
     \<Rightarrow> settlement" where
  "loadAll_cursor remaining entries [] = Pending"
| "loadAll_cursor remaining entries (e # es) =
     (case e of
        RequestSuccess \<Rightarrow>
          (case remaining of
             [] \<Rightarrow> Resolved (succeeded_with (PObject entries))
           | (k, v) # rest \<Rightarrow> loadAll_cursor rest (entries @ [(k, v)]) es)
      | RequestError err \<Rightarrow>
          Resolved (failed (''Error in the loading process: '' @ error_name err) err)
      | TransactionError err \<Rightarrow>
          Resolved (failed (''Error in the loading process: '' @ error_name err) err)
      | TransactionAbort \<Rightarrow>
          Resolved (failed (''Error in the loading process: ''
                      @ exception_name (Error ''Transaction aborted''))
                    (Some (Error ''Transaction aborted'')))
      | _ \<Rightarrow> loadAll_cursor remaining entries es)"

definition loadAll :: "simple_database \<Rightarrow> idb_response \<Rightarrow> settlement \<times> simple_database" where
  "loadAll db response =
     (if \<not> linked db then (Resolved (failed ''Database not currently linked'' None), db)
      else
        (case response of
           Throws e \<Rightarrow> (Rejected e, db)
         | Fires evs \<Rightarrow> (loadAll_cursor (records db) [] evs, db)))"

definition db_close :: "simple_database \<Rightarrow> simple_database" where
  "db_close db = (if linked db then db\<lparr>linked := False\<rparr> else db)"

text \<open>
  \<^verbatim>\<open>_destroy\<close> closes the connection first.  The database is deleted when the delete
  request succeeds, also when the promise has resolved before that on a \<^verbatim>\<open>blocked\<close> event.
\<close>

definition deletion_handlers :: "idb_event \<Rightarrow> db_result option" where
  "deletion_handlers e =
     (case e of
        RequestSuccess \<Rightarrow> Some succeeded
      | Blocked \<Rightarrow>
          Some (failed (''Error in the deletion process: ''
                  @ exception_name (Error ''Deletion blocked, other tabs may be accessing data''))
                (Some (Error ''Deletion blocked, other tabs may be accessing data'')))
      | RequestError err \<Rightarrow>
          Some (failed (''Error in the deletion process: '' @ error_name err) err)
      | _ \<Rightarrow> None)"

definition destroy :: "simple_database \<Rightarrow> idb_response \<Rightarrow> settlement \<times> simple_database" where
  "destroy db response =
     (if \<not> linked db then (Resolved (failed ''Database not currently linked'' None), db)
      else
        (let db1 = db_close db
         in case response of
              Throws e \<Rightarrow> (Rejected e, db1)
            | Fires evs \<Rightarrow>
                (settle deletion_handlers evs,
                 if RequestSuccess \<in> set evs then db1\<lparr>records := []\<rparr> else db1)))"

text \<open>
  \<^verbatim>\<open>reset\<close> awaits \<^verbatim>\<open>_destroy\<close> and then \<^verbatim>\<open>open\<close>; the two responses are those to the two
  requests.  Awaiting a rejected promise throws in the \<^verbatim>\<open>async\<close> function, which rejects
  its own promise.
\<close>

definition reset ::
  "simple_database \<Rightarrow> idb_response \<Rightarrow> idb_response \<Rightarrow> settlement \<times> simple_database" where
  "reset db response1 response2 =
     (case destroy db response1 of
        (Pending, db1) \<Rightarrow> (Pending, db1)
      | (Rejected e, db1) \<Rightarrow> (Rejected e, db1)
      | (Resolved destroyResult, db1) \<Rightarrow>
          (if \<not> success destroyResult then (Resolved destroyResult, db1)
           else
             (case db_open db1 response2 of
                (Pending, db2) \<Rightarrow> (Pending, db2)
              | (Rejected e, db2) \<Rightarrow> (Rejected e, db2)
              | (Resolved openResult, db2) \<Rightarrow>
                  (if \<not> success openResult then (Resolved openResult, db2)
                   else (Resolved succeeded, db2)))))"

text \<open>A call of any of the asynchronous methods, for statements about all of them.\<close>

datatype db_call =
    Open
  | Save js_value js_value
  | Load js_value
  | LoadAllKeys
  | LoadAllValues
  | LoadAll
  | Destroy
  | Reset

fun call :: "simple_database \<Rightarrow> db_call \<Rightarrow> idb_response \<Rightarrow> idb_response
    \<Rightarrow> settlement \<times> simple_database" where
  "call db Open response1 response2 = db_open db response1"
| "call db (Save key value) response1 response2 = save db key value response1"
| "call db (Load key) response1 response2 = load db key response1"
| "call db LoadAllKeys response1 response2 = loadAllKeys db response1"
| "call db LoadAllValues response1 response2 = loadAllValues db response1"
| "call db LoadAll response1 response2 = loadAll db response1"
| "call db Destroy response1 response2 = destroy db response1"
| "call db Reset response1 response2 = reset db response1 response2"

section \<open>Auxiliary notions for the proofs\<close>

text \<open>
  The time value of the first day of the month of \<open>u\<close> (at the time of day of \<open>u\<close>), the
  number of days from the Monday on or before it, and the time value that the grid holds at
  index \<open>i\<close>.  \<open>getDateArray_Some\<close> shows that \<^const>\<open>getDateArray\<close> computes exactly these.
\<close>

definition firstOfMonth :: "int \<Rightarrow> int \<Rightarrow> int" where
  "firstOfMonth tza u = u + (1 - DateFromTime (LocalTime tza u)) * msPerDay"

definition mondayOffset :: "int \<Rightarrow> int \<Rightarrow> int" where
  "mondayOffset tza u = (WeekDay (LocalTime tza (firstOfMonth tza u)) + 6) mod 7"

definition gridCell :: "int \<Rightarrow> int \<Rightarrow> nat \<Rightarrow> int" where
  "gridCell tza u i = firstOfMonth tza u + (int i - mondayOffset tza u) * msPerDay"

text \<open>
  A widget state for the examples: built on 2025-08-01 (UTC), the chosen date 2025-08-03, one
  starred key, and day cells that still carry state classes of an earlier render.
\<close>

definition sample_widget :: widget where
  "sample_widget =
     \<lparr>objs = [Some 1754006400000, Some 1754179200000, Some 1754006400000],
      starredDates = [''2025-08-05''],
      dateToday = 0,
      dateChosen = 1,
      dateDisplayed = 2,
      navigatorText = [],
      dayGrid = replicate 42
        \<lparr>classList = [''cell'', ''day'', ''starred'', ''marked''], textContent = ''3'',
         dataset_date = Some ''2025-08-03''\<rparr>,
      onDayClick = None,
      notified = [],
      timers = 0\<rparr>"

text \<open>
  A run for the examples, with UTC offset 0: a widget is built on 2025-08-01 at noon, the host
  registers a callback, the user clicks the day cell at index 4 (which shows August 1), and
  half a second later the scheduled re-render runs.
\<close>

definition scenario_built :: widget where
  "scenario_built = projr (constructor 0 1754049600000)"

definition scenario_clicked :: widget where
  "scenario_clicked =
     projr (click 0 1754049600000 (scenario_built\<lparr>onDayClick := Some 0\<rparr>) (DayCell 4))"

definition scenario_rendered :: widget where
  "scenario_rendered = projr (timeout 0 1754049600500 scenario_clicked)"

text \<open>
  A second run, with UTC offset 0: a widget is built on 2025-08-15 at noon, the user goes
  four months forward, clicks the header label on 2025-10-20 at noon, and then clicks the
  right arrow.
\<close>

definition header_built :: widget where
  "header_built = projr (constructor 0 1755259200000)"

definition header_navigated :: widget where
  "header_navigated = projr (navigateMonth 0 1755259200000 header_built 4)"

definition header_clicked :: widget where
  "header_clicked = projr (click 0 1760961600000 header_navigated NavigatorText)"

definition header_next :: widget where
  "header_next = projr (click 0 1760961600000 header_clicked NavigatorRight)"

text \<open>An open store without records, and the same store before \<open>open\<close>.\<close>

definition open_database :: simple_database where
  "open_database = \<lparr>dbName = utf16 ''app'', linked = True, records = []\<rparr>"

definition closed_database :: simple_database where
  "closed_database = \<lparr>dbName = utf16 ''app'', linked = False, records = []\<rparr>"

section \<open>Properties\<close>

subsection \<open>Day numbers and years\<close>

lemma div_bounds: "k * (x div k) \<le> x \<and> x < k * (x div k) + k" if "0 < k" for x k :: int
proof -
  have "x = k * (x div k) + x mod k" by simp
  moreover have "0 \<le> x mod k" "x mod k < k" using that by simp_all
  ultimately show ?thesis by linarith
qed

lemma div_succ:
  fixes x k :: int
  assumes "0 < k"
  shows "(x + 1) div k = (if (x + 1) mod k = 0 then x div k + 1 else x div k)"
proof (cases "x mod k = k - 1")
  case True
  have "x = k * (x div k) + x mod k" by simp
  with True have "x + 1 = k * (x div k) + k" by linarith
  then have "x + 1 = k * (x div k + 1) + 0" by (simp add: algebra_simps)
  then have "(x + 1) div k = x div k + 1" "(x + 1) mod k = 0"
    using assms int_div_pos_eq [of "x + 1" k "x div k + 1" 0]
      int_mod_pos_eq [of "x + 1" k "x div k + 1" 0] by simp_all
  then show ?thesis by simp
next
  case False
  have r: "0 \<le> x mod k" "x mod k < k" using assms by simp_all
  with False have r': "x mod k + 1 < k" by linarith
  have "x + 1 = k * (x div k) + (x mod k + 1)" by simp
  then have "(x + 1) div k = x div k" "(x + 1) mod k = x mod k + 1"
    using r r' int_div_pos_eq [of "x + 1" k "x div k" "x mod k + 1"]
      int_mod_pos_eq [of "x + 1" k "x div k" "x mod k + 1"] by simp_all
  then show ?thesis using r by simp
qed

lemma mod_shift: "(y - k * c) mod k = y mod k" for y k c :: int
  by (metis mod_mult_self2 diff_conv_add_uminus mult_minus_right)

lemma DayFromYear_Suc: "DayFromYear (y + 1) = DayFromYear y + DaysInYear y"
proof -
  have a: "(y - 1968) div 4 = (if y mod 4 = 0 then (y - 1969) div 4 + 1 else (y - 1969) div 4)"
    using div_succ [of 4 "y - 1969"] mod_shift [of y 4 492] by (simp add: algebra_simps)
  have c: "(y - 1900) div 100 = (if y mod 100 = 0 then (y - 1901) div 100 + 1 else (y - 1901) div 100)"
    using div_succ [of 100 "y - 1901"] mod_shift [of y 100 19] by (simp add: algebra_simps)
  have e: "(y - 1600) div 400 = (if y mod 400 = 0 then (y - 1601) div 400 + 1 else (y - 1601) div 400)"
    using div_succ [of 400 "y - 1601"] mod_shift [of y 400 4] by (simp add: algebra_simps)
  have "(4::int) dvd 100" "(100::int) dvd 400" by simp_all
  then have m1: "y mod 100 = 0 \<Longrightarrow> y mod 4 = 0" and m2: "y mod 400 = 0 \<Longrightarrow> y mod 100 = 0"
    using dvd_trans [of 4 100 y] dvd_trans [of 100 400 y] by (simp_all add: mod_eq_0_iff_dvd)
  show ?thesis
  proof (cases "y mod 4 = 0")
    case False
    with m1 m2 show ?thesis by (auto simp: DayFromYear_def DaysInYear_def a c e)
  next
    case y4: True
    show ?thesis
    proof (cases "y mod 100 = 0")
      case False
      with y4 m2 show ?thesis by (auto simp: DayFromYear_def DaysInYear_def a c e)
    next
      case True
      with y4 show ?thesis by (auto simp: DayFromYear_def DaysInYear_def a c e)
    qed
  qed
qed

lemma est_lower_lin:
  fixes q d a c e :: int
  assumes "146097 * q \<le> 400 * d" "4 * a \<le> q" "q + 68 < 100 * c + 100" "400 * e \<le> q + 368"
  shows "365 * (q - 1) + a - c + e \<le> d"
proof -
  have 1: "400 * a \<le> 100 * q" using assms(2) by simp
  have 2: "4 * q - 128 < 400 * c" using assms(3) by simp
  have "146000 * q - 146000 + 400 * a - 400 * c + 400 * e \<le> 400 * d"
    using assms(1,4) 1 2 by linarith
  then show ?thesis by simp
qed

lemma est_upper_lin:
  fixes q d a c e :: int
  assumes "400 * d < 146097 * q + 146097" "q + 3 < 4 * a + 4" "100 * c \<le> q + 71"
    "q + 371 < 400 * e + 400"
  shows "d < 365 * (q + 2) + a - c + e"
proof -
  have 1: "100 * q - 100 < 400 * a" using assms(2) by simp
  have 2: "400 * c \<le> 4 * q + 284" using assms(3) by simp
  have 3: "q - 29 < 400 * e" using assms(4) by simp
  have "400 * d < 146000 * q + 292000 + 400 * a - 400 * c + 400 * e"
    using assms(1) 1 2 3 by linarith
  then show ?thesis by simp
qed

lemma est_lower: "DayFromYear (1970 + (400 * d) div 146097 - 1) \<le> d"
proof -
  define q where "q = (400 * d) div 146097"
  have a: "146097 * q \<le> 400 * d" "400 * d < 146097 * q + 146097"
    using div_bounds [of 146097 "400 * d"] by (simp_all add: q_def)
  have b: "4 * (q div 4) \<le> q"
    using div_bounds [of 4 q] by simp
  have c: "q + 68 < 100 * ((q + 68) div 100) + 100"
    using div_bounds [of 100 "q + 68"] by simp
  have e: "400 * ((q + 368) div 400) \<le> q + 368"
    using div_bounds [of 400 "q + 368"] by simp
  have "DayFromYear (1970 + q - 1) = 365 * (q - 1) + q div 4 - (q + 68) div 100 + (q + 368) div 400"
    by (simp add: DayFromYear_def add.commute)
  also have "\<dots> \<le> d" using a(1) b c e by (rule est_lower_lin)
  finally show ?thesis by (simp add: q_def)
qed

lemma est_upper: "d < DayFromYear (1970 + (400 * d) div 146097 + 2)"
proof -
  define q where "q = (400 * d) div 146097"
  have a: "146097 * q \<le> 400 * d" "400 * d < 146097 * q + 146097"
    using div_bounds [of 146097 "400 * d"] by (simp_all add: q_def)
  have b: "q + 3 < 4 * ((q + 3) div 4) + 4"
    using div_bounds [of 4 "q + 3"] by simp
  have c: "100 * ((q + 71) div 100) \<le> q + 71"
    using div_bounds [of 100 "q + 71"] by simp
  have e: "q + 371 < 400 * ((q + 371) div 400) + 400"
    using div_bounds [of 400 "q + 371"] by simp
  have "DayFromYear (1970 + q + 2) = 365 * (q + 2) + (q + 3) div 4 - (q + 71) div 100 + (q + 371) div 400"
    by (simp add: DayFromYear_def add.commute)
  moreover have "d < 365 * (q + 2) + (q + 3) div 4 - (q + 71) div 100 + (q + 371) div 400"
    using a(2) b c e by (rule est_upper_lin)
  ultimately show ?thesis by (simp add: q_def)
qed

lemma DaysInYear_bounds: "365 \<le> DaysInYear y" "DaysInYear y \<le> 366"
  by (simp_all add: DaysInYear_def)

lemma DayFromYear_mono: "y \<le> z \<Longrightarrow> DayFromYear y \<le> DayFromYear z"
proof (induction "nat (z - y)" arbitrary: z)
  case 0
  then show ?case by simp
next
  case (Suc n)
  then have "n = nat ((z - 1) - y)" "y \<le> z - 1" by linarith+
  then have "DayFromYear y \<le> DayFromYear (z - 1)" using Suc.hyps(1) by blast
  moreover have "DayFromYear z = DayFromYear (z - 1) + DaysInYear (z - 1)"
    using DayFromYear_Suc [of "z - 1"] by simp
  ultimately show ?case using DaysInYear_bounds(1) [of "z - 1"] by linarith
qed

lemma DayFromYear_strict: "y < z \<Longrightarrow> DayFromYear y < DayFromYear z"
  using DayFromYear_mono [of "y + 1" z] DayFromYear_Suc [of y] DaysInYear_bounds(1) [of y]
  by linarith

lemma YearFromDay_bounds:
  "DayFromYear (YearFromDay d) \<le> d \<and> d < DayFromYear (YearFromDay d + 1)"
proof -
  define y where "y = 1970 + (400 * d) div 146097"
  have lo: "DayFromYear (y - 1) \<le> d" using est_lower [of d] by (simp add: y_def)
  have hi: "d < DayFromYear (y + 2)" using est_upper [of d] by (simp add: y_def)
  have eq: "YearFromDay d = (if d < DayFromYear y then y - 1
         else if DayFromYear (y + 1) \<le> d then y + 1 else y)"
    by (simp add: YearFromDay_def y_def Let_def)
  have s1: "DayFromYear (y - 1 + 1) = DayFromYear y" by simp
  have s2: "DayFromYear (y + 1 + 1) = DayFromYear (y + 2)" by (simp add: add.assoc)
  show ?thesis
  proof (cases "d < DayFromYear y")
    case True
    then show ?thesis using lo eq s1 by simp
  next
    case False
    then show ?thesis using hi eq s2 by (cases "DayFromYear (y + 1) \<le> d") simp_all
  qed
qed

lemma YearFromDay_unique:
  assumes "DayFromYear y \<le> d" "d < DayFromYear (y + 1)"
  shows "YearFromDay d = y"
proof (rule ccontr)
  assume ne: "YearFromDay d \<noteq> y"
  let ?z = "YearFromDay d"
  from YearFromDay_bounds [of d] have b: "DayFromYear ?z \<le> d" "d < DayFromYear (?z + 1)" by simp_all
  from ne consider "?z < y" | "y < ?z" by linarith
  then show False
  proof cases
    case 1
    then have "DayFromYear (?z + 1) \<le> DayFromYear y" by (intro DayFromYear_mono) simp
    with b assms show False by linarith
  next
    case 2
    then have "DayFromYear (y + 1) \<le> DayFromYear ?z" by (intro DayFromYear_mono) simp
    with b assms show False by linarith
  qed
qed


lemma msPerDay_pos: "0 < msPerDay"
  by (simp add: msPerDay_def)

lemma Day_MakeDate: "0 \<le> tw \<Longrightarrow> tw < msPerDay \<Longrightarrow> Day (MakeDate d tw) = d"
  unfolding Day_def MakeDate_def
  using int_div_pos_eq [of "d * msPerDay + tw" msPerDay d tw] by (simp add: mult.commute)

lemma TimeWithinDay_bounds: "0 \<le> TimeWithinDay t" "TimeWithinDay t < msPerDay"
  using msPerDay_pos by (simp_all add: TimeWithinDay_def)

lemma Day_TimeWithinDay: "t = Day t * msPerDay + TimeWithinDay t"
  by (simp add: Day_def TimeWithinDay_def)

lemma Day_shift: "Day (t + k * msPerDay) = Day t + k"
  using msPerDay_pos by (simp add: Day_def)

lemma YearFromTime_bounds:
  "DayFromYear (YearFromTime t) \<le> Day t" "Day t < DayFromYear (YearFromTime t + 1)"
  using YearFromDay_bounds [of "Day t"] by (simp_all add: YearFromTime_def)

lemma DayWithinYear_bounds:
  "0 \<le> DayWithinYear t" "DayWithinYear t < DaysInYear (YearFromTime t)"
  using YearFromTime_bounds [of t] DayFromYear_Suc [of "YearFromTime t"]
  by (simp_all add: DayWithinYear_def)

lemma MonthFromTime_range: "0 \<le> MonthFromTime t" "MonthFromTime t < 12"
  by (simp_all add: MonthFromTime_def Let_def)

lemma month_cases:
  fixes m :: int
  assumes "0 \<le> m" "m < 12"
  obtains "m = 0" | "m = 1" | "m = 2" | "m = 3" | "m = 4" | "m = 5"
    | "m = 6" | "m = 7" | "m = 8" | "m = 9" | "m = 10" | "m = 11"
proof -
  have "m = 0 \<or> m = 1 \<or> m = 2 \<or> m = 3 \<or> m = 4 \<or> m = 5
      \<or> m = 6 \<or> m = 7 \<or> m = 8 \<or> m = 9 \<or> m = 10 \<or> m = 11"
    using assms by presburger
  then show ?thesis using that by blast
qed

text \<open>A day of a month, counted from the start of its year, has that year, month and date.\<close>

lemma year_month_date_of_day:
  assumes m: "0 \<le> mn" "mn < 12"
    and k: "0 \<le> k" "k < DaysInMonth y mn"
    and d: "Day t = DayFromYear y + MonthStart (if DaysInYear y = 366 then 1 else 0) mn + k"
  shows "YearFromTime t = y" "MonthFromTime t = mn" "DateFromTime t = k + 1"
proof -
  let ?l = "if DaysInYear y = 366 then 1 else (0::int)"
  have len: "DaysInYear y = 365 \<or> DaysInYear y = 366"
    by (simp add: DaysInYear_def)
  have lo: "0 \<le> MonthStart ?l mn + k"
    using m k(1) by (cases mn rule: month_cases) (simp_all add: MonthStart_def)
  have hi: "MonthStart ?l mn + k < DaysInYear y"
    using m k len by (cases mn rule: month_cases) (auto simp: MonthStart_def DaysInMonth_def)
  have "DayFromYear y \<le> Day t" "Day t < DayFromYear (y + 1)"
    using lo hi d DayFromYear_Suc [of y] by linarith+
  then show y: "YearFromTime t = y"
    unfolding YearFromTime_def by (rule YearFromDay_unique)
  have w: "DayWithinYear t = MonthStart ?l mn + k"
    using d y by (simp add: DayWithinYear_def)
  have l: "InLeapYear t = ?l"
    using y by (simp add: InLeapYear_def)
  show mo: "MonthFromTime t = mn"
    using m k len unfolding MonthFromTime_def w l
    by (cases mn rule: month_cases) (auto simp: MonthStart_def DaysInMonth_def Let_def)
  show "DateFromTime t = k + 1"
    using m unfolding DateFromTime_def mo w l
    by (cases mn rule: month_cases) (auto simp: MonthStart_def Let_def)
qed

text \<open>Every time value is such a day of a month.\<close>

lemma DateFromTime_range:
  "1 \<le> DateFromTime t" "DateFromTime t \<le> DaysInMonth (YearFromTime t) (MonthFromTime t)"
proof -
  have len: "DaysInYear (YearFromTime t) = 365 \<or> DaysInYear (YearFromTime t) = 366"
    by (simp add: DaysInYear_def)
  show "1 \<le> DateFromTime t"
    using DayWithinYear_bounds [of t] len
    by (auto simp: DateFromTime_def MonthFromTime_def InLeapYear_def Let_def)
  show "DateFromTime t \<le> DaysInMonth (YearFromTime t) (MonthFromTime t)"
    using DayWithinYear_bounds [of t] len
    by (auto simp: DateFromTime_def MonthFromTime_def InLeapYear_def DaysInMonth_def Let_def)
qed

lemma Day_decompose:
  "Day t = DayFromYear (YearFromTime t)
     + MonthStart (if DaysInYear (YearFromTime t) = 366 then 1 else 0) (MonthFromTime t)
     + DateFromTime t - 1"
proof -
  have "DayWithinYear t = MonthStart (InLeapYear t) (MonthFromTime t) + DateFromTime t - 1"
    by (auto simp: DateFromTime_def MonthFromTime_def MonthStart_def Let_def)
  then show ?thesis
    by (simp add: DayWithinYear_def InLeapYear_def)
qed

lemma MakeDay_in_month:
  "0 \<le> mn \<Longrightarrow> mn < 12 \<Longrightarrow>
   MakeDay y mn dt = DayFromYear y + MonthStart (if DaysInYear y = 366 then 1 else 0) mn + dt - 1"
  by (simp add: MakeDay_def Let_def)

lemma MakeDay_same_month: "MakeDay (YearFromTime t) (MonthFromTime t) dt = Day t - DateFromTime t + dt"
  using MonthFromTime_range [of t] Day_decompose [of t]
  by (simp add: MakeDay_in_month)

lemma setDate_Some:
  "setDate tza (Some u) dt = Some (u + (dt - DateFromTime (LocalTime tza u)) * msPerDay)"
proof -
  let ?t = "LocalTime tza u"
  have "MakeDate (MakeDay (YearFromTime ?t) (MonthFromTime ?t) dt) (TimeWithinDay ?t)
      = ?t + (dt - DateFromTime ?t) * msPerDay"
    using Day_TimeWithinDay [of ?t]
    by (simp add: MakeDay_same_month MakeDate_def algebra_simps)
  then show ?thesis
    by (simp add: setDate_def Let_def UTC_def LocalTime_def)
qed


text \<open>
  The executable year is the year of the standard: the largest \<open>y\<close> whose first instant is
  not after \<open>t\<close>.
\<close>

lemma TimeFromYear_le_iff: "(TimeFromYear y \<le> t) = (DayFromYear y \<le> Day t)"
proof -
  have b: "86400000 * (t div 86400000) \<le> t" "t < 86400000 * (t div 86400000) + 86400000"
    using div_bounds [of 86400000 t] by simp_all
  show ?thesis
    unfolding TimeFromYear_def Day_def msPerDay_def using b by linarith
qed

lemma YearFromTime_iff:
  "(YearFromTime t = y) = (TimeFromYear y \<le> t \<and> t < TimeFromYear (y + 1))"
proof
  assume "YearFromTime t = y"
  then show "TimeFromYear y \<le> t \<and> t < TimeFromYear (y + 1)"
    using YearFromTime_bounds [of t] TimeFromYear_le_iff [of y t] TimeFromYear_le_iff [of "y + 1" t]
    by simp
next
  assume "TimeFromYear y \<le> t \<and> t < TimeFromYear (y + 1)"
  then have "DayFromYear y \<le> Day t" "Day t < DayFromYear (y + 1)"
    using TimeFromYear_le_iff [of y t] TimeFromYear_le_iff [of "y + 1" t] by simp_all
  then show "YearFromTime t = y"
    unfolding YearFromTime_def by (rule YearFromDay_unique)
qed

text \<open>\<open>MakeDay\<close> with date 1 is the day that the standard asks for.\<close>

lemma MakeDay_first:
  assumes "Day t = MakeDay year month 1"
  shows "YearFromTime t = year + month div 12" "MonthFromTime t = month mod 12"
    "DateFromTime t = 1"
proof -
  let ?ym = "year + month div 12"
  have mn: "0 \<le> month mod 12" "month mod 12 < 12" by simp_all
  have k: "(0::int) \<le> 0" "0 < DaysInMonth ?ym (month mod 12)" by (simp_all add: DaysInMonth_def)
  have d: "Day t = DayFromYear ?ym
      + MonthStart (if DaysInYear ?ym = 366 then 1 else 0) (month mod 12) + 0"
    using assms by (simp add: MakeDay_def Let_def)
  note r = year_month_date_of_day [OF mn k d]
  show "YearFromTime t = ?ym" by (rule r(1))
  show "MonthFromTime t = month mod 12" by (rule r(2))
  show "DateFromTime t = 1" using r(3) by simp
qed

subsection \<open>The date array\<close>

lemma cloneDate_day:
  "date < length h \<Longrightarrow>
   cloneDate tza h date (Some d) None None = (h @ [setDate tza (h ! date) d], length h)"
  by (simp add: cloneDate_def Date_new_def getTime_def nth_append)

lemma getDateArray_loop_eq:
  assumes "firstDate < length h"
  shows "getDateArray_loop tza h firstDate day end dates =
    (h @ map (\<lambda>k. setDate tza (h ! firstDate) (day + int k)) [0..<nat (end - day)],
     dates @ map (\<lambda>k. length h + k) [0..<nat (end - day)])"
  using assms
proof (induction "nat (end - day)" arbitrary: h day dates)
  case 0
  then show ?case by (simp add: getDateArray_loop.simps)
next
  case (Suc n)
  let ?h = "h @ [setDate tza (h ! firstDate) day]"
  from Suc.hyps(2) have lt: "day < end" and n: "n = nat (end - (day + 1))" by linarith+
  have fd: "firstDate < length ?h" "?h ! firstDate = h ! firstDate"
    using Suc.prems by (simp_all add: nth_append)
  have step: "getDateArray_loop tza h firstDate day end dates =
      getDateArray_loop tza ?h firstDate (day + 1) end (dates @ [length h])"
    using lt Suc.prems
    by (subst getDateArray_loop.simps) (simp add: cloneDate_day)
  have cnt: "nat (end - day) = Suc n" using Suc.hyps(2) by simp
  show ?case
    unfolding step Suc.hyps(1) [OF n fd(1)] fd(2) cnt n [symmetric]
    by (simp add: list_eq_iff_nth_eq nth_append nth_Cons' del: upt_Suc) (auto simp: algebra_simps)
qed

lemma firstOfMonth_fields:
  "YearFromTime (LocalTime tza (firstOfMonth tza u)) = YearFromTime (LocalTime tza u)"
  "MonthFromTime (LocalTime tza (firstOfMonth tza u)) = MonthFromTime (LocalTime tza u)"
  "DateFromTime (LocalTime tza (firstOfMonth tza u)) = 1"
proof -
  let ?t = "LocalTime tza u"
  let ?f = "LocalTime tza (firstOfMonth tza u)"
  have "?f = ?t + (1 - DateFromTime ?t) * msPerDay"
    by (simp add: firstOfMonth_def LocalTime_def)
  then have "Day ?f = Day ?t + (1 - DateFromTime ?t)"
    by (simp only: Day_shift)
  then have d: "Day ?f = DayFromYear (YearFromTime ?t)
     + MonthStart (if DaysInYear (YearFromTime ?t) = 366 then 1 else 0) (MonthFromTime ?t) + 0"
    using Day_decompose [of ?t] by simp
  have pos: "0 < DaysInMonth (YearFromTime ?t) (MonthFromTime ?t)"
    by (simp add: DaysInMonth_def)
  note r = year_month_date_of_day [OF MonthFromTime_range [of ?t] order_refl pos d]
  show "YearFromTime ?f = YearFromTime ?t" by (rule r(1))
  show "MonthFromTime ?f = MonthFromTime ?t" by (rule r(2))
  show "DateFromTime ?f = 1" using r(3) by simp
qed

lemma getDateArray_Some:
  assumes "date < length h" "h ! date = Some u"
  shows "getDateArray tza h date =
    (h @ Some (firstOfMonth tza u) # map (\<lambda>i. Some (gridCell tza u i)) [0..<42],
     map (\<lambda>i. length h + 1 + i) [0..<42])"
proof -
  have c: "cloneDate tza h date (Some 1) None None = (h @ [Some (firstOfMonth tza u)], length h)"
    using assms by (simp add: cloneDate_day setDate_Some firstOfMonth_def)
  have cell: "setDate tza (Some (firstOfMonth tza u)) (1 - mondayOffset tza u + int k)
      = Some (gridCell tza u k)" for k
    by (simp add: setDate_Some firstOfMonth_fields gridCell_def algebra_simps)
  show ?thesis
    unfolding getDateArray_def c
    by (simp add: getDay_def Let_def getDateArray_loop_eq mondayOffset_def [symmetric] cell
        del: upt_Suc)
qed

lemma getDateArray_None:
  assumes "date < length h" "h ! date = None"
  shows "getDateArray tza h date = (h @ [None], [])"
  using assms by (simp add: getDateArray_def cloneDate_day setDate_def getDay_def)


subsection \<open>The month grid\<close>

lemma fields_cong:
  assumes "Day s = Day t"
  shows "YearFromTime s = YearFromTime t" "MonthFromTime s = MonthFromTime t"
    "DateFromTime s = DateFromTime t" "WeekDay s = WeekDay t"
proof -
  show y: "YearFromTime s = YearFromTime t" using assms by (simp add: YearFromTime_def)
  have w: "DayWithinYear s = DayWithinYear t" "InLeapYear s = InLeapYear t"
    using assms y by (simp_all add: DayWithinYear_def InLeapYear_def)
  show m: "MonthFromTime s = MonthFromTime t" by (simp add: MonthFromTime_def w)
  show "DateFromTime s = DateFromTime t" by (simp add: DateFromTime_def w m)
  show "WeekDay s = WeekDay t" using assms by (simp add: WeekDay_def)
qed

lemma toShort_cong:
  "Day (LocalTime tza a) = Day (LocalTime tzb b) \<Longrightarrow> toShort tza (Some a) = toShort tzb (Some b)"
  by (simp add: toShort_def toLocaleDateString_en_CA_def Let_def
      fields_cong [of "LocalTime tza a" "LocalTime tzb b"])

lemma firstOfMonth_Day:
  "Day (LocalTime tza (firstOfMonth tza u)) =
     DayFromYear (YearFromTime (LocalTime tza u))
     + MonthStart (if DaysInYear (YearFromTime (LocalTime tza u)) = 366 then 1 else 0)
         (MonthFromTime (LocalTime tza u))"
  using Day_decompose [of "LocalTime tza (firstOfMonth tza u)"]
  by (simp add: firstOfMonth_fields)

lemma gridCell_Day:
  "Day (LocalTime tza (gridCell tza u i)) =
     Day (LocalTime tza (firstOfMonth tza u)) + (int i - mondayOffset tza u)"
proof -
  have "LocalTime tza (gridCell tza u i) =
      LocalTime tza (firstOfMonth tza u) + (int i - mondayOffset tza u) * msPerDay"
    by (simp add: gridCell_def LocalTime_def)
  then show ?thesis by (simp only: Day_shift)
qed

lemma gridCell_TimeWithinDay:
  "TimeWithinDay (LocalTime tza (gridCell tza u i)) = TimeWithinDay (LocalTime tza u)"
proof -
  have "LocalTime tza (gridCell tza u i) = LocalTime tza u
      + (1 - DateFromTime (LocalTime tza u) + (int i - mondayOffset tza u)) * msPerDay"
    by (simp add: gridCell_def firstOfMonth_def LocalTime_def algebra_simps)
  then show ?thesis
    by (simp only: TimeWithinDay_def mod_mult_self1)
qed

lemma weekday_arith:
  fixes a i :: int
  shows "(a + (i - ((a + 4) mod 7 + 6) mod 7) + 4) mod 7 = (1 + i) mod 7"
proof -
  have "((a + 4) mod 7 + 6) mod 7 = (a + 4 + 6) mod 7"
    by (simp only: mod_add_left_eq)
  also have "\<dots> = (a + 3 + 7) mod 7" by (simp add: add.commute)
  also have "\<dots> = (a + 3) mod 7" by (simp only: mod_add_self2)
  finally have m: "((a + 4) mod 7 + 6) mod 7 = (a + 3) mod 7" .
  have "(a + (i - (a + 3) mod 7) + 4) mod 7 = ((a + 3) + (1 + i) - (a + 3) mod 7) mod 7"
    by (simp add: algebra_simps)
  also have "\<dots> = ((a + 3) mod 7 + (1 + i) - (a + 3) mod 7) mod 7"
    by (metis mod_add_left_eq mod_diff_left_eq)
  also have "\<dots> = (1 + i) mod 7" by simp
  finally show ?thesis unfolding m .
qed

lemma gridCell_WeekDay:
  "WeekDay (LocalTime tza (gridCell tza u i)) = (1 + int i) mod 7"
  unfolding WeekDay_def gridCell_Day mondayOffset_def
  by (rule weekday_arith)

lemma getDateArray_nth:
  assumes "date < length h" "h ! date = Some u" "getDateArray tza h date = (h', dates)" "i < 42"
  shows "h' ! (dates ! i) = Some (gridCell tza u i)"
proof -
  have "(h', dates) = (h @ Some (firstOfMonth tza u) # map (\<lambda>i. Some (gridCell tza u i)) [0..<42],
     map (\<lambda>i. length h + 1 + i) [0..<42])"
    using assms(3) by (simp only: getDateArray_Some [OF assms(1,2)])
  then have h': "h' = h @ Some (firstOfMonth tza u) # map (\<lambda>i. Some (gridCell tza u i)) [0..<42]"
    and d: "dates = map (\<lambda>i. length h + 1 + i) [0..<42]"
    by (simp_all only: prod.inject)
  have "dates ! i = length h + 1 + i"
    using assms(4) unfolding d by (simp del: upt_Suc)
  then show ?thesis
    using assms(4) unfolding h' by (simp add: nth_append del: upt_Suc)
qed

lemma getDateArray_length:
  assumes "date < length h" "h ! date = Some u" "getDateArray tza h date = (h', dates)"
  shows "length dates = 42"
  using assms(3) unfolding getDateArray_Some [OF assms(1,2)] by (auto simp del: upt_Suc)

lemma getDateArray_frame:
  assumes "date < length h" "getDateArray tza h date = (h', dates)"
  shows "take (length h) h' = h"
proof (cases "h ! date")
  case None
  then show ?thesis using assms getDateArray_None [of date h tza] by auto
next
  case (Some u)
  then show ?thesis using assms getDateArray_Some [of date h u tza] by auto
qed

lemma august_2025:
  assumes "YearFromTime (LocalTime tza u) = 2025" "MonthFromTime (LocalTime tza u) = 7"
  shows "toShort tza (Some (gridCell tza u 0)) = ''2025-07-28''"
    "toShort tza (Some (gridCell tza u 41)) = ''2025-09-07''"
    "toShort tza (Some (gridCell tza u 4)) = ''2025-08-01''"
proof -
  have f: "Day (LocalTime tza (firstOfMonth tza u)) = 20301"
    unfolding firstOfMonth_Day assms by (simp add: DayFromYear_def DaysInYear_def MonthStart_def)
  have m: "mondayOffset tza u = 4"
    by (simp add: mondayOffset_def WeekDay_def f)
  have d: "Day (LocalTime tza (gridCell tza u i)) = Day (LocalTime 0 ((20297 + int i) * msPerDay))" for i
    unfolding gridCell_Day f m by (simp add: LocalTime_def Day_def msPerDay_def)
  have "toShort 0 (Some ((20297 + int 0) * msPerDay)) = ''2025-07-28''" by code_simp
  then show "toShort tza (Some (gridCell tza u 0)) = ''2025-07-28''"
    using toShort_cong [OF d [of 0]] by simp
  have "toShort 0 (Some ((20297 + int 41) * msPerDay)) = ''2025-09-07''" by code_simp
  then show "toShort tza (Some (gridCell tza u 41)) = ''2025-09-07''"
    using toShort_cong [OF d [of 41]] by simp
  have "toShort 0 (Some ((20297 + int 4) * msPerDay)) = ''2025-08-01''" by code_simp
  then show "toShort tza (Some (gridCell tza u 4)) = ''2025-08-01''"
    using toShort_cong [OF d [of 4]] by simp
qed

text \<open>
  C1.  For every valid anchor date, \<open>getDateArray\<close> returns 42 Date objects, each one
  calendar day after the one before it (at the same time of day), the first a Monday
  (\<open>getDay\<close> is 1) and the last a Sunday (\<open>getDay\<close> is 0).  For an anchor in August 2025 the
  grid runs from 2025-07-28 at index 0 to 2025-09-07 at index 41, with August 1 at index 4.
\<close>

theorem getDateArray_month_grid:
  assumes "date < length h" and "h ! date = Some u"
    and "getDateArray tza h date = (h', dates)"
  shows "length dates = 42 \<and>
    (\<forall>i<41. \<exists>a b. h' ! (dates ! i) = Some a \<and> h' ! (dates ! Suc i) = Some b \<and>
       Day (LocalTime tza b) = Day (LocalTime tza a) + 1 \<and>
       TimeWithinDay (LocalTime tza b) = TimeWithinDay (LocalTime tza a)) \<and>
    getDay tza (h' ! (dates ! 0)) = Some 1 \<and>
    getDay tza (h' ! (dates ! 41)) = Some 0 \<and>
    (getFullYear tza (Some u) = Some 2025 \<and> getMonth tza (Some u) = Some 7 \<longrightarrow>
       toShort tza (h' ! (dates ! 0)) = ''2025-07-28'' \<and>
       toShort tza (h' ! (dates ! 41)) = ''2025-09-07'' \<and>
       toShort tza (h' ! (dates ! 4)) = ''2025-08-01'')"
proof -
  note nth = getDateArray_nth [OF assms]
  have len: "length dates = 42" by (rule getDateArray_length [OF assms])
  have step: "\<exists>a b. h' ! (dates ! i) = Some a \<and> h' ! (dates ! Suc i) = Some b \<and>
       Day (LocalTime tza b) = Day (LocalTime tza a) + 1 \<and>
       TimeWithinDay (LocalTime tza b) = TimeWithinDay (LocalTime tza a)" if "i < 41" for i
    using that nth [of i] nth [of "Suc i"]
    by (simp add: gridCell_Day gridCell_TimeWithinDay)
  have mon: "getDay tza (h' ! (dates ! 0)) = Some 1"
    using nth [of 0] by (simp add: getDay_def gridCell_WeekDay)
  have sun: "getDay tza (h' ! (dates ! 41)) = Some 0"
    using nth [of 41] by (simp add: getDay_def gridCell_WeekDay)
  have aug: "toShort tza (h' ! (dates ! 0)) = ''2025-07-28'' \<and>
       toShort tza (h' ! (dates ! 41)) = ''2025-09-07'' \<and>
       toShort tza (h' ! (dates ! 4)) = ''2025-08-01''"
    if "getFullYear tza (Some u) = Some 2025" "getMonth tza (Some u) = Some 7"
    using that nth [of 0] nth [of 41] nth [of 4] august_2025 [of tza u]
    by (simp add: getFullYear_def getMonth_def)
  show ?thesis using len step mon sun aug by blast
qed

theorem getDateArray_month_grid_witness:
  "(0::nat) < length [Some (1754006400000::int)] \<and>
   [Some (1754006400000::int)] ! 0 = Some 1754006400000 \<and>
   getFullYear 0 (Some 1754006400000) = Some 2025 \<and>
   getMonth 0 (Some 1754006400000) = Some 7 \<and>
   length (snd (getDateArray 0 [Some 1754006400000] 0)) = 42 \<and>
   getDay 0 (fst (getDateArray 0 [Some 1754006400000] 0)
               ! (snd (getDateArray 0 [Some 1754006400000] 0) ! 0)) = Some 1 \<and>
   toShort 0 (fst (getDateArray 0 [Some 1754006400000] 0)
               ! (snd (getDateArray 0 [Some 1754006400000] 0) ! 4)) = ''2025-08-01''"
proof -
  have y: "getFullYear 0 (Some 1754006400000) = Some 2025" by code_simp
  have m: "getMonth 0 (Some 1754006400000) = Some 7" by code_simp
  show ?thesis
    using y m getDateArray_month_grid [of 0 "[Some 1754006400000]" 1754006400000 0
        "fst (getDateArray 0 [Some 1754006400000] 0)" "snd (getDateArray 0 [Some 1754006400000] 0)"]
    by simp
qed

subsection \<open>The anchor's day of the month\<close>

lemma gridCell_Day_cong:
  assumes "YearFromTime (LocalTime tza u1) = YearFromTime (LocalTime tza u2)"
    and "MonthFromTime (LocalTime tza u1) = MonthFromTime (LocalTime tza u2)"
  shows "Day (LocalTime tza (gridCell tza u1 i)) = Day (LocalTime tza (gridCell tza u2 i))"
proof -
  have f: "Day (LocalTime tza (firstOfMonth tza u1)) = Day (LocalTime tza (firstOfMonth tza u2))"
    by (simp add: firstOfMonth_Day assms)
  then have "mondayOffset tza u1 = mondayOffset tza u2"
    by (simp add: mondayOffset_def WeekDay_def)
  with f show ?thesis by (simp add: gridCell_Day)
qed

text \<open>
  C7.  Two valid anchors with the same local year and month give grids with the same
  calendar dates at every index, whatever their day of the month and time of day; and
  \<open>getDateArray\<close> changes no Date object that existed before the call (its argument among
  them): the store after the call starts with the store before it.
\<close>

theorem getDateArray_anchor_day_irrelevant:
  assumes "d1 < length h1" and "h1 ! d1 = Some u1"
    and "d2 < length h2" and "h2 ! d2 = Some u2"
    and "getFullYear tza (Some u1) = getFullYear tza (Some u2)"
    and "getMonth tza (Some u1) = getMonth tza (Some u2)"
    and "getDateArray tza h1 d1 = (h1', ds1)"
    and "getDateArray tza h2 d2 = (h2', ds2)"
  shows "length ds1 = 42 \<and> length ds2 = 42 \<and>
    (\<forall>i<42. getFullYear tza (h1' ! (ds1 ! i)) \<noteq> None \<and>
       getFullYear tza (h1' ! (ds1 ! i)) = getFullYear tza (h2' ! (ds2 ! i)) \<and>
       getMonth tza (h1' ! (ds1 ! i)) = getMonth tza (h2' ! (ds2 ! i)) \<and>
       getDate tza (h1' ! (ds1 ! i)) = getDate tza (h2' ! (ds2 ! i))) \<and>
    take (length h1) h1' = h1 \<and> take (length h2) h2' = h2"
proof -
  have ym: "YearFromTime (LocalTime tza u1) = YearFromTime (LocalTime tza u2)"
    "MonthFromTime (LocalTime tza u1) = MonthFromTime (LocalTime tza u2)"
    using assms(5,6) by (simp_all add: getFullYear_def getMonth_def)
  have cells: "getFullYear tza (h1' ! (ds1 ! i)) \<noteq> None \<and>
       getFullYear tza (h1' ! (ds1 ! i)) = getFullYear tza (h2' ! (ds2 ! i)) \<and>
       getMonth tza (h1' ! (ds1 ! i)) = getMonth tza (h2' ! (ds2 ! i)) \<and>
       getDate tza (h1' ! (ds1 ! i)) = getDate tza (h2' ! (ds2 ! i))" if "i < 42" for i
    using getDateArray_nth [OF assms(1,2,7) that] getDateArray_nth [OF assms(3,4,8) that]
      fields_cong [OF gridCell_Day_cong [OF ym, of i]]
    by (simp add: getFullYear_def getMonth_def getDate_def)
  show ?thesis
    using cells getDateArray_length [OF assms(1,2,7)] getDateArray_length [OF assms(3,4,8)]
      getDateArray_frame [OF assms(1,7)] getDateArray_frame [OF assms(3,8)]
    by blast
qed

theorem getDateArray_anchor_day_irrelevant_witness:
  "getFullYear 0 (Some 1754006400000) = getFullYear 0 (Some 1755302400123) \<and>
   getMonth 0 (Some 1754006400000) = getMonth 0 (Some 1755302400123) \<and>
   getDate 0 (fst (getDateArray 0 [Some 1754006400000] 0)
                ! (snd (getDateArray 0 [Some 1754006400000] 0) ! 10))
     = getDate 0 (fst (getDateArray 0 [None, Some 1755302400123] 1)
                ! (snd (getDateArray 0 [None, Some 1755302400123] 1) ! 10)) \<and>
   take 2 (fst (getDateArray 0 [None, Some 1755302400123] 1)) = [None, Some 1755302400123]"
proof -
  have y: "getFullYear 0 (Some 1754006400000) = getFullYear 0 (Some 1755302400123)" by code_simp
  have m: "getMonth 0 (Some 1754006400000) = getMonth 0 (Some 1755302400123)" by code_simp
  show ?thesis
    using y m getDateArray_anchor_day_irrelevant [of 0 "[Some 1754006400000]" 1754006400000
        1 "[None, Some 1755302400123]" 1755302400123 0
        "fst (getDateArray 0 [Some 1754006400000] 0)" "snd (getDateArray 0 [Some 1754006400000] 0)"
        "fst (getDateArray 0 [None, Some 1755302400123] 1)"
        "snd (getDateArray 0 [None, Some 1755302400123] 1)"]
    by (simp add: numeral_2_eq_2)
qed

subsection \<open>Rendering\<close>

lemma state_classes_updateDay:
  "state_classes (updateDay tza now w date c el) =
     (if \<not> num_eq (getMonth tza c) (getMonth tza date) then [''dimmed'']
      else if isToday tza now c then [''today'']
      else if isSameDate tza c (objs w ! dateChosen w) then [''marked'']
      else if shouldStar tza w c then [''starred'']
      else [])"
proof -
  have r: "filter (\<lambda>c. c \<in> set [''dimmed'', ''today'', ''marked'', ''starred''])
      (classList (resetDayClasses el)) = []"
    by (auto simp: resetDayClasses_def classList_remove_def filter_empty_conv)
  have n: "tok \<in> set [''dimmed'', ''today'', ''marked'', ''starred''] \<Longrightarrow>
      tok \<notin> set (classList (resetDayClasses el))" for tok
    by (auto simp: resetDayClasses_def classList_remove_def)
  have a: "tok \<in> set [''dimmed'', ''today'', ''marked'', ''starred''] \<Longrightarrow>
      filter (\<lambda>c. c \<in> set [''dimmed'', ''today'', ''marked'', ''starred''])
        (classList_add (classList (resetDayClasses el)) tok) = [tok]" for tok
    using n [of tok] r by (simp add: classList_add_def)
  show ?thesis
    using r a [of "''dimmed''"] a [of "''today''"] a [of "''marked''"] a [of "''starred''"]
    by (simp add: state_classes_def updateDay_def Let_def)
qed

lemma updateDay_text:
  "textContent (updateDay tza now w date c el) = num_str (getDate tza c)"
  "dataset_date (updateDay tza now w date c el) = Some (toShort tza c)"
  by (simp_all add: updateDay_def Let_def)

lemma updateDay_cong:
  "objs w ! dateChosen w = objs w' ! dateChosen w' \<Longrightarrow> starredDates w = starredDates w' \<Longrightarrow>
   updateDay tza now w date c el = updateDay tza now w' date c el"
  by (simp add: updateDay_def shouldStar_def Let_def)

lemma updateDays_eq:
  assumes "index + length ds \<le> length els"
  shows "updateDays tza now w date index ds els =
    Inr (map (\<lambda>j. if index \<le> j \<and> j < index + length ds
                  then updateDay tza now w date (objs w ! (ds ! (j - index))) (els ! j)
                  else els ! j) [0..<length els])"
  using assms
proof (induction ds arbitrary: index els)
  case Nil
  have "(\<lambda>j. if index \<le> j \<and> j < index + length ([]::nat list)
                  then updateDay tza now w date (objs w ! ([] ! (j - index))) (els ! j)
                  else els ! j) = (\<lambda>j. els ! j)"
    by (intro ext) auto
  then show ?case by (simp only: updateDays.simps map_nth)
next
  case (Cons d rest)
  let ?els = "els[index := updateDay tza now w date (objs w ! d) (els ! index)]"
  have lt: "index < length els" using Cons.prems by simp
  have ih: "updateDays tza now w date (Suc index) rest ?els =
    Inr (map (\<lambda>j. if Suc index \<le> j \<and> j < Suc index + length rest
                  then updateDay tza now w date (objs w ! (rest ! (j - Suc index))) (?els ! j)
                  else ?els ! j) [0..<length ?els])"
    using Cons.prems by (intro Cons.IH) simp
  have "map (\<lambda>j. if Suc index \<le> j \<and> j < Suc index + length rest
                  then updateDay tza now w date (objs w ! (rest ! (j - Suc index))) (?els ! j)
                  else ?els ! j) [0..<length ?els]
      = map (\<lambda>j. if index \<le> j \<and> j < index + length (d # rest)
                  then updateDay tza now w date (objs w ! ((d # rest) ! (j - index))) (els ! j)
                  else els ! j) [0..<length els]"
    using lt by (auto simp: nth_list_update nth_Cons' Suc_diff_Suc)
  then show ?case using lt ih by simp
qed

lemma updateCalendar_Some:
  assumes "date < length (objs w)" "objs w ! date = Some u"
    and "dateChosen w < length (objs w)" "length (dayGrid w) = 42"
  shows "updateCalendar tza now w date =
    Inr (w\<lparr>objs := objs w @ Some (firstOfMonth tza u) # map (\<lambda>i. Some (gridCell tza u i)) [0..<42],
           navigatorText := toMonthName tza (Some u) @ '' '' @ num_str (toYear tza (Some u)),
           dayGrid := map (\<lambda>i. updateDay tza now w (Some u) (Some (gridCell tza u i)) (dayGrid w ! i))
                        [0..<42]\<rparr>)"
proof -
  let ?h = "objs w @ Some (firstOfMonth tza u) # map (\<lambda>i. Some (gridCell tza u i)) [0..<42]"
  let ?ds = "map (\<lambda>i. length (objs w) + 1 + i) [0..<42]"
  let ?w2 = "w\<lparr>objs := ?h, navigatorText := toMonthName tza (Some u) @ '' '' @ num_str (toYear tza (Some u))\<rparr>"
  have g: "getDateArray tza (objs w) date = (?h, ?ds)"
    by (rule getDateArray_Some [OF assms(1,2)])
  have hd: "?h ! date = Some u" using assms(1,2) by (simp add: nth_append)
  have hc: "?h ! dateChosen w = objs w ! dateChosen w" using assms(3) by (simp add: nth_append)
  have cell: "?h ! (?ds ! j) = Some (gridCell tza u j)" if "j < 42" for j
    using that by (simp add: nth_append del: upt_Suc)
  have cong: "updateDay tza now ?w2 (Some u) c el = updateDay tza now w (Some u) c el" for c el
    by (rule updateDay_cong) (simp_all add: hc)
  have len: "0 + length ?ds \<le> length (dayGrid ?w2)" by (simp add: assms(4))
  have one: "(if 0 \<le> j \<and> j < 0 + length ?ds
                  then updateDay tza now ?w2 (Some u) (objs ?w2 ! (?ds ! (j - 0))) (dayGrid ?w2 ! j)
                  else dayGrid ?w2 ! j)
      = updateDay tza now w (Some u) (Some (gridCell tza u j)) (dayGrid w ! j)"
    if "j \<in> set [0..<42]" for j
  proof -
    from that have j: "j < 42" by simp
    have "objs ?w2 ! (?ds ! (j - 0)) = Some (gridCell tza u j)"
      using cell [OF j] by simp
    moreover have "dayGrid ?w2 ! j = dayGrid w ! j" by simp
    moreover have "0 \<le> j \<and> j < 0 + length ?ds" using j by simp
    ultimately show ?thesis by (simp only: cong simp_thms if_True)
  qed
  have l42: "[0..<length (dayGrid ?w2)] = [0..<42]" by (simp add: assms(4))
  have days: "updateDays tza now ?w2 (Some u) 0 ?ds (dayGrid ?w2) =
     Inr (map (\<lambda>i. updateDay tza now w (Some u) (Some (gridCell tza u i)) (dayGrid w ! i)) [0..<42])"
    unfolding updateDays_eq [OF len] l42
    by (simp only: sum.inject) (rule map_cong [OF refl one])
  show ?thesis
    unfolding updateCalendar_def g
    by (simp only: prod.case Let_def hd days sum.case)
qed

lemma updateCalendar_None:
  assumes "date < length (objs w)" "objs w ! date = None"
  shows "updateCalendar tza now w date =
    Inr (w\<lparr>objs := objs w @ [None], navigatorText := ''Invalid Date NaN''\<rparr>)"
proof -
  have g: "getDateArray tza (objs w) date = (objs w @ [None], [])"
    by (rule getDateArray_None [OF assms])
  have hd: "(objs w @ [None]) ! date = None" using assms by (simp add: nth_append)
  show ?thesis
    unfolding updateCalendar_def g
    by (simp add: Let_def hd toMonthName_def toLocaleString_month_long_def toYear_def
        getFullYear_def num_str_def)
qed

subsection \<open>Classification of the day cells\<close>

lemma MonthStart_leap:
  assumes "l = 0 \<or> l = 1" "l' = 0 \<or> l' = 1"
  shows "MonthStart l mn \<le> MonthStart l' mn + 1"
  using assms by (auto simp: MonthStart_def)

lemma DaysInMonth_le: "DaysInMonth y mn \<le> 31"
  by (simp add: DaysInMonth_def)

text \<open>
  A time value at most six days before the first day of the month of \<open>t\<close>, or at most 41
  days after it, that has the month number of \<open>t\<close> also has the year of \<open>t\<close>.
\<close>

lemma near_same_month:
  assumes m: "MonthFromTime s = MonthFromTime t"
    and lo: "Day t - DateFromTime t + 1 - 6 \<le> Day s"
    and hi: "Day s \<le> Day t - DateFromTime t + 1 + 41"
  shows "YearFromTime s = YearFromTime t"
proof (rule ccontr)
  assume ne: "YearFromTime s \<noteq> YearFromTime t"
  let ?ys = "YearFromTime s" and ?yt = "YearFromTime t"
  let ?ls = "if DaysInYear ?ys = 366 then 1 else (0::int)"
  let ?lt = "if DaysInYear ?yt = 366 then 1 else (0::int)"
  have ds: "Day s = DayFromYear ?ys + MonthStart ?ls (MonthFromTime t) + DateFromTime s - 1"
    using Day_decompose [of s] m by simp
  have dt: "Day t = DayFromYear ?yt + MonthStart ?lt (MonthFromTime t) + DateFromTime t - 1"
    by (rule Day_decompose)
  have r: "1 \<le> DateFromTime s" "DateFromTime s \<le> 31"
    using DateFromTime_range [of s] DaysInMonth_le [of ?ys "MonthFromTime s"] by linarith+
  have l1: "MonthStart ?ls (MonthFromTime t) \<le> MonthStart ?lt (MonthFromTime t) + 1"
    by (rule MonthStart_leap) simp_all
  have l2: "MonthStart ?lt (MonthFromTime t) \<le> MonthStart ?ls (MonthFromTime t) + 1"
    by (rule MonthStart_leap) simp_all
  from ne consider "?ys < ?yt" | "?yt < ?ys" by linarith
  then show False
  proof cases
    case 1
    then have "DayFromYear (?ys + 1) \<le> DayFromYear ?yt" by (intro DayFromYear_mono) simp
    then have "DayFromYear ?ys + 365 \<le> DayFromYear ?yt"
      using DayFromYear_Suc [of ?ys] DaysInYear_bounds(1) [of ?ys] by linarith
    with lo ds dt r l1 show False by linarith
  next
    case 2
    then have "DayFromYear (?yt + 1) \<le> DayFromYear ?ys" by (intro DayFromYear_mono) simp
    then have "DayFromYear ?yt + 365 \<le> DayFromYear ?ys"
      using DayFromYear_Suc [of ?yt] DaysInYear_bounds(1) [of ?yt] by linarith
    with hi ds dt r l2 show False by linarith
  qed
qed

lemma mondayOffset_range: "0 \<le> mondayOffset tza u" "mondayOffset tza u < 7"
  by (simp_all add: mondayOffset_def)

lemma gridCell_year:
  assumes "i < 42"
    and "MonthFromTime (LocalTime tza (gridCell tza u i)) = MonthFromTime (LocalTime tza u)"
  shows "YearFromTime (LocalTime tza (gridCell tza u i)) = YearFromTime (LocalTime tza u)"
proof -
  let ?f = "LocalTime tza (firstOfMonth tza u)"
  have f: "Day ?f = Day (LocalTime tza u) - DateFromTime (LocalTime tza u) + 1"
  proof -
    have "?f = LocalTime tza u + (1 - DateFromTime (LocalTime tza u)) * msPerDay"
      by (simp add: firstOfMonth_def LocalTime_def)
    then have "Day ?f = Day (LocalTime tza u) + (1 - DateFromTime (LocalTime tza u))"
      by (simp only: Day_shift)
    then show ?thesis by simp
  qed
  have d: "Day (LocalTime tza (gridCell tza u i)) = Day ?f + (int i - mondayOffset tza u)"
    by (rule gridCell_Day)
  show ?thesis
    using assms(1) mondayOffset_range [of tza u] d f
    by (intro near_same_month [OF assms(2)]) linarith+
qed

text \<open>
  For a cell of the grid, comparing month numbers (as \<open>updateCalendar\<close> does) is comparing
  year and month.
\<close>

lemma gridCell_dimmed_iff:
  assumes "i < 42"
  shows "(\<not> num_eq (getMonth tza (Some (gridCell tza u i))) (getMonth tza (Some u))) =
     (getFullYear tza (Some (gridCell tza u i)) \<noteq> getFullYear tza (Some u) \<or>
      getMonth tza (Some (gridCell tza u i)) \<noteq> getMonth tza (Some u))"
  using gridCell_year [OF assms, of tza u]
  by (auto simp: num_eq_def getMonth_def getFullYear_def)

text \<open>
  C2.  A render of a valid date \<open>date\<close> gives each of the 42 day cells exactly the
  classification of the first matching rule: dimmed iff the cell's year and month differ from
  those of \<open>date\<close>; else today iff the cell is the current date; else marked iff it is the
  chosen date; else starred iff its \<^verbatim>\<open>YYYY-MM-DD\<close> key is among the starred dates; else none.
  The state classes that the cell carried before the render (any class list at all) do not
  matter.
\<close>

theorem updateCalendar_classification:
  assumes "wf_widget w" and "date < length (objs w)" and "objs w ! date = Some u"
    and "getDateArray tza (objs w) date = (h, ds)" and "i < 42"
  shows "\<exists>w'. updateCalendar tza now w date = Inr w' \<and> length (dayGrid w') = 42 \<and>
     state_classes (dayGrid w' ! i) =
       (let c = h ! (ds ! i) in
        if getFullYear tza c \<noteq> getFullYear tza (Some u) \<or> getMonth tza c \<noteq> getMonth tza (Some u)
          then [''dimmed'']
        else if isSameDate tza c (Some now) then [''today'']
        else if isSameDate tza c (objs w ! dateChosen w) then [''marked'']
        else if toShort tza c \<in> set (starredDates w) then [''starred'']
        else [])"
proof -
  have wf: "dateChosen w < length (objs w)" "length (dayGrid w) = 42"
    using assms(1) by (simp_all add: wf_widget_def)
  have c: "h ! (ds ! i) = Some (gridCell tza u i)"
    by (rule getDateArray_nth [OF assms(2,3,4,5)])
  show ?thesis
    unfolding updateCalendar_Some [OF assms(2,3) wf] c
    using assms(5) gridCell_dimmed_iff [OF assms(5), of tza u]
    by (simp add: state_classes_updateDay isToday_def shouldStar_def Let_def del: upt_Suc)
qed

text \<open>
  The fields of a concrete Date, from a year, a month and a day of the month that give its
  day number.
\<close>

lemma fields_at:
  assumes "Day (LocalTime tza u) =
      DayFromYear y + MonthStart (if DaysInYear y = 366 then 1 else 0) mn + k"
    and "0 \<le> mn" "mn < 12" "0 \<le> k" "k < DaysInMonth y mn"
  shows "getFullYear tza (Some u) = Some y" "getMonth tza (Some u) = Some mn"
    "getDate tza (Some u) = Some (k + 1)"
  using year_month_date_of_day [OF assms(2,3,4,5,1)]
  by (simp_all add: getFullYear_def getMonth_def getDate_def)

lemmas eval_defs = Day_def LocalTime_def msPerDay_def DayFromYear_def MonthStart_def
  DaysInYear_def DaysInMonth_def

lemma toShort_fields:
  assumes "getFullYear tza (Some u) = Some y" "getMonth tza (Some u) = Some mn"
    "getDate tza (Some u) = Some dt"
  shows "toShort tza (Some u) =
    digits (nat (if y \<le> 0 then 1 - y else y)) @ ''-'' @ pad2 (mn + 1) @ ''-'' @ pad2 dt"
  using assms
  by (simp add: toShort_def toLocaleDateString_en_CA_def Let_def getFullYear_def getMonth_def
      getDate_def)

lemma isSameDate_fields:
  assumes "getFullYear tza a = Some y" "getMonth tza a = Some m" "getDate tza a = Some d"
    and "getFullYear tza b = Some y'" "getMonth tza b = Some m'" "getDate tza b = Some d'"
  shows "isSameDate tza a b = (y = y' \<and> m = m' \<and> d = d')"
  using assms by (simp add: isSameDate_def num_eq_def)

theorem updateCalendar_classification_witness:
  "wf_widget sample_widget \<and> (0::nat) < length (objs sample_widget) \<and>
   objs sample_widget ! 0 = Some 1754006400000 \<and> (6::nat) < 42 \<and>
   (\<exists>w'. updateCalendar 0 1754006400000 sample_widget 0 = Inr w' \<and> length (dayGrid w') = 42 \<and>
      state_classes (dayGrid w' ! 6) = [''marked''])"
proof -
  let ?g = "getDateArray 0 (objs sample_widget) 0"
  have wf: "wf_widget sample_widget" by (simp add: wf_widget_def sample_widget_def)
  have l: "(0::nat) < length (objs sample_widget)" by (simp add: sample_widget_def)
  have d: "objs sample_widget ! 0 = Some 1754006400000" by (simp add: sample_widget_def)
  have g: "?g = (fst ?g, snd ?g)" by simp
  have g6: "fst ?g ! (snd ?g ! 6) = Some 1754179200000" by code_simp
  have ch: "objs sample_widget ! dateChosen sample_widget = Some 1754179200000"
    by (simp add: sample_widget_def)
  note a1 = fields_at [of 0 1754006400000 2025 7 0]
  note a3 = fields_at [of 0 1754179200000 2025 7 2]
  have f1: "getFullYear 0 (Some 1754006400000) = Some 2025"
    "getMonth 0 (Some 1754006400000) = Some 7" "getDate 0 (Some 1754006400000) = Some 1"
    using a1 by (simp_all add: eval_defs)
  have f3: "getFullYear 0 (Some 1754179200000) = Some 2025"
    "getMonth 0 (Some 1754179200000) = Some 7" "getDate 0 (Some 1754179200000) = Some 3"
    using a3 by (simp_all add: eval_defs)
  have t: "\<not> isSameDate 0 (Some 1754179200000) (Some 1754006400000)"
    by (simp add: isSameDate_fields [OF f3 f1])
  have s: "isSameDate 0 (Some 1754179200000) (Some 1754179200000)"
    by (simp add: isSameDate_fields [OF f3 f3])
  have "\<exists>w'. updateCalendar 0 1754006400000 sample_widget 0 = Inr w' \<and> length (dayGrid w') = 42 \<and>
      state_classes (dayGrid w' ! 6) = [''marked'']"
    using updateCalendar_classification [OF wf l d g, of 6 1754006400000]
    unfolding g6 ch Let_def by (simp add: f1 f3 t s)
  then show ?thesis using wf l d by simp
qed

text \<open>
  C9.  Without a registered callback a click on a day cell changes nothing: the widget state
  after the click is the state before it (the chosen date, the stored month anchor, the
  rendered grid, and the count of scheduled re-renders among it).
\<close>

theorem click_day_without_callback:
  assumes "onDayClick w = None"
  shows "click tza now w (DayCell i) = Inr w"
  using assms by (simp add: click_def)

theorem click_day_without_callback_witness:
  "onDayClick sample_widget = None \<and>
   click 0 1754006400000 sample_widget (DayCell 6) = Inr sample_widget"
proof -
  have n: "onDayClick sample_widget = None" by (simp add: sample_widget_def)
  show ?thesis
    using n click_day_without_callback [OF n, of 0 1754006400000 6] by simp
qed

subsection \<open>Clicks, the delayed re-render and navigation\<close>

lemma click_DayCell_Some:
  assumes "i < length (dayGrid w)" "onDayClick w = Some cb"
  shows "click tza now w (DayCell i) =
    Inr (w\<lparr>objs := objs w @ [Date_parse (dataset_date (dayGrid w ! i))],
           dateChosen := length (objs w),
           notified := notified w @ [(Date_parse (dataset_date (dayGrid w ! i)), i)],
           timers := timers w + 1\<rparr>)"
  using assms by (simp add: click_def Date_new_def Let_def)

text \<open>What a render changes and what it leaves alone.\<close>

lemma updateCalendar_view:
  assumes "date < length (objs w)" "dateChosen w < length (objs w)" "length (dayGrid w) = 42"
  shows "\<exists>w' ext. updateCalendar tza now w date = Inr w' \<and> objs w' = objs w @ ext \<and>
      navigatorText w' = toMonthName tza (objs w ! date) @ '' '' @ num_str (toYear tza (objs w ! date)) \<and>
      dateToday w' = dateToday w \<and> dateChosen w' = dateChosen w \<and>
      dateDisplayed w' = dateDisplayed w \<and> starredDates w' = starredDates w \<and>
      onDayClick w' = onDayClick w \<and> notified w' = notified w \<and> timers w' = timers w \<and>
      length (dayGrid w') = 42 \<and>
      (\<forall>u. objs w ! date = Some u \<longrightarrow>
         map dataset_date (dayGrid w') = map (\<lambda>i. Some (toShort tza (Some (gridCell tza u i)))) [0..<42] \<and>
         map textContent (dayGrid w') = map (\<lambda>i. num_str (getDate tza (Some (gridCell tza u i)))) [0..<42])"
proof (cases "objs w ! date")
  case None
  show ?thesis
    unfolding updateCalendar_None [OF assms(1) None]
    by (simp add: None assms(3) toMonthName_def toLocaleString_month_long_def toYear_def
        getFullYear_def num_str_def)
next
  case (Some u)
  show ?thesis
    unfolding updateCalendar_Some [OF assms(1) Some assms(2,3)]
    by (simp add: Some updateDay_text comp_def del: upt_Suc)
qed

lemma navigateMonth_view:
  assumes "wf_widget w" "objs w ! dateDisplayed w = Some d"
    and "setMonth tza (Some d) (Some (MonthFromTime (LocalTime tza d) + change)) = Some d'"
  shows "\<exists>w'. navigateMonth tza now w change = Inr w' \<and> dateDisplayed w' = dateDisplayed w \<and>
      objs w' ! dateDisplayed w' = Some d' \<and> length (dayGrid w') = 42 \<and>
      navigatorText w' = toMonthName tza (Some d') @ '' '' @ num_str (toYear tza (Some d')) \<and>
      map dataset_date (dayGrid w') = map (\<lambda>i. Some (toShort tza (Some (gridCell tza d' i)))) [0..<42] \<and>
      map textContent (dayGrid w') = map (\<lambda>i. num_str (getDate tza (Some (gridCell tza d' i)))) [0..<42]"
proof -
  let ?w = "w\<lparr>objs := (objs w)[dateDisplayed w := Some d']\<rparr>"
  have wf: "dateDisplayed w < length (objs w)" "dateChosen w < length (objs w)"
    "length (dayGrid w) = 42"
    using assms(1) by (simp_all add: wf_widget_def)
  have n: "navigateMonth tza now w change = updateCalendar tza now ?w (dateDisplayed w)"
    using assms(2,3) by (simp add: navigateMonth_def getMonth_def Let_def)
  have d: "objs ?w ! dateDisplayed w = Some d'" using wf(1) by simp
  from updateCalendar_view [of "dateDisplayed w" ?w tza now]
  obtain w' ext where w': "updateCalendar tza now ?w (dateDisplayed w) = Inr w'"
    "objs w' = objs ?w @ ext" "dateDisplayed w' = dateDisplayed ?w" "length (dayGrid w') = 42"
    "navigatorText w' = toMonthName tza (objs ?w ! dateDisplayed w) @ '' ''
        @ num_str (toYear tza (objs ?w ! dateDisplayed w))"
    "\<forall>u. objs ?w ! dateDisplayed w = Some u \<longrightarrow>
         map dataset_date (dayGrid w') = map (\<lambda>i. Some (toShort tza (Some (gridCell tza u i)))) [0..<42] \<and>
         map textContent (dayGrid w') = map (\<lambda>i. num_str (getDate tza (Some (gridCell tza u i)))) [0..<42]"
    using wf by auto
  have "objs w' ! dateDisplayed w' = Some d'"
    using w'(2,3) wf(1) by (simp add: nth_append)
  then show ?thesis
    using n w'(1,3,4,5,6) d by simp
qed

lemma setMonth_Some_ex: "\<exists>d'. setMonth tza (Some d) (Some m) = Some d'"
  by (simp add: setMonth_def Let_def)

text \<open>
  C10.  A click on a day cell with a callback registered, followed by the scheduled
  re-render: the re-render is \<open>updateCalendar\<close> of the chosen date (the header shows the
  chosen date's month), while the Date object \<open>dateDisplayed\<close> keeps its time value.  A
  \<open>navigateMonth\<close> after it therefore sets the same month, shows the same header and the same
  cell dates as the same \<open>navigateMonth\<close> on the widget before the click.
\<close>

theorem delayed_render_keeps_dateDisplayed:
  assumes "wf_widget w" and "onDayClick w = Some cb" and "i < 42"
    and "objs w ! dateDisplayed w = Some d"
  shows "\<exists>w1 w2 w3 w4.
     click tza now w (DayCell i) = Inr w1 \<and> timeout tza now1 w1 = Inr w2 \<and>
     timeout tza now1 w1 = updateCalendar tza now1 (w1\<lparr>timers := timers w\<rparr>) (dateChosen w1) \<and>
     navigatorText w2 = toMonthName tza (objs w1 ! dateChosen w1) @ '' ''
        @ num_str (toYear tza (objs w1 ! dateChosen w1)) \<and>
     dateDisplayed w2 = dateDisplayed w \<and> objs w2 ! dateDisplayed w2 = Some d \<and>
     navigateMonth tza now2 w2 change = Inr w3 \<and> navigateMonth tza now2 w change = Inr w4 \<and>
     objs w3 ! dateDisplayed w3 =
       setMonth tza (Some d) (Some (MonthFromTime (LocalTime tza d) + change)) \<and>
     objs w4 ! dateDisplayed w4 = objs w3 ! dateDisplayed w3 \<and>
     navigatorText w3 = navigatorText w4 \<and>
     map dataset_date (dayGrid w3) = map dataset_date (dayGrid w4) \<and>
     map textContent (dayGrid w3) = map textContent (dayGrid w4)"
proof -
  have wf: "dateToday w < length (objs w)" "dateDisplayed w < length (objs w)"
    "dateChosen w < length (objs w)" "length (dayGrid w) = 42"
    using assms(1) by (simp_all add: wf_widget_def)
  let ?p = "Date_parse (dataset_date (dayGrid w ! i))"
  let ?w1 = "w\<lparr>objs := objs w @ [?p], dateChosen := length (objs w),
           notified := notified w @ [(?p, i)], timers := timers w + 1\<rparr>"
  let ?w1' = "?w1\<lparr>timers := timers w\<rparr>"
  have c: "click tza now w (DayCell i) = Inr ?w1"
    using assms(2,3) wf(4) by (intro click_DayCell_Some) simp_all
  have t: "timeout tza now1 ?w1 = updateCalendar tza now1 ?w1' (dateChosen ?w1)"
    by (simp add: timeout_def)
  from updateCalendar_view [of "dateChosen ?w1" ?w1' tza now1]
  obtain w2 ext where w2: "updateCalendar tza now1 ?w1' (dateChosen ?w1) = Inr w2"
    "objs w2 = objs ?w1' @ ext" "dateToday w2 = dateToday ?w1'" "dateChosen w2 = dateChosen ?w1'"
    "dateDisplayed w2 = dateDisplayed ?w1'" "length (dayGrid w2) = 42"
    "navigatorText w2 = toMonthName tza (objs ?w1' ! dateChosen ?w1) @ '' ''
        @ num_str (toYear tza (objs ?w1' ! dateChosen ?w1))"
    using wf by auto
  have d2: "objs w2 ! dateDisplayed w2 = Some d"
    using w2(2,5) wf(2) assms(4) by (simp add: nth_append)
  have wf2: "wf_widget w2"
    using w2(2,3,4,5,6) wf by (simp add: wf_widget_def)
  obtain d' where d': "setMonth tza (Some d) (Some (MonthFromTime (LocalTime tza d) + change)) = Some d'"
    using setMonth_Some_ex by blast
  from navigateMonth_view [OF wf2 d2 d', of now2]
  obtain w3 where w3: "navigateMonth tza now2 w2 change = Inr w3"
    "objs w3 ! dateDisplayed w3 = Some d'"
    "navigatorText w3 = toMonthName tza (Some d') @ '' '' @ num_str (toYear tza (Some d'))"
    "map dataset_date (dayGrid w3) = map (\<lambda>i. Some (toShort tza (Some (gridCell tza d' i)))) [0..<42]"
    "map textContent (dayGrid w3) = map (\<lambda>i. num_str (getDate tza (Some (gridCell tza d' i)))) [0..<42]"
    by blast
  from navigateMonth_view [OF assms(1,4) d', of now2]
  obtain w4 where w4: "navigateMonth tza now2 w change = Inr w4"
    "objs w4 ! dateDisplayed w4 = Some d'"
    "navigatorText w4 = toMonthName tza (Some d') @ '' '' @ num_str (toYear tza (Some d'))"
    "map dataset_date (dayGrid w4) = map (\<lambda>i. Some (toShort tza (Some (gridCell tza d' i)))) [0..<42]"
    "map textContent (dayGrid w4) = map (\<lambda>i. num_str (getDate tza (Some (gridCell tza d' i)))) [0..<42]"
    by blast
  have a: "click tza now w (DayCell i) = Inr ?w1 \<and> timeout tza now1 ?w1 = Inr w2 \<and>
     timeout tza now1 ?w1 = updateCalendar tza now1 (?w1\<lparr>timers := timers w\<rparr>) (dateChosen ?w1) \<and>
     navigatorText w2 = toMonthName tza (objs ?w1 ! dateChosen ?w1) @ '' ''
        @ num_str (toYear tza (objs ?w1 ! dateChosen ?w1)) \<and>
     dateDisplayed w2 = dateDisplayed w \<and> objs w2 ! dateDisplayed w2 = Some d"
    using c t w2(1,5,7) d2 by simp
  have b: "navigateMonth tza now2 w2 change = Inr w3 \<and> navigateMonth tza now2 w change = Inr w4 \<and>
     objs w3 ! dateDisplayed w3 =
       setMonth tza (Some d) (Some (MonthFromTime (LocalTime tza d) + change)) \<and>
     objs w4 ! dateDisplayed w4 = objs w3 ! dateDisplayed w3 \<and>
     navigatorText w3 = navigatorText w4 \<and>
     map dataset_date (dayGrid w3) = map dataset_date (dayGrid w4) \<and>
     map textContent (dayGrid w3) = map textContent (dayGrid w4)"
    using w3 w4 d' by simp
  from a b show ?thesis by blast
qed

theorem delayed_render_keeps_dateDisplayed_witness:
  "wf_widget (sample_widget\<lparr>onDayClick := Some 0\<rparr>) \<and>
   onDayClick (sample_widget\<lparr>onDayClick := Some 0\<rparr>) = Some 0 \<and> (6::nat) < 42 \<and>
   objs (sample_widget\<lparr>onDayClick := Some 0\<rparr>) ! dateDisplayed (sample_widget\<lparr>onDayClick := Some 0\<rparr>)
     = Some 1754006400000 \<and>
   (\<exists>w1 w2 w3 w4.
     click 0 1754006400000 (sample_widget\<lparr>onDayClick := Some 0\<rparr>) (DayCell 6) = Inr w1 \<and>
     timeout 0 1754006400500 w1 = Inr w2 \<and>
     dateDisplayed w2 = 2 \<and> objs w2 ! dateDisplayed w2 = Some 1754006400000 \<and>
     navigateMonth 0 1754006400900 w2 1 = Inr w3 \<and>
     navigateMonth 0 1754006400900 (sample_widget\<lparr>onDayClick := Some 0\<rparr>) 1 = Inr w4 \<and>
     navigatorText w3 = navigatorText w4)"
proof -
  let ?w = "sample_widget\<lparr>onDayClick := Some 0\<rparr>"
  have wf: "wf_widget ?w" by (simp add: wf_widget_def sample_widget_def)
  have cb: "onDayClick ?w = Some 0" by simp
  have d: "objs ?w ! dateDisplayed ?w = Some 1754006400000" by (simp add: sample_widget_def)
  have dd: "dateDisplayed ?w = 2" by (simp add: sample_widget_def)
  have i: "(6::nat) < 42" by simp
  from delayed_render_keeps_dateDisplayed [OF wf cb i d, of 0 1754006400000 1754006400500
      1754006400900 1]
  have "\<exists>w1 w2 w3 w4.
     click 0 1754006400000 ?w (DayCell 6) = Inr w1 \<and>
     timeout 0 1754006400500 w1 = Inr w2 \<and>
     dateDisplayed w2 = 2 \<and> objs w2 ! dateDisplayed w2 = Some 1754006400000 \<and>
     navigateMonth 0 1754006400900 w2 1 = Inr w3 \<and>
     navigateMonth 0 1754006400900 ?w 1 = Inr w4 \<and>
     navigatorText w3 = navigatorText w4"
    unfolding dd by blast
  then show ?thesis using wf cb d by simp
qed

subsection \<open>Month navigation and the header click\<close>

lemma LocalTime_UTC [simp]: "LocalTime tza (UTC tza t) = t"
  by (simp add: LocalTime_def UTC_def)

text \<open>
  \<open>setMonth\<close> keeps the day of the month.  When that day exists in every month (it is at most
  28), the result is in the month asked for, with the months carried into the year.
\<close>

lemma setMonth_fields:
  assumes "DateFromTime (LocalTime tza d) \<le> 28"
  shows "\<exists>d'. setMonth tza (Some d) (Some m) = Some d' \<and>
    YearFromTime (LocalTime tza d') = YearFromTime (LocalTime tza d) + m div 12 \<and>
    MonthFromTime (LocalTime tza d') = m mod 12 \<and>
    DateFromTime (LocalTime tza d') = DateFromTime (LocalTime tza d)"
proof -
  let ?t = "LocalTime tza d"
  let ?y = "YearFromTime ?t + m div 12"
  let ?n = "MakeDate (MakeDay (YearFromTime ?t) m (DateFromTime ?t)) (TimeWithinDay ?t)"
  have s: "setMonth tza (Some d) (Some m) = Some (UTC tza ?n)"
    by (simp add: setMonth_def Let_def)
  have mn: "0 \<le> m mod 12" "m mod 12 < 12" by simp_all
  have k: "0 \<le> DateFromTime ?t - 1" "DateFromTime ?t - 1 < DaysInMonth ?y (m mod 12)"
    using assms DateFromTime_range(1) [of ?t] by (simp_all add: DaysInMonth_def)
  have "Day ?n = MakeDay (YearFromTime ?t) m (DateFromTime ?t)"
    using TimeWithinDay_bounds [of ?t] by (simp add: Day_MakeDate)
  then have d: "Day ?n = DayFromYear ?y + MonthStart (if DaysInYear ?y = 366 then 1 else 0) (m mod 12)
      + (DateFromTime ?t - 1)"
    by (simp add: MakeDay_def Let_def)
  note r = year_month_date_of_day [OF mn k d]
  show ?thesis
    using r by (simp add: s)
qed

lemma header_fields:
  assumes "getFullYear tza (Some u) = Some y" "getMonth tza (Some u) = Some m"
  shows "toMonthName tza (Some u) @ '' '' @ num_str (toYear tza (Some u)) =
    month_names ! nat m @ '' '' @ int_str y"
  using assms
  by (simp add: toMonthName_def toLocaleString_month_long_def toYear_def num_str_def getMonth_def)

lemma constructor_view:
  "\<exists>w ext. constructor tza now = Inr w \<and> objs w = [Some now, Some now, Some now] @ ext \<and>
     navigatorText w = toMonthName tza (Some now) @ '' '' @ num_str (toYear tza (Some now)) \<and>
     dateToday w = 0 \<and> dateChosen w = 1 \<and> dateDisplayed w = 2 \<and> starredDates w = [] \<and>
     onDayClick w = None \<and> notified w = [] \<and> timers w = 0 \<and> length (dayGrid w) = 42 \<and>
     map dataset_date (dayGrid w) = map (\<lambda>i. Some (toShort tza (Some (gridCell tza now i)))) [0..<42]"
proof -
  let ?w = "\<lparr>objs = [Some now, Some now, Some now], starredDates = [], dateToday = 0,
      dateChosen = 1, dateDisplayed = 2, navigatorText = [], dayGrid = replicate 42 shadow_day,
      onDayClick = None, notified = [], timers = 0\<rparr>"
  have c: "constructor tza now = updateCalendar tza now ?w 0"
    by (simp add: constructor_def Let_def)
  from updateCalendar_view [of 0 ?w tza now]
  show ?thesis unfolding c by auto
qed

text \<open>
  C3 (the code departs from the claim).  A widget built on 2025-01-31 shows January 2025;
  \<open>navigateMonth 1\<close> then shows March 2025, not February: \<open>setMonth\<close> keeps the day 31, and
  February 31 is March 3.
\<close>

theorem navigateMonth_skips_february:
  "\<exists>w w'. constructor 0 1738324800000 = Inr w \<and> navigatorText w = ''January 2025'' \<and>
     getDate 0 (objs w ! dateDisplayed w) = Some 31 \<and>
     navigateMonth 0 1738324800000 w 1 = Inr w' \<and> navigatorText w' = ''March 2025'' \<and>
     getMonth 0 (objs w' ! dateDisplayed w') = Some 2 \<and>
     getDate 0 (objs w' ! dateDisplayed w') = Some 3"
proof -
  from constructor_view [of 0 1738324800000]
  obtain w ext where w: "constructor 0 1738324800000 = Inr w"
    "objs w = [Some 1738324800000, Some 1738324800000, Some 1738324800000] @ ext"
    "navigatorText w = toMonthName 0 (Some 1738324800000) @ '' ''
        @ num_str (toYear 0 (Some 1738324800000))"
    "dateToday w = 0" "dateChosen w = 1" "dateDisplayed w = 2" "length (dayGrid w) = 42"
    by blast
  have f: "getFullYear 0 (Some 1738324800000) = Some 2025"
    "getMonth 0 (Some 1738324800000) = Some 0" "getDate 0 (Some 1738324800000) = Some 31"
    using fields_at [of 0 1738324800000 2025 0 30] by (simp_all add: eval_defs)
  have f': "getFullYear 0 (Some 1741003200000) = Some 2025"
    "getMonth 0 (Some 1741003200000) = Some 2" "getDate 0 (Some 1741003200000) = Some 3"
    using fields_at [of 0 1741003200000 2025 2 2] by (simp_all add: eval_defs)
  have wf: "wf_widget w" using w by (simp add: wf_widget_def)
  have d: "objs w ! dateDisplayed w = Some 1738324800000" using w by simp
  have s: "setMonth 0 (Some 1738324800000) (Some (MonthFromTime (LocalTime 0 1738324800000) + 1))
      = Some 1741003200000"
    using f by (simp add: setMonth_def getFullYear_def getMonth_def getDate_def Let_def
        MakeDay_def MakeDate_def UTC_def TimeWithinDay_def eval_defs)
  from navigateMonth_view [OF wf d s, of 1738324800000]
  obtain w' where w': "navigateMonth 0 1738324800000 w 1 = Inr w'"
    "objs w' ! dateDisplayed w' = Some 1741003200000"
    "navigatorText w' = toMonthName 0 (Some 1741003200000) @ '' ''
        @ num_str (toYear 0 (Some 1741003200000))"
    by blast
  have y: "int_str 2025 = ''2025''" by code_simp
  have h: "navigatorText w = ''January 2025''"
    unfolding w(3) header_fields [OF f(1,2)] y by (simp add: month_names_def)
  have h': "navigatorText w' = ''March 2025''"
    unfolding w'(3) header_fields [OF f'(1,2)] y by (simp add: month_names_def)
  show ?thesis
    using w(1) h d f(3) w'(1,2) h' f'(2,3) by auto
qed

subsection \<open>Date keys: formatting and parsing\<close>

lemma of_char_digit: "of_char (digit n) = (48 + n mod 10 :: nat)"
  by (simp add: digit_def)

lemma is_digit_digit: "is_digit (digit n)"
  by (simp add: is_digit_def of_char_digit)

lemma digit_val_digit: "digit_val (digit n) = int (n mod 10)"
  by (simp add: digit_val_def of_char_digit)

lemma digit_neq_hyphen: "digit n \<noteq> CHR ''-''"
proof
  assume "digit n = CHR ''-''"
  then have "(of_char (digit n) :: nat) = of_char CHR ''-''" by simp
  then show False by (simp add: of_char_digit)
qed

lemma digit_0: "digit 0 = CHR ''0''"
proof -
  have "(of_char (digit 0) :: nat) = of_char CHR ''0''" by (simp add: of_char_digit)
  then show ?thesis by (simp only: of_char_eq_iff)
qed

lemma digits_small: "n < 10 \<Longrightarrow> digits n = [digit n]"
  by (subst digits.simps) simp

lemma digits_step: "10 \<le> n \<Longrightarrow> digits n = digits (n div 10) @ [digit n]"
  by (subst digits.simps) simp

lemma digits4:
  assumes "1000 \<le> n" "n \<le> 9999"
  shows "digits n = [digit (n div 1000), digit (n div 100), digit (n div 10), digit n]"
proof -
  have a: "n div 10 div 10 = n div 100" "n div 100 div 10 = n div 1000"
    by (simp_all add: div_mult2_eq [symmetric])
  have b: "10 \<le> n" "10 \<le> n div 10" "10 \<le> n div 100" "n div 1000 < 10"
    using assms by simp_all
  show ?thesis
    using b
    by (simp add: digits_step [of n] digits_step [of "n div 10"] digits_step [of "n div 100"]
        digits_small [of "n div 1000"] a)
qed

lemma pad2_digits:
  assumes "0 \<le> i" "i < 100"
  shows "pad2 i = [digit (nat i div 10), digit (nat i)]"
proof (cases "i < 10")
  case True
  then have "nat i < 10" "nat i div 10 = 0" using assms by simp_all
  then show ?thesis using True by (simp add: pad2_def digits_small digit_0)
next
  case False
  then have "10 \<le> nat i" "nat i div 10 < 10" using assms by simp_all
  then show ?thesis using False by (simp add: pad2_def digits_step digits_small)
qed

lemma decimal2:
  fixes n :: nat
  assumes "n < 100"
  shows "10 * (n div 10 mod 10) + n mod 10 = n"
proof -
  have "n div 10 < 10" using assms by simp
  then show ?thesis by simp
qed

lemma decimal4:
  fixes n :: nat
  assumes "n < 10000"
  shows "10 * (10 * (10 * (n div 1000 mod 10) + n div 100 mod 10) + n div 10 mod 10) + n mod 10 = n"
proof -
  have a: "n div 10 div 10 = n div 100" "n div 100 div 10 = n div 1000"
    by (simp_all add: div_mult2_eq [symmetric])
  have "n div 1000 < 10" using assms by simp
  then have 1: "n div 1000 mod 10 = n div 1000" by simp
  have 2: "10 * (n div 1000) + n div 100 mod 10 = n div 100"
    using mult_div_mod_eq [of 10 "n div 100"] a by simp
  have 3: "10 * (n div 100) + n div 10 mod 10 = n div 10"
    using mult_div_mod_eq [of 10 "n div 10"] a by simp
  show ?thesis
    unfolding 1 2 3 by simp
qed

lemma number_of_2: "number_of [digit a, digit b] = int (10 * (a mod 10) + b mod 10)"
  by (simp add: digit_val_digit)

lemma number_of_4:
  "number_of [digit a, digit b, digit c, digit d] =
     int (10 * (10 * (10 * (a mod 10) + b mod 10) + c mod 10) + d mod 10)"
  by (simp add: digit_val_digit)

text \<open>
  For a year of four digits, parsing the key of a date gives midnight UTC of that date.
\<close>

lemma Date_parse_toShort:
  assumes "1000 \<le> YearFromTime (LocalTime tza u)" "YearFromTime (LocalTime tza u) \<le> 9999"
  shows "Date_parse (Some (toShort tza (Some u))) = Some (Day (LocalTime tza u) * msPerDay)"
proof -
  let ?t = "LocalTime tza u"
  let ?y = "YearFromTime ?t" and ?m = "MonthFromTime ?t" and ?d = "DateFromTime ?t"
  let ?Y = "nat ?y" and ?M = "nat (?m + 1)" and ?D = "nat ?d"
  have mr: "0 \<le> ?m" "?m < 12" by (rule MonthFromTime_range)+
  have dr: "1 \<le> ?d" "?d \<le> DaysInMonth ?y ?m" by (rule DateFromTime_range)+
  have d31: "?d \<le> 31" using dr(2) DaysInMonth_le [of ?y ?m] by linarith
  have ys: "digits ?Y = [digit (?Y div 1000), digit (?Y div 100), digit (?Y div 10), digit ?Y]"
    using assms by (intro digits4) simp_all
  have ms: "pad2 (?m + 1) = [digit (?M div 10), digit ?M]"
    using mr by (intro pad2_digits) simp_all
  have ds: "pad2 ?d = [digit (?D div 10), digit ?D]"
    using dr(1) d31 by (intro pad2_digits) simp_all
  have s: "toShort tza (Some u) =
      [digit (?Y div 1000), digit (?Y div 100), digit (?Y div 10), digit ?Y, CHR ''-'',
       digit (?M div 10), digit ?M, CHR ''-'', digit (?D div 10), digit ?D]"
    using assms(1) by (simp add: toShort_def toLocaleDateString_en_CA_def Let_def ys ms ds)
  have ny: "number_of [digit (?Y div 1000), digit (?Y div 100), digit (?Y div 10), digit ?Y] = ?y"
    unfolding number_of_4 using decimal4 [of ?Y] assms by simp
  have nm: "number_of [digit (?M div 10), digit ?M] = ?m + 1"
    unfolding number_of_2 using decimal2 [of ?M] mr by simp
  have nd: "number_of [digit (?D div 10), digit ?D] = ?d"
    unfolding number_of_2 using decimal2 [of ?D] dr(1) d31 by simp
  have md: "MakeDay ?y ?m ?d = Day ?t"
    using MakeDay_same_month [of ?t ?d] by simp
  show ?thesis
    unfolding s Date_parse_def
    using mr dr
    by (simp only: option.case list.case is_digit_digit simp_thms if_True ny nm nd Let_def)
      (simp add: md MakeDate_def)
qed

lemma Day_midnight:
  assumes "0 \<le> tza" "tza < msPerDay"
  shows "Day (LocalTime tza (D * msPerDay)) = D"
  using assms Day_MakeDate [of tza D] by (simp add: LocalTime_def MakeDate_def)

lemma isSameDate_iff_Day:
  "isSameDate tza (Some a) (Some b) = (Day (LocalTime tza a) = Day (LocalTime tza b))"
proof
  assume "isSameDate tza (Some a) (Some b)"
  then have "YearFromTime (LocalTime tza a) = YearFromTime (LocalTime tza b)"
    "MonthFromTime (LocalTime tza a) = MonthFromTime (LocalTime tza b)"
    "DateFromTime (LocalTime tza a) = DateFromTime (LocalTime tza b)"
    by (simp_all add: isSameDate_def num_eq_def getFullYear_def getMonth_def getDate_def)
  then show "Day (LocalTime tza a) = Day (LocalTime tza b)"
    using Day_decompose [of "LocalTime tza a"] Day_decompose [of "LocalTime tza b"] by simp
next
  assume "Day (LocalTime tza a) = Day (LocalTime tza b)"
  then show "isSameDate tza (Some a) (Some b)"
    using fields_cong [of "LocalTime tza a" "LocalTime tza b"]
    by (simp add: isSameDate_def num_eq_def getFullYear_def getMonth_def getDate_def)
qed

text \<open>
  With a UTC offset from zero up to (not including) a day, the key of a date parses back to
  a Date with the same calendar date, and so to the same key.
\<close>

lemma toShort_roundtrip_nonneg:
  assumes "0 \<le> tza" "tza < msPerDay"
    and "1000 \<le> YearFromTime (LocalTime tza u)" "YearFromTime (LocalTime tza u) \<le> 9999"
  shows "toShort tza (Date_parse (Some (toShort tza (Some u)))) = toShort tza (Some u)"
  unfolding Date_parse_toShort [OF assms(3,4)]
  by (rule toShort_cong) (simp add: Day_midnight [OF assms(1,2)])

subsection \<open>The round trip of a date key, and the click on a day cell\<close>

text \<open>
  C6 (the code departs from the claim).  Five hours west of UTC, the key of 2025-01-03
  (local noon) is \<^verbatim>\<open>2025-01-03\<close>; \<^verbatim>\<open>new Date\<close> reads that key as midnight UTC, which is the
  evening of January 2 local time, so formatting the parsed Date gives \<^verbatim>\<open>2025-01-02\<close>.
\<close>

theorem toShort_roundtrip_west_of_UTC:
  "toShort (- 18000000) (Some 1735923600000) = ''2025-01-03'' \<and>
   Date_parse (Some ''2025-01-03'') = Some 1735862400000 \<and>
   toShort (- 18000000) (Date_parse (Some (toShort (- 18000000) (Some 1735923600000))))
     = ''2025-01-02''"
proof -
  have f: "getFullYear (- 18000000) (Some 1735923600000) = Some 2025"
    "getMonth (- 18000000) (Some 1735923600000) = Some 0"
    "getDate (- 18000000) (Some 1735923600000) = Some 3"
    using fields_at [of "- 18000000" 1735923600000 2025 0 2] by (simp_all add: eval_defs)
  have k: "digits (nat (if (2025::int) \<le> 0 then 1 - 2025 else 2025)) @ ''-'' @ pad2 (0 + 1) @ ''-''
      @ pad2 3 = ''2025-01-03''"
    by code_simp
  have a: "toShort (- 18000000) (Some 1735923600000) = ''2025-01-03''"
    unfolding toShort_fields [OF f] by (rule k)
  have "Date_parse (Some (toShort (- 18000000) (Some 1735923600000)))
      = Some (Day (LocalTime (- 18000000) 1735923600000) * msPerDay)"
    using f(1) by (intro Date_parse_toShort) (simp_all add: getFullYear_def)
  then have b: "Date_parse (Some ''2025-01-03'') = Some 1735862400000"
    unfolding a by (simp add: eval_defs)
  have g: "getFullYear (- 18000000) (Some 1735862400000) = Some 2025"
    "getMonth (- 18000000) (Some 1735862400000) = Some 0"
    "getDate (- 18000000) (Some 1735862400000) = Some 2"
    using fields_at [of "- 18000000" 1735862400000 2025 0 1] by (simp_all add: eval_defs)
  have k': "digits (nat (if (2025::int) \<le> 0 then 1 - 2025 else 2025)) @ ''-'' @ pad2 (0 + 1) @ ''-''
      @ pad2 2 = ''2025-01-02''"
    by code_simp
  have c: "toShort (- 18000000) (Some 1735862400000) = ''2025-01-02''"
    unfolding toShort_fields [OF g] by (rule k')
  show ?thesis
    using a b c by simp
qed

lemma firstOfMonth_Day_minus:
  "Day (LocalTime tza (firstOfMonth tza u)) =
     Day (LocalTime tza u) - DateFromTime (LocalTime tza u) + 1"
proof -
  have "LocalTime tza (firstOfMonth tza u) =
      LocalTime tza u + (1 - DateFromTime (LocalTime tza u)) * msPerDay"
    by (simp add: firstOfMonth_def LocalTime_def)
  then have "Day (LocalTime tza (firstOfMonth tza u)) =
      Day (LocalTime tza u) + (1 - DateFromTime (LocalTime tza u))"
    by (simp only: Day_shift)
  then show ?thesis by simp
qed

text \<open>The index of the grid of the month of \<open>u\<close> at which the date of \<open>u\<close> itself stands.\<close>

lemma grid_index_of_date:
  "nat (mondayOffset tza u + DateFromTime (LocalTime tza u) - 1) < 42"
  "(Day (LocalTime tza (gridCell tza u k)) = Day (LocalTime tza u)) =
     (k = nat (mondayOffset tza u + DateFromTime (LocalTime tza u) - 1))"
proof -
  have r: "0 \<le> mondayOffset tza u" "mondayOffset tza u < 7"
    "1 \<le> DateFromTime (LocalTime tza u)" "DateFromTime (LocalTime tza u) \<le> 31"
    using mondayOffset_range [of tza u] DateFromTime_range [of "LocalTime tza u"]
      DaysInMonth_le [of "YearFromTime (LocalTime tza u)" "MonthFromTime (LocalTime tza u)"]
    by linarith+
  show "nat (mondayOffset tza u + DateFromTime (LocalTime tza u) - 1) < 42"
    using r by linarith
  show "(Day (LocalTime tza (gridCell tza u k)) = Day (LocalTime tza u)) =
     (k = nat (mondayOffset tza u + DateFromTime (LocalTime tza u) - 1))"
    unfolding gridCell_Day firstOfMonth_Day_minus using r by linarith
qed

text \<open>
  A render of the chosen date: the cell of the chosen date is today or marked, and no other
  cell is marked.
\<close>

lemma render_chosen:
  assumes "dateChosen w < length (objs w)" "length (dayGrid w) = 42"
    and "objs w ! dateChosen w = Some ch"
    and "j = nat (mondayOffset tza ch + DateFromTime (LocalTime tza ch) - 1)"
  shows "\<exists>w2. updateCalendar tza now w (dateChosen w) = Inr w2 \<and> timers w2 = timers w \<and>
     length (dayGrid w2) = 42 \<and> j < 42 \<and>
     dataset_date (dayGrid w2 ! j) = Some (toShort tza (Some ch)) \<and>
     state_classes (dayGrid w2 ! j) = (if isToday tza now (Some ch) then [''today''] else [''marked'']) \<and>
     (\<forall>k<42. k \<noteq> j \<longrightarrow> state_classes (dayGrid w2 ! k) \<noteq> [''marked''])"
proof -
  let ?cell = "\<lambda>k. updateDay tza now w (Some ch) (Some (gridCell tza ch k)) (dayGrid w ! k)"
  have j: "j < 42" unfolding assms(4) by (rule grid_index_of_date(1))
  have dj: "Day (LocalTime tza (gridCell tza ch j)) = Day (LocalTime tza ch)"
    using grid_index_of_date(2) [of tza ch j] assms(4) by simp
  have key: "toShort tza (Some (gridCell tza ch j)) = toShort tza (Some ch)"
    by (rule toShort_cong [OF dj])
  have mj: "num_eq (getMonth tza (Some (gridCell tza ch j))) (getMonth tza (Some ch))"
    using fields_cong(2) [OF dj] by (simp add: num_eq_def getMonth_def)
  have tj: "isToday tza now (Some (gridCell tza ch j)) = isToday tza now (Some ch)"
    by (simp add: isToday_def isSameDate_iff_Day dj)
  have sj: "isSameDate tza (Some (gridCell tza ch j)) (Some ch)"
    by (simp add: isSameDate_iff_Day dj)
  have cj: "state_classes (?cell j) = (if isToday tza now (Some ch) then [''today''] else [''marked''])"
    by (simp add: state_classes_updateDay mj tj sj assms(3))
  have other: "state_classes (?cell k) \<noteq> [''marked'']" if "k \<noteq> j" for k
  proof -
    have "\<not> isSameDate tza (Some (gridCell tza ch k)) (Some ch)"
      using that grid_index_of_date(2) [of tza ch k] assms(4) by (simp add: isSameDate_iff_Day)
    then show ?thesis by (simp add: state_classes_updateDay assms(3))
  qed
  have nth: "map ?cell [0..<42] ! k = ?cell k" if "k < 42" for k
    using that by (simp del: upt_Suc)
  show ?thesis
    unfolding updateCalendar_Some [OF assms(1,3,1,2)]
    using j cj other nth by (simp add: updateDay_text key del: upt_Suc)
qed

lemma click_timeout_render:
  assumes "wf_widget w" and "onDayClick w = Some cb" and "i < 42"
    and "dataset_date (dayGrid w ! i) = Some (toShort tza (Some c))"
    and "0 \<le> tza" and "tza < msPerDay"
    and "1000 \<le> YearFromTime (LocalTime tza c)" and "YearFromTime (LocalTime tza c) \<le> 9999"
    and "ch = Day (LocalTime tza c) * msPerDay"
    and "j = nat (mondayOffset tza ch + DateFromTime (LocalTime tza ch) - 1)"
  shows "\<exists>w1 w2. click tza now w (DayCell i) = Inr w1 \<and>
     objs w1 ! dateChosen w1 = Some ch \<and> isSameDate tza (Some ch) (Some c) \<and>
     notified w1 = notified w @ [(Some ch, i)] \<and> timers w1 = timers w + 1 \<and>
     timeout tza now1 w1 = Inr w2 \<and> timers w2 = timers w \<and> j < 42 \<and>
     dataset_date (dayGrid w2 ! j) = Some (toShort tza (Some c)) \<and>
     state_classes (dayGrid w2 ! j) =
       (if isToday tza now1 (Some c) then [''today''] else [''marked'']) \<and>
     (\<forall>k<42. k \<noteq> j \<longrightarrow> state_classes (dayGrid w2 ! k) \<noteq> [''marked''])"
proof -
  have wf: "length (dayGrid w) = 42" using assms(1) by (simp add: wf_widget_def)
  have p: "Date_parse (dataset_date (dayGrid w ! i)) = Some ch"
    unfolding assms(4,9) by (rule Date_parse_toShort [OF assms(7,8)])
  have dc: "Day (LocalTime tza ch) = Day (LocalTime tza c)"
    unfolding assms(9) by (rule Day_midnight [OF assms(5,6)])
  let ?w1 = "w\<lparr>objs := objs w @ [Some ch], dateChosen := length (objs w),
           notified := notified w @ [(Some ch, i)], timers := timers w + 1\<rparr>"
  let ?w1' = "?w1\<lparr>timers := timers w\<rparr>"
  have c: "click tza now w (DayCell i) = Inr ?w1"
    using click_DayCell_Some [of i w cb tza now] assms(2,3) wf by (simp add: p)
  have t: "timeout tza now1 ?w1 = updateCalendar tza now1 ?w1' (dateChosen ?w1')"
    by (simp add: timeout_def)
  from render_chosen [of ?w1' ch j tza now1]
  obtain w2 where w2: "updateCalendar tza now1 ?w1' (dateChosen ?w1') = Inr w2"
    "timers w2 = timers ?w1'" "j < 42"
    "dataset_date (dayGrid w2 ! j) = Some (toShort tza (Some ch))"
    "state_classes (dayGrid w2 ! j) =
       (if isToday tza now1 (Some ch) then [''today''] else [''marked''])"
    "\<forall>k<42. k \<noteq> j \<longrightarrow> state_classes (dayGrid w2 ! k) \<noteq> [''marked'']"
    using wf assms(10) by auto
  have same: "isSameDate tza (Some ch) (Some c)" by (simp add: isSameDate_iff_Day dc)
  have key: "toShort tza (Some ch) = toShort tza (Some c)" by (rule toShort_cong [OF dc])
  have today: "isToday tza now1 (Some ch) = isToday tza now1 (Some c)"
    by (simp add: isToday_def isSameDate_iff_Day dc)
  have "click tza now w (DayCell i) = Inr ?w1 \<and>
     objs ?w1 ! dateChosen ?w1 = Some ch \<and> isSameDate tza (Some ch) (Some c) \<and>
     notified ?w1 = notified w @ [(Some ch, i)] \<and> timers ?w1 = timers w + 1 \<and>
     timeout tza now1 ?w1 = Inr w2 \<and> timers w2 = timers w \<and> j < 42 \<and>
     dataset_date (dayGrid w2 ! j) = Some (toShort tza (Some c)) \<and>
     state_classes (dayGrid w2 ! j) =
       (if isToday tza now1 (Some c) then [''today''] else [''marked'']) \<and>
     (\<forall>k<42. k \<noteq> j \<longrightarrow> state_classes (dayGrid w2 ! k) \<noteq> [''marked''])"
    using c t w2 same key today by simp
  then show ?thesis by blast
qed

text \<open>
  C5, as amended.  With a callback registered and a UTC offset from zero up to a day, a click
  on a day cell that shows the date \<open>c\<close> (a year of four digits) sets \<open>dateChosen\<close> to a new
  Date with the calendar date of \<open>c\<close>, calls the callback exactly once, with that Date and the
  clicked cell, and schedules one re-render.  When the re-render runs, the cell of the
  date of \<open>c\<close> is marked and no other cell is, unless \<open>c\<close> is the current date: then that
  cell is today and no cell is marked.
\<close>

theorem click_day_chosen_and_marked:
  assumes "wf_widget w" and "onDayClick w = Some cb" and "i < 42"
    and "dataset_date (dayGrid w ! i) = Some (toShort tza (Some c))"
    and "0 \<le> tza" and "tza < msPerDay"
    and "1000 \<le> YearFromTime (LocalTime tza c)" and "YearFromTime (LocalTime tza c) \<le> 9999"
  shows "\<exists>w1 w2 ch j. click tza now w (DayCell i) = Inr w1 \<and>
     objs w1 ! dateChosen w1 = Some ch \<and> isSameDate tza (Some ch) (Some c) \<and>
     notified w1 = notified w @ [(Some ch, i)] \<and> timers w1 = timers w + 1 \<and>
     timeout tza now1 w1 = Inr w2 \<and> timers w2 = timers w \<and> j < 42 \<and>
     dataset_date (dayGrid w2 ! j) = Some (toShort tza (Some c)) \<and>
     state_classes (dayGrid w2 ! j) =
       (if isToday tza now1 (Some c) then [''today''] else [''marked'']) \<and>
     (\<forall>k<42. k \<noteq> j \<longrightarrow> state_classes (dayGrid w2 ! k) \<noteq> [''marked''])"
  using click_timeout_render [OF assms refl refl, of now now1] by blast

theorem click_day_chosen_and_marked_witness:
  "wf_widget (sample_widget\<lparr>onDayClick := Some 0\<rparr>) \<and>
   onDayClick (sample_widget\<lparr>onDayClick := Some 0\<rparr>) = Some 0 \<and> (6::nat) < 42 \<and>
   dataset_date (dayGrid (sample_widget\<lparr>onDayClick := Some 0\<rparr>) ! 6)
     = Some (toShort 0 (Some 1754179200000)) \<and>
   (0::int) \<le> 0 \<and> 0 < msPerDay \<and>
   1000 \<le> YearFromTime (LocalTime 0 1754179200000) \<and>
   YearFromTime (LocalTime 0 1754179200000) \<le> 9999 \<and>
   (\<exists>w1 w2 ch j.
      click 0 1754006400000 (sample_widget\<lparr>onDayClick := Some 0\<rparr>) (DayCell 6) = Inr w1 \<and>
      objs w1 ! dateChosen w1 = Some ch \<and> isSameDate 0 (Some ch) (Some 1754179200000) \<and>
      notified w1 = [(Some ch, 6)] \<and> timers w1 = 1 \<and>
      timeout 0 1754006400500 w1 = Inr w2 \<and> timers w2 = 0 \<and> j < 42 \<and>
      dataset_date (dayGrid w2 ! j) = Some ''2025-08-03'' \<and>
      state_classes (dayGrid w2 ! j) = [''marked''])"
proof -
  let ?w = "sample_widget\<lparr>onDayClick := Some 0\<rparr>"
  have wf: "wf_widget ?w" by (simp add: wf_widget_def sample_widget_def)
  have cb: "onDayClick ?w = Some 0" by simp
  have i: "(6::nat) < 42" by simp
  have f: "getFullYear 0 (Some 1754179200000) = Some 2025"
    "getMonth 0 (Some 1754179200000) = Some 7" "getDate 0 (Some 1754179200000) = Some 3"
    using fields_at [of 0 1754179200000 2025 7 2] by (simp_all add: eval_defs)
  have k: "digits (nat (if (2025::int) \<le> 0 then 1 - 2025 else 2025)) @ ''-'' @ pad2 (7 + 1) @ ''-''
      @ pad2 3 = ''2025-08-03''"
    by code_simp
  have key: "toShort 0 (Some 1754179200000) = ''2025-08-03''"
    unfolding toShort_fields [OF f] by (rule k)
  have ds: "dataset_date (dayGrid ?w ! 6) = Some (toShort 0 (Some 1754179200000))"
    unfolding key by (simp add: sample_widget_def)
  have z: "(0::int) \<le> 0" "(0::int) < msPerDay" by (simp_all add: msPerDay_def)
  have y: "1000 \<le> YearFromTime (LocalTime 0 1754179200000)"
    "YearFromTime (LocalTime 0 1754179200000) \<le> 9999"
    using f(1) by (simp_all add: getFullYear_def)
  have nt: "\<not> isToday 0 1754006400500 (Some 1754179200000)"
    by (simp add: isToday_def isSameDate_iff_Day eval_defs)
  have s0: "notified ?w = []" "timers ?w = 0" by (simp_all add: sample_widget_def)
  from click_day_chosen_and_marked [OF wf cb i ds z y, of 1754006400000 1754006400500]
  have "\<exists>w1 w2 ch j.
      click 0 1754006400000 ?w (DayCell 6) = Inr w1 \<and>
      objs w1 ! dateChosen w1 = Some ch \<and> isSameDate 0 (Some ch) (Some 1754179200000) \<and>
      notified w1 = [(Some ch, 6)] \<and> timers w1 = 1 \<and>
      timeout 0 1754006400500 w1 = Inr w2 \<and> timers w2 = 0 \<and> j < 42 \<and>
      dataset_date (dayGrid w2 ! j) = Some ''2025-08-03'' \<and>
      state_classes (dayGrid w2 ! j) = [''marked'']"
    unfolding key s0 using nt by auto
  then show ?thesis using wf cb ds z y by simp
qed

lemma mondayOffset_fields:
  assumes "getFullYear tza (Some u) = Some y" "getMonth tza (Some u) = Some m"
  shows "mondayOffset tza u =
    ((DayFromYear y + MonthStart (if DaysInYear y = 366 then 1 else 0) m + 4) mod 7 + 6) mod 7"
    and "Day (LocalTime tza (gridCell tza u i)) =
      DayFromYear y + MonthStart (if DaysInYear y = 366 then 1 else 0) m
        + (int i - mondayOffset tza u)"
  using assms
  by (simp_all add: mondayOffset_def WeekDay_def gridCell_Day firstOfMonth_Day getFullYear_def
      getMonth_def)

text \<open>
  C5 as stated fails when the clicked cell shows the current date.  In the example run the
  user clicks the cell of August 1 on August 1: \<open>dateChosen\<close> becomes August 1 and the
  re-render runs, but the clicked cell is classified today, not marked.
\<close>

theorem click_on_today_is_not_marked:
  "constructor 0 1754049600000 = Inr scenario_built \<and>
   dataset_date (dayGrid scenario_built ! 4) = Some ''2025-08-01'' \<and>
   click 0 1754049600000 (scenario_built\<lparr>onDayClick := Some 0\<rparr>) (DayCell 4) = Inr scenario_clicked \<and>
   objs scenario_clicked ! dateChosen scenario_clicked = Some 1754006400000 \<and>
   timeout 0 1754049600500 scenario_clicked = Inr scenario_rendered \<and>
   dataset_date (dayGrid scenario_rendered ! 4) = Some ''2025-08-01'' \<and>
   state_classes (dayGrid scenario_rendered ! 4) = [''today'']"
proof -
  from constructor_view [of 0 1754049600000]
  obtain w ext where w: "constructor 0 1754049600000 = Inr w"
    "objs w = [Some 1754049600000, Some 1754049600000, Some 1754049600000] @ ext"
    "dateToday w = 0" "dateChosen w = 1" "dateDisplayed w = 2" "length (dayGrid w) = 42"
    "map dataset_date (dayGrid w) =
       map (\<lambda>i. Some (toShort 0 (Some (gridCell 0 1754049600000 i)))) [0..<42]"
    by blast
  let ?c = "gridCell 0 1754049600000 4"
  let ?wc = "w\<lparr>onDayClick := Some 0\<rparr>"
  have built: "scenario_built = w" by (simp add: scenario_built_def w(1))
  have f: "getFullYear 0 (Some 1754049600000) = Some 2025"
    "getMonth 0 (Some 1754049600000) = Some 7"
    using fields_at [of 0 1754049600000 2025 7 0] by (simp_all add: eval_defs)
  have mo: "mondayOffset 0 1754049600000 = 4"
    unfolding mondayOffset_fields(1) [OF f]
    by (simp add: DayFromYear_def MonthStart_def DaysInYear_def)
  have dc: "Day (LocalTime 0 ?c) = 20301"
    unfolding mondayOffset_fields(2) [OF f] mo
    by (simp add: DayFromYear_def MonthStart_def DaysInYear_def)
  have yc: "YearFromTime (LocalTime 0 ?c) = 2025"
    using year_month_date_of_day(1) [of 7 0 2025 "LocalTime 0 ?c"] dc
    by (simp add: DayFromYear_def MonthStart_def DaysInYear_def DaysInMonth_def)
  have key: "toShort 0 (Some ?c) = ''2025-08-01''"
    using august_2025(3) [of 0 1754049600000] f by (simp add: getFullYear_def getMonth_def)
  have "map dataset_date (dayGrid w) ! 4 = Some (toShort 0 (Some ?c))"
    unfolding w(7) by (simp del: upt_Suc)
  then have ds: "dataset_date (dayGrid ?wc ! 4) = Some (toShort 0 (Some ?c))"
    using w(6) by simp
  have wf: "wf_widget ?wc" using w by (simp add: wf_widget_def)
  have ch: "(1754006400000::int) = Day (LocalTime 0 ?c) * msPerDay"
    unfolding dc by (simp add: msPerDay_def)
  have g: "getFullYear 0 (Some 1754006400000) = Some 2025"
    "getMonth 0 (Some 1754006400000) = Some 7" "getDate 0 (Some 1754006400000) = Some 1"
    using fields_at [of 0 1754006400000 2025 7 0] by (simp_all add: eval_defs)
  have mo': "mondayOffset 0 1754006400000 = 4"
    unfolding mondayOffset_fields(1) [OF g(1,2)]
    by (simp add: DayFromYear_def MonthStart_def DaysInYear_def)
  have j: "(4::nat) = nat (mondayOffset 0 1754006400000 + DateFromTime (LocalTime 0 1754006400000) - 1)"
    using g(3) by (simp add: mo' getDate_def)
  have today: "isToday 0 1754049600500 (Some ?c)"
    unfolding isToday_def Let_def isSameDate_iff_Day dc by (simp add: eval_defs)
  have z: "(0::int) \<le> 0" "(0::int) < msPerDay" by (simp_all add: msPerDay_def)
  have y: "1000 \<le> YearFromTime (LocalTime 0 ?c)" "YearFromTime (LocalTime 0 ?c) \<le> 9999"
    by (simp_all add: yc)
  have cb: "onDayClick ?wc = Some 0" by simp
  from click_timeout_render [OF wf cb _ ds z y ch j, of 1754049600000 1754049600500]
  obtain w1 w2 where r: "click 0 1754049600000 ?wc (DayCell 4) = Inr w1"
    "objs w1 ! dateChosen w1 = Some 1754006400000"
    "timeout 0 1754049600500 w1 = Inr w2"
    "dataset_date (dayGrid w2 ! 4) = Some (toShort 0 (Some ?c))"
    "state_classes (dayGrid w2 ! 4) =
       (if isToday 0 1754049600500 (Some ?c) then [''today''] else [''marked''])"
    by auto
  have clicked: "scenario_clicked = w1" by (simp add: scenario_clicked_def built r(1))
  have rendered: "scenario_rendered = w2" by (simp add: scenario_rendered_def clicked r(3))
  show ?thesis
    unfolding built clicked rendered
    using w(1) ds r today by (simp add: key)
qed

subsection \<open>SimpleDatabase results\<close>

lemma map_of_put: "map_of (put v k rs) k = Some v"
  by (induction rs) auto

lemma validString_strings:
  "validString [JString k] = (trim k \<noteq> [])"
  "validString [JString k, JString v] = (trim k \<noteq> [] \<and> trim v \<noteq> [])"
  by simp_all

lemma trim_white_space: "is_white_space u \<Longrightarrow> trim [u] = []"
  by (simp add: trim_def)

lemma settle_not_Rejected:
  "settle handler evs \<noteq> Rejected x"
  by (induction evs) (auto split: option.splits)

lemma settle_Resolved:
  assumes "settle handler evs = Resolved r"
  shows "\<exists>e. handler e = Some r"
  using assms by (induction evs) (auto split: option.splits)

lemma failed_message: "message (failed msg e) \<noteq> None" "\<not> success (failed msg e)"
  by (simp_all add: failed_def)

lemma loading_handlers_message:
  assumes "loading_handlers found e = Some r" "\<not> success r"
  shows "message r \<noteq> None"
  using assms
  by (auto simp: loading_handlers_def failed_def succeeded_with_def
      split: idb_event.splits option.splits)

lemma loadAll_cursor_settles_both:
  "loadAll_cursor remaining entries evs \<noteq> Rejected x \<and>
   (\<forall>r. loadAll_cursor remaining entries evs = Resolved r \<longrightarrow> \<not> success r \<longrightarrow> message r \<noteq> None)"
proof (induction remaining entries evs rule: loadAll_cursor.induct)
  case (1 remaining entries)
  show ?case by simp
next
  case (2 remaining entries e es)
  then show ?case
    by (cases e; cases remaining) (auto simp: failed_def succeeded_with_def)
qed

lemma loadAll_cursor_settles:
  "loadAll_cursor remaining entries evs \<noteq> Rejected x"
  "loadAll_cursor remaining entries evs = Resolved r \<Longrightarrow> \<not> success r \<Longrightarrow> message r \<noteq> None"
  using loadAll_cursor_settles_both [of remaining entries evs x] by blast+

lemma settle_message:
  assumes "\<And>e q. handler e = Some q \<Longrightarrow> \<not> success q \<Longrightarrow> message q \<noteq> None"
    and "settle handler evs = Resolved r" "\<not> success r"
  shows "message r \<noteq> None"
  using assms settle_Resolved [of handler evs r] by blast

lemma opening_handlers_message:
  "opening_handlers e = Some r \<Longrightarrow> \<not> success r \<Longrightarrow> message r \<noteq> None"
  by (cases e) (auto simp: opening_handlers_def failed_def succeeded_def)

lemma saving_handlers_message:
  "saving_handlers e = Some r \<Longrightarrow> \<not> success r \<Longrightarrow> message r \<noteq> None"
  by (cases e) (auto simp: saving_handlers_def failed_def succeeded_def)

lemma deletion_handlers_message:
  "deletion_handlers e = Some r \<Longrightarrow> \<not> success r \<Longrightarrow> message r \<noteq> None"
  by (cases e) (auto simp: deletion_handlers_def failed_def succeeded_def)

text \<open>
  A promise is rejected only when a call that starts the request throws, and then with the
  exception thrown.
\<close>

lemma db_open_Rejected:
  "fst (db_open db response) = Rejected x \<longleftrightarrow> \<not> linked db \<and> response = Throws x"
  by (cases response) (auto simp: db_open_def Let_def settle_not_Rejected)

lemma save_Rejected:
  "fst (save db key v response) = Rejected x \<longleftrightarrow>
     linked db \<and> validString [key, v] \<and> response = Throws x"
  by (cases response) (auto simp: save_def settle_not_Rejected)

lemma load_Rejected:
  "fst (load db key response) = Rejected x \<longleftrightarrow>
     linked db \<and> validString [key] \<and> response = Throws x"
  by (cases response; cases key) (auto simp: load_def settle_not_Rejected)

lemma loadAllKeys_Rejected:
  "fst (loadAllKeys db response) = Rejected x \<longleftrightarrow> linked db \<and> response = Throws x"
  by (cases response) (auto simp: loadAllKeys_def settle_not_Rejected)

lemma loadAllValues_Rejected:
  "fst (loadAllValues db response) = Rejected x \<longleftrightarrow> linked db \<and> response = Throws x"
  by (cases response) (auto simp: loadAllValues_def settle_not_Rejected)

lemma loadAll_Rejected:
  "fst (loadAll db response) = Rejected x \<longleftrightarrow> linked db \<and> response = Throws x"
  by (cases response) (auto simp: loadAll_def loadAll_cursor_settles(1))

lemma destroy_Rejected:
  "fst (destroy db response) = Rejected x \<longleftrightarrow> linked db \<and> response = Throws x"
  by (cases response) (auto simp: destroy_def Let_def settle_not_Rejected)

lemma reset_Fires_not_Rejected:
  "fst (reset db (Fires evs1) (Fires evs2)) \<noteq> Rejected x"
proof -
  obtain s1 db1 where d: "destroy db (Fires evs1) = (s1, db1)" by (cases "destroy db (Fires evs1)")
  obtain s2 db2 where p: "db_open db1 (Fires evs2) = (s2, db2)"
    by (cases "db_open db1 (Fires evs2)")
  have s1: "s1 \<noteq> Rejected y" for y using destroy_Rejected [of db "Fires evs1" y] d by simp
  have s2: "s2 \<noteq> Rejected y" for y using db_open_Rejected [of db1 "Fires evs2" y] p by simp
  show ?thesis
    using s1 s2 by (cases s1; cases s2) (auto simp: reset_def d p split: if_splits)
qed

lemma call_Fires_not_Rejected:
  "fst (call db c (Fires evs1) (Fires evs2)) \<noteq> Rejected x"
  by (cases c)
    (simp_all add: db_open_Rejected save_Rejected load_Rejected loadAllKeys_Rejected
      loadAllValues_Rejected loadAll_Rejected destroy_Rejected reset_Fires_not_Rejected)

text \<open>A result with \<^verbatim>\<open>success: false\<close> has a message, in every method.\<close>

lemma db_open_message:
  assumes "fst (db_open db response) = Resolved r" "\<not> success r"
  shows "message r \<noteq> None"
proof (cases response)
  case (Throws e)
  with assms show ?thesis by (auto simp: db_open_def succeeded_def split: if_splits)
next
  case (Fires evs)
  show ?thesis
  proof (cases "linked db")
    case True
    with assms show ?thesis by (auto simp: db_open_def succeeded_def)
  next
    case False
    with assms Fires have "settle opening_handlers evs = Resolved r"
      by (simp add: db_open_def Let_def)
    then show ?thesis using assms(2) opening_handlers_message settle_message by blast
  qed
qed

lemma save_message:
  assumes "fst (save db key v response) = Resolved r" "\<not> success r"
  shows "message r \<noteq> None"
proof (cases "linked db \<and> validString [key, v]")
  case False
  with assms show ?thesis by (auto simp: save_def failed_def split: if_splits)
next
  case True
  show ?thesis
  proof (cases response)
    case (Throws e)
    with True assms show ?thesis by (simp add: save_def)
  next
    case (Fires evs)
    with True assms have "settle saving_handlers evs = Resolved r"
      by (auto simp: save_def split: if_splits)
    then show ?thesis using assms(2) saving_handlers_message settle_message by blast
  qed
qed

lemma load_message:
  assumes "fst (load db key response) = Resolved r" "\<not> success r"
  shows "message r \<noteq> None"
proof (cases "linked db \<and> validString [key]")
  case False
  with assms show ?thesis by (auto simp: load_def failed_def split: if_splits)
next
  case True
  then obtain k where k: "key = JString k" by (cases key) simp_all
  show ?thesis
  proof (cases response)
    case (Throws e)
    with True assms show ?thesis by (simp add: load_def)
  next
    case (Fires evs)
    with k True assms
    have "settle (loading_handlers (map_option PString (map_of (records db) k))) evs = Resolved r"
      by (auto simp: load_def split: if_splits)
    then obtain e where
      "loading_handlers (map_option PString (map_of (records db) k)) e = Some r"
      using settle_Resolved by blast
    with assms(2) show ?thesis using loading_handlers_message by blast
  qed
qed

lemma loadAllKeys_message:
  assumes "fst (loadAllKeys db response) = Resolved r" "\<not> success r"
  shows "message r \<noteq> None"
proof (cases "linked db")
  case False
  with assms show ?thesis by (auto simp: loadAllKeys_def failed_def)
next
  case True
  show ?thesis
  proof (cases response)
    case (Throws e)
    with True assms show ?thesis by (simp add: loadAllKeys_def)
  next
    case (Fires evs)
    with True assms
    have "settle (loading_handlers (Some (PArray (map fst (records db))))) evs = Resolved r"
      by (simp add: loadAllKeys_def)
    then obtain e where
      "loading_handlers (Some (PArray (map fst (records db)))) e = Some r"
      using settle_Resolved by blast
    with assms(2) show ?thesis using loading_handlers_message by blast
  qed
qed

lemma loadAllValues_message:
  assumes "fst (loadAllValues db response) = Resolved r" "\<not> success r"
  shows "message r \<noteq> None"
proof (cases "linked db")
  case False
  with assms show ?thesis by (auto simp: loadAllValues_def failed_def)
next
  case True
  show ?thesis
  proof (cases response)
    case (Throws e)
    with True assms show ?thesis by (simp add: loadAllValues_def)
  next
    case (Fires evs)
    with True assms
    have "settle (loading_handlers (Some (PArray (map snd (records db))))) evs = Resolved r"
      by (simp add: loadAllValues_def)
    then obtain e where
      "loading_handlers (Some (PArray (map snd (records db)))) e = Some r"
      using settle_Resolved by blast
    with assms(2) show ?thesis using loading_handlers_message by blast
  qed
qed

lemma loadAll_message:
  assumes "fst (loadAll db response) = Resolved r" "\<not> success r"
  shows "message r \<noteq> None"
proof (cases "linked db")
  case False
  with assms show ?thesis by (auto simp: loadAll_def failed_def)
next
  case True
  show ?thesis
  proof (cases response)
    case (Throws e)
    with True assms show ?thesis by (simp add: loadAll_def)
  next
    case (Fires evs)
    with True assms have "loadAll_cursor (records db) [] evs = Resolved r"
      by (simp add: loadAll_def)
    then show ?thesis using assms(2) by (rule loadAll_cursor_settles(2))
  qed
qed

lemma destroy_message:
  assumes "fst (destroy db response) = Resolved r" "\<not> success r"
  shows "message r \<noteq> None"
proof (cases "linked db")
  case False
  with assms show ?thesis by (auto simp: destroy_def failed_def)
next
  case True
  show ?thesis
  proof (cases response)
    case (Throws e)
    with True assms show ?thesis by (simp add: destroy_def Let_def)
  next
    case (Fires evs)
    with True assms have "settle deletion_handlers evs = Resolved r"
      by (simp add: destroy_def Let_def)
    then show ?thesis using assms(2) deletion_handlers_message settle_message by blast
  qed
qed

lemma reset_message:
  assumes "fst (reset db response1 response2) = Resolved r" "\<not> success r"
  shows "message r \<noteq> None"
proof -
  obtain s1 db1 where d: "destroy db response1 = (s1, db1)" by (cases "destroy db response1")
  obtain s2 db2 where p: "db_open db1 response2 = (s2, db2)" by (cases "db_open db1 response2")
  have m1: "s1 = Resolved q \<Longrightarrow> \<not> success q \<Longrightarrow> message q \<noteq> None" for q
    using destroy_message [of db response1 q] d by simp
  have m2: "s2 = Resolved q \<Longrightarrow> \<not> success q \<Longrightarrow> message q \<noteq> None" for q
    using db_open_message [of db1 response2 q] p by simp
  show ?thesis
    using assms m1 m2
    by (cases s1; cases s2) (auto simp: reset_def d p succeeded_def split: if_splits)
qed

lemma call_message:
  assumes "fst (call db c response1 response2) = Resolved r" "\<not> success r"
  shows "message r \<noteq> None"
  using assms db_open_message save_message load_message loadAllKeys_message
    loadAllValues_message loadAll_message destroy_message reset_message
  by (cases c) auto

text \<open>The checks that come before any request.\<close>

lemma call_not_linked:
  assumes "\<not> linked db" "c \<noteq> Open"
  shows "call db c response1 response2
    = (Resolved (failed ''Database not currently linked'' None), db)"
  using assms
  by (cases c)
    (simp_all add: save_def load_def loadAllKeys_def loadAllValues_def loadAll_def destroy_def
      reset_def failed_def)

text \<open>
  The first event that a request or its transaction fires is a failure: the promise
  resolves with the result that the handler of the event builds.
\<close>

lemma save_failure:
  assumes "linked db" "validString [key, v]"
  shows "fst (save db key v (Fires (RequestError err # evs)))
      = Resolved (failed (''Error in the saving process: '' @ error_name err) err)"
    and "fst (save db key v (Fires (TransactionError err # evs)))
      = Resolved (failed (''Error in the saving process: '' @ error_name err) err)"
    and "fst (save db key v (Fires (TransactionAbort # evs)))
      = Resolved (failed ''Error in the saving process: Error''
          (Some (Error ''Transaction aborted'')))"
  using assms by (simp_all add: save_def saving_handlers_def exception_name_def)

lemma load_failure:
  assumes "linked db" "validString [key]"
  shows "fst (load db key (Fires (RequestError err # evs)))
      = Resolved (failed (''Error in the loading process: '' @ error_name err) err)"
    and "fst (load db key (Fires (TransactionError err # evs)))
      = Resolved (failed (''Error in the loading process: '' @ error_name err) err)"
    and "fst (load db key (Fires (TransactionAbort # evs)))
      = Resolved (failed ''Error in the loading process: Error''
          (Some (Error ''Transaction aborted'')))"
proof -
  from assms(2) obtain k where k: "key = JString k" by (cases key) simp_all
  have t: "trim k \<noteq> []" using assms(2) k by (simp split: if_splits)
  show "fst (load db key (Fires (RequestError err # evs)))
      = Resolved (failed (''Error in the loading process: '' @ error_name err) err)"
    using assms(1) t by (simp add: k load_def loading_handlers_def)
  show "fst (load db key (Fires (TransactionError err # evs)))
      = Resolved (failed (''Error in the loading process: '' @ error_name err) err)"
    using assms(1) t by (simp add: k load_def loading_handlers_def)
  show "fst (load db key (Fires (TransactionAbort # evs)))
      = Resolved (failed ''Error in the loading process: Error''
          (Some (Error ''Transaction aborted'')))"
    using assms(1) t by (simp add: k load_def loading_handlers_def exception_name_def)
qed

lemma reading_failure:
  assumes "linked db" "c = LoadAllKeys \<or> c = LoadAllValues \<or> c = LoadAll"
  shows "fst (call db c (Fires (RequestError err # evs)) response2)
      = Resolved (failed (''Error in the loading process: '' @ error_name err) err)"
    and "fst (call db c (Fires (TransactionError err # evs)) response2)
      = Resolved (failed (''Error in the loading process: '' @ error_name err) err)"
    and "fst (call db c (Fires (TransactionAbort # evs)) response2)
      = Resolved (failed ''Error in the loading process: Error''
          (Some (Error ''Transaction aborted'')))"
  using assms
  by (auto simp: loadAllKeys_def loadAllValues_def loadAll_def loading_handlers_def
      exception_name_def)

lemma deletion_failure:
  assumes "linked db" "c = Destroy \<or> c = Reset"
  shows "fst (call db c (Fires (RequestError err # evs)) response2)
      = Resolved (failed (''Error in the deletion process: '' @ error_name err) err)"
    and "fst (call db c (Fires (Blocked # evs)) response2)
      = Resolved (failed ''Error in the deletion process: Error''
          (Some (Error ''Deletion blocked, other tabs may be accessing data'')))"
  using assms
  by (auto simp: destroy_def reset_def Let_def deletion_handlers_def exception_name_def
      failed_def)

lemma opening_failure:
  assumes "\<not> linked db"
  shows "fst (db_open db (Fires (RequestError err # evs)))
      = Resolved (failed (''Error in the opening process: '' @ error_name err) err)"
  using assms
  by (simp add: db_open_def Let_def opening_handlers_def failed_def succeeded_def)

lemma reset_opening_failure:
  assumes "linked db"
  shows "fst (reset db (Fires (RequestSuccess # evs1)) (Fires (RequestError err # evs2)))
      = Resolved (failed (''Error in the opening process: '' @ error_name err) err)"
  using assms
  by (simp add: reset_def destroy_def Let_def deletion_handlers_def db_close_def
      db_open_def opening_handlers_def failed_def succeeded_def)

lemma utf16_simps [simp]:
  "utf16 [] = []" "utf16 (c # cs) = of_char c # utf16 cs"
  by (simp_all add: utf16_def)

text \<open>
  What the statement below leaves open: when the call that starts the request throws, the
  promise is rejected with the exception.
\<close>

lemma save_rejects_when_call_throws:
  "save \<lparr>dbName = utf16 ''app'', linked = True, records = []\<rparr> (JString (utf16 ''2025-08-03''))
      (JString (utf16 ''note text'')) (Throws (DOMException ''InvalidStateError''))
     = (Rejected (DOMException ''InvalidStateError''),
        \<lparr>dbName = utf16 ''app'', linked = True, records = []\<rparr>)"
  by (simp add: save_def trim_def is_white_space_def)

text \<open>
  C8, as amended.  With the database open (\<open>db\<close>): \<open>save\<close> of a key and a value that are
  strings with a code unit other than white space in them, when the put succeeds and its
  transaction is not aborted, resolves \<^verbatim>\<open>{success: true}\<close>, and a \<open>load\<close> of that key whose
  request succeeds then resolves \<^verbatim>\<open>{success: true, data: value}\<close>; \<open>load\<close> of a key without
  a record resolves \<^verbatim>\<open>{success: false, message: "Data was nullish"}\<close>.  Every failure mode
  resolves a result with \<^verbatim>\<open>success: false\<close> and a message: the store not linked (\<open>db0\<close>, every
  method but \<open>open\<close>), a key or a value that is not a string or is blank (\<open>save\<close>, \<open>load\<close>), a
  request error, a transaction error or a transaction abort as the first event (\<open>save\<close>,
  \<open>load\<close>, \<open>loadAllKeys\<close>, \<open>loadAllValues\<close>, \<open>loadAll\<close>; the result carries the error object), a
  request error or a blocked deletion (\<open>destroy\<close>, \<open>reset\<close>), a request error of \<open>open\<close>.  For
  every method, every state \<open>db1\<close> and all arguments: when the calls that start a request
  return and events fire, the promise is not rejected, and whatever IndexedDB does, a
  result with \<^verbatim>\<open>success: false\<close> has a message.
\<close>

theorem simple_database_results:
  "(linked db \<and> trim k \<noteq> [] \<and> trim v \<noteq> [] \<and> TransactionAbort \<notin> set evs1 \<longrightarrow>
      (\<exists>db'. save db (JString k) (JString v) (Fires (RequestSuccess # evs1))
                = (Resolved succeeded, db') \<and>
         load db' (JString k) (Fires (RequestSuccess # evs2))
                = (Resolved (succeeded_with (PString v)), db'))) \<and>
   (linked db \<and> trim k \<noteq> [] \<and> map_of (records db) k = None \<longrightarrow>
      load db (JString k) (Fires (RequestSuccess # evs2))
        = (Resolved (failed ''Data was nullish'' None), db)) \<and>
   (\<not> linked db0 \<and> c0 \<noteq> Open \<longrightarrow>
      call db0 c0 response1 response2
        = (Resolved (failed ''Database not currently linked'' None), db0)) \<and>
   (linked db \<and> \<not> validString [key, val] \<longrightarrow>
      save db key val response1 = (Resolved (failed ''Expected a non-empty string'' None), db)) \<and>
   (linked db \<and> \<not> validString [key] \<longrightarrow>
      load db key response1 = (Resolved (failed ''Expected a non-empty string'' None), db)) \<and>
   (linked db \<and> trim k \<noteq> [] \<and> trim v \<noteq> [] \<longrightarrow>
      fst (save db (JString k) (JString v) (Fires (RequestError err # evs)))
        = Resolved (failed (''Error in the saving process: '' @ error_name err) err) \<and>
      fst (save db (JString k) (JString v) (Fires (TransactionError err # evs)))
        = Resolved (failed (''Error in the saving process: '' @ error_name err) err) \<and>
      fst (save db (JString k) (JString v) (Fires (TransactionAbort # evs)))
        = Resolved (failed ''Error in the saving process: Error''
            (Some (Error ''Transaction aborted'')))) \<and>
   (linked db \<and> trim k \<noteq> [] \<longrightarrow>
      fst (load db (JString k) (Fires (RequestError err # evs)))
        = Resolved (failed (''Error in the loading process: '' @ error_name err) err) \<and>
      fst (load db (JString k) (Fires (TransactionError err # evs)))
        = Resolved (failed (''Error in the loading process: '' @ error_name err) err) \<and>
      fst (load db (JString k) (Fires (TransactionAbort # evs)))
        = Resolved (failed ''Error in the loading process: Error''
            (Some (Error ''Transaction aborted'')))) \<and>
   (linked db \<and> (c = LoadAllKeys \<or> c = LoadAllValues \<or> c = LoadAll) \<longrightarrow>
      fst (call db c (Fires (RequestError err # evs)) response2)
        = Resolved (failed (''Error in the loading process: '' @ error_name err) err) \<and>
      fst (call db c (Fires (TransactionError err # evs)) response2)
        = Resolved (failed (''Error in the loading process: '' @ error_name err) err) \<and>
      fst (call db c (Fires (TransactionAbort # evs)) response2)
        = Resolved (failed ''Error in the loading process: Error''
            (Some (Error ''Transaction aborted'')))) \<and>
   (linked db \<and> (d = Destroy \<or> d = Reset) \<longrightarrow>
      fst (call db d (Fires (RequestError err # evs)) response2)
        = Resolved (failed (''Error in the deletion process: '' @ error_name err) err) \<and>
      fst (call db d (Fires (Blocked # evs)) response2)
        = Resolved (failed ''Error in the deletion process: Error''
            (Some (Error ''Deletion blocked, other tabs may be accessing data'')))) \<and>
   (\<not> linked db0 \<longrightarrow>
      fst (db_open db0 (Fires (RequestError err # evs)))
        = Resolved (failed (''Error in the opening process: '' @ error_name err) err)) \<and>
   \<not> success (failed msg e) \<and> message (failed msg e) = Some msg \<and> error (failed msg e) = e \<and>
   fst (call db1 c1 (Fires evs1) (Fires evs2)) \<noteq> Rejected x \<and>
   (fst (call db1 c1 response1 response2) = Resolved r \<and> \<not> success r \<longrightarrow> message r \<noteq> None)"
proof -
  have a: "\<exists>db'. save db (JString k) (JString v) (Fires (RequestSuccess # evs1))
                = (Resolved succeeded, db') \<and>
         load db' (JString k) (Fires (RequestSuccess # evs2))
                = (Resolved (succeeded_with (PString v)), db')"
    if "linked db" "trim k \<noteq> []" "trim v \<noteq> []" "TransactionAbort \<notin> set evs1"
    using that
    by (simp add: save_def load_def saving_handlers_def loading_handlers_def committed_def
        map_of_put)
  have b: "load db (JString k) (Fires (RequestSuccess # evs2))
      = (Resolved (failed ''Data was nullish'' None), db)"
    if "linked db" "trim k \<noteq> []" "map_of (records db) k = None"
    using that by (simp add: load_def loading_handlers_def)
  have s: "save db key val response1 = (Resolved (failed ''Expected a non-empty string'' None), db)"
    if "linked db" "\<not> validString [key, val]"
    using that by (simp add: save_def)
  have l: "load db key response1 = (Resolved (failed ''Expected a non-empty string'' None), db)"
    if "linked db" "\<not> validString [key]"
    using that by (simp add: load_def)
  have f: "\<not> success (failed msg e)" "message (failed msg e) = Some msg" "error (failed msg e) = e"
    by (simp_all add: failed_def)
  have sf: "fst (save db (JString k) (JString v) (Fires (RequestError err # evs)))
        = Resolved (failed (''Error in the saving process: '' @ error_name err) err) \<and>
      fst (save db (JString k) (JString v) (Fires (TransactionError err # evs)))
        = Resolved (failed (''Error in the saving process: '' @ error_name err) err) \<and>
      fst (save db (JString k) (JString v) (Fires (TransactionAbort # evs)))
        = Resolved (failed ''Error in the saving process: Error''
            (Some (Error ''Transaction aborted'')))"
    if "linked db" "trim k \<noteq> []" "trim v \<noteq> []"
    using that save_failure [of db "JString k" "JString v"] by simp
  have lf: "fst (load db (JString k) (Fires (RequestError err # evs)))
        = Resolved (failed (''Error in the loading process: '' @ error_name err) err) \<and>
      fst (load db (JString k) (Fires (TransactionError err # evs)))
        = Resolved (failed (''Error in the loading process: '' @ error_name err) err) \<and>
      fst (load db (JString k) (Fires (TransactionAbort # evs)))
        = Resolved (failed ''Error in the loading process: Error''
            (Some (Error ''Transaction aborted'')))"
    if "linked db" "trim k \<noteq> []"
    using that load_failure [of db "JString k"] by simp
  have rf: "fst (call db c (Fires (RequestError err # evs)) response2)
        = Resolved (failed (''Error in the loading process: '' @ error_name err) err) \<and>
      fst (call db c (Fires (TransactionError err # evs)) response2)
        = Resolved (failed (''Error in the loading process: '' @ error_name err) err) \<and>
      fst (call db c (Fires (TransactionAbort # evs)) response2)
        = Resolved (failed ''Error in the loading process: Error''
            (Some (Error ''Transaction aborted'')))"
    if "linked db" "c = LoadAllKeys \<or> c = LoadAllValues \<or> c = LoadAll"
    using reading_failure [OF that] by blast
  have df: "fst (call db d (Fires (RequestError err # evs)) response2)
        = Resolved (failed (''Error in the deletion process: '' @ error_name err) err) \<and>
      fst (call db d (Fires (Blocked # evs)) response2)
        = Resolved (failed ''Error in the deletion process: Error''
            (Some (Error ''Deletion blocked, other tabs may be accessing data'')))"
    if "linked db" "d = Destroy \<or> d = Reset"
    using deletion_failure [OF that] by blast
  have nl: "call db0 c0 response1 response2
        = (Resolved (failed ''Database not currently linked'' None), db0)"
    if "\<not> linked db0" "c0 \<noteq> Open"
    using that by (rule call_not_linked)
  have ofl: "fst (db_open db0 (Fires (RequestError err # evs)))
        = Resolved (failed (''Error in the opening process: '' @ error_name err) err)"
    if "\<not> linked db0"
    using that by (rule opening_failure)
  have nr: "fst (call db1 c1 (Fires evs1) (Fires evs2)) \<noteq> Rejected x"
    by (rule call_Fires_not_Rejected)
  have ms: "message r \<noteq> None"
    if "fst (call db1 c1 response1 response2) = Resolved r" "\<not> success r"
    using that by (rule call_message)
  have c1: "linked db \<and> trim k \<noteq> [] \<and> trim v \<noteq> [] \<and> TransactionAbort \<notin> set evs1 \<longrightarrow>
      (\<exists>db'. save db (JString k) (JString v) (Fires (RequestSuccess # evs1))
                = (Resolved succeeded, db') \<and>
         load db' (JString k) (Fires (RequestSuccess # evs2))
                = (Resolved (succeeded_with (PString v)), db'))"
    using a by (intro impI; elim conjE)
  have c2: "linked db \<and> trim k \<noteq> [] \<and> map_of (records db) k = None \<longrightarrow>
      load db (JString k) (Fires (RequestSuccess # evs2))
        = (Resolved (failed ''Data was nullish'' None), db)"
    using b by (intro impI; elim conjE)
  have c3: "\<not> linked db0 \<and> c0 \<noteq> Open \<longrightarrow>
      call db0 c0 response1 response2
        = (Resolved (failed ''Database not currently linked'' None), db0)"
    using nl by (intro impI; elim conjE)
  have c4: "linked db \<and> \<not> validString [key, val] \<longrightarrow>
      save db key val response1 = (Resolved (failed ''Expected a non-empty string'' None), db)"
    using s by (intro impI; elim conjE)
  have c5: "linked db \<and> \<not> validString [key] \<longrightarrow>
      load db key response1 = (Resolved (failed ''Expected a non-empty string'' None), db)"
    using l by (intro impI; elim conjE)
  have c6: "linked db \<and> trim k \<noteq> [] \<and> trim v \<noteq> [] \<longrightarrow>
      fst (save db (JString k) (JString v) (Fires (RequestError err # evs)))
        = Resolved (failed (''Error in the saving process: '' @ error_name err) err) \<and>
      fst (save db (JString k) (JString v) (Fires (TransactionError err # evs)))
        = Resolved (failed (''Error in the saving process: '' @ error_name err) err) \<and>
      fst (save db (JString k) (JString v) (Fires (TransactionAbort # evs)))
        = Resolved (failed ''Error in the saving process: Error''
            (Some (Error ''Transaction aborted'')))"
    using sf by (intro impI; elim conjE)
  have c7: "linked db \<and> trim k \<noteq> [] \<longrightarrow>
      fst (load db (JString k) (Fires (RequestError err # evs)))
        = Resolved (failed (''Error in the loading process: '' @ error_name err) err) \<and>
      fst (load db (JString k) (Fires (TransactionError err # evs)))
        = Resolved (failed (''Error in the loading process: '' @ error_name err) err) \<and>
      fst (load db (JString k) (Fires (TransactionAbort # evs)))
        = Resolved (failed ''Error in the loading process: Error''
            (Some (Error ''Transaction aborted'')))"
    using lf by (intro impI; elim conjE)
  have c8: "linked db \<and> (c = LoadAllKeys \<or> c = LoadAllValues \<or> c = LoadAll) \<longrightarrow>
      fst (call db c (Fires (RequestError err # evs)) response2)
        = Resolved (failed (''Error in the loading process: '' @ error_name err) err) \<and>
      fst (call db c (Fires (TransactionError err # evs)) response2)
        = Resolved (failed (''Error in the loading process: '' @ error_name err) err) \<and>
      fst (call db c (Fires (TransactionAbort # evs)) response2)
        = Resolved (failed ''Error in the loading process: Error''
            (Some (Error ''Transaction aborted'')))"
    using rf by (intro impI; elim conjE)
  have c9: "linked db \<and> (d = Destroy \<or> d = Reset) \<longrightarrow>
      fst (call db d (Fires (RequestError err # evs)) response2)
        = Resolved (failed (''Error in the deletion process: '' @ error_name err) err) \<and>
      fst (call db d (Fires (Blocked # evs)) response2)
        = Resolved (failed ''Error in the deletion process: Error''
            (Some (Error ''Deletion blocked, other tabs may be accessing data'')))"
    using df by (intro impI; elim conjE)
  have c10: "\<not> linked db0 \<longrightarrow>
      fst (db_open db0 (Fires (RequestError err # evs)))
        = Resolved (failed (''Error in the opening process: '' @ error_name err) err)"
    using ofl by (intro impI)
  have c11: "fst (call db1 c1 response1 response2) = Resolved r \<and> \<not> success r
      \<longrightarrow> message r \<noteq> None"
    using ms by (intro impI; elim conjE)
  show ?thesis
    by (intro conjI; (rule c1 c2 c3 c4 c5 c6 c7 c8 c9 c10 f nr c11))
qed

theorem simple_database_results_witness:
  "linked open_database \<and> \<not> linked closed_database \<and>
   trim (utf16 ''2025-08-03'') \<noteq> [] \<and> trim (utf16 ''note text'') \<noteq> [] \<and>
   TransactionAbort \<notin> set [] \<and>
   (\<exists>db'. save open_database (JString (utf16 ''2025-08-03'')) (JString (utf16 ''note text''))
             (Fires [RequestSuccess]) = (Resolved succeeded, db') \<and>
          load db' (JString (utf16 ''2025-08-03'')) (Fires [RequestSuccess])
            = (Resolved (succeeded_with (PString (utf16 ''note text''))), db')) \<and>
   map_of (records open_database) (utf16 ''2025-08-03'') = None \<and>
   load open_database (JString (utf16 ''2025-08-03'')) (Fires [RequestSuccess])
     = (Resolved (failed ''Data was nullish'' None), open_database) \<and>
   LoadAll \<noteq> Open \<and>
   call closed_database LoadAll (Fires [RequestSuccess]) (Fires [])
     = (Resolved (failed ''Database not currently linked'' None), closed_database) \<and>
   \<not> validString [JString [8195], JString (utf16 ''note text'')] \<and>
   save open_database (JString [8195]) (JString (utf16 ''note text'')) (Fires [RequestSuccess])
     = (Resolved (failed ''Expected a non-empty string'' None), open_database) \<and>
   \<not> validString [JString [8195]] \<and>
   load open_database (JString [8195]) (Fires [RequestSuccess])
     = (Resolved (failed ''Expected a non-empty string'' None), open_database) \<and>
   fst (save open_database (JString (utf16 ''2025-08-03'')) (JString (utf16 ''note text''))
         (Fires [RequestError (Some (DOMException ''QuotaExceededError''))]))
     = Resolved (failed ''Error in the saving process: QuotaExceededError''
         (Some (DOMException ''QuotaExceededError''))) \<and>
   fst (save open_database (JString (utf16 ''2025-08-03'')) (JString (utf16 ''note text''))
         (Fires [TransactionAbort]))
     = Resolved (failed ''Error in the saving process: Error''
         (Some (Error ''Transaction aborted''))) \<and>
   fst (load open_database (JString (utf16 ''2025-08-03''))
         (Fires [TransactionError (Some (DOMException ''QuotaExceededError''))]))
     = Resolved (failed ''Error in the loading process: QuotaExceededError''
         (Some (DOMException ''QuotaExceededError''))) \<and>
   fst (call open_database LoadAllKeys (Fires [TransactionAbort]) (Fires []))
     = Resolved (failed ''Error in the loading process: Error''
         (Some (Error ''Transaction aborted''))) \<and>
   fst (call open_database Destroy (Fires [Blocked]) (Fires []))
     = Resolved (failed ''Error in the deletion process: Error''
         (Some (Error ''Deletion blocked, other tabs may be accessing data''))) \<and>
   fst (db_open closed_database
         (Fires [RequestError (Some (DOMException ''QuotaExceededError''))]))
     = Resolved (failed ''Error in the opening process: QuotaExceededError''
         (Some (DOMException ''QuotaExceededError''))) \<and>
   fst (call open_database (Load (JString (utf16 ''2025-08-03''))) (Fires [RequestSuccess])
         (Fires []))
     = Resolved (failed ''Data was nullish'' None) \<and>
   \<not> success (failed ''Data was nullish'' None) \<and>
   message (failed ''Data was nullish'' None) \<noteq> None"
proof -
  have h1: "linked open_database" "\<not> linked closed_database"
    by (simp_all add: open_database_def closed_database_def)
  have h2: "trim (utf16 ''2025-08-03'') \<noteq> []" "trim (utf16 ''note text'') \<noteq> []"
    by (simp_all add: trim_def is_white_space_def)
  have h3: "map_of (records open_database) (utf16 ''2025-08-03'') = None"
    by (simp add: open_database_def)
  have h4: "\<not> validString [JString [8195], JString (utf16 ''note text'')]"
    "\<not> validString [JString [8195]]"
    by (simp_all add: trim_def is_white_space_def)
  have h5: "fst (call open_database (Load (JString (utf16 ''2025-08-03''))) (Fires [RequestSuccess])
         (Fires [])) = Resolved (failed ''Data was nullish'' None)"
    using h1 h2 h3 by (simp add: load_def loading_handlers_def)
  have h6: "\<not> success (failed ''Data was nullish'' None)" by (simp add: failed_def)
  have n: "error_name (Some (DOMException ''QuotaExceededError'')) = ''QuotaExceededError''"
    by (simp add: error_name_def exception_name_def)
  note t = simple_database_results [where db = open_database and db0 = closed_database
      and k = "utf16 ''2025-08-03''" and v = "utf16 ''note text''" and ?evs1.0 = "[]"
      and ?evs2.0 = "[]" and ?c0.0 = LoadAll and ?response1.0 = "Fires [RequestSuccess]"
      and ?response2.0 = "Fires []" and key = "JString [8195]"
      and val = "JString (utf16 ''note text'')"
      and err = "Some (DOMException ''QuotaExceededError'')" and evs = "[]"
      and c = LoadAllKeys and d = Destroy and msg = "''Data was nullish''" and e = None
      and ?db1.0 = open_database and ?c1.0 = "Load (JString (utf16 ''2025-08-03''))"
      and x = "Error []" and r = "failed ''Data was nullish'' None"]
  show ?thesis
    using t h1 h2 h3 h4 h5 h6 by (simp add: n)
qed

text \<open>
  C8 as stated fails for a value that is not empty but blank: \<open>save\<close> refuses a single
  space, and the \<open>load\<close> after it finds nothing.
\<close>

theorem save_blank_value_refused:
  "save \<lparr>dbName = utf16 ''app'', linked = True, records = []\<rparr> (JString (utf16 ''2025-08-03''))
     (JString (utf16 '' '')) (Fires [RequestSuccess])
     = (Resolved \<lparr>success = False, data = None, message = Some ''Expected a non-empty string'',
                  error = None\<rparr>,
        \<lparr>dbName = utf16 ''app'', linked = True, records = []\<rparr>) \<and>
   load \<lparr>dbName = utf16 ''app'', linked = True, records = []\<rparr> (JString (utf16 ''2025-08-03''))
     (Fires [RequestSuccess])
     = (Resolved \<lparr>success = False, data = None, message = Some ''Data was nullish'',
                  error = None\<rparr>,
        \<lparr>dbName = utf16 ''app'', linked = True, records = []\<rparr>)"
  by (simp add: save_def load_def loading_handlers_def failed_def trim_def is_white_space_def)

subsection \<open>The click on the header label\<close>

lemma navigateMonth_frame:
  assumes "wf_widget w" "objs w ! dateDisplayed w = Some d"
    and "setMonth tza (Some d) (Some (MonthFromTime (LocalTime tza d) + change)) = Some d'"
  shows "\<exists>w' ext. navigateMonth tza now w change = Inr w' \<and>
      objs w' = (objs w)[dateDisplayed w := Some d'] @ ext \<and>
      dateToday w' = dateToday w \<and> dateChosen w' = dateChosen w \<and>
      dateDisplayed w' = dateDisplayed w \<and> length (dayGrid w') = 42 \<and>
      navigatorText w' = toMonthName tza (Some d') @ '' '' @ num_str (toYear tza (Some d'))"
proof -
  let ?w = "w\<lparr>objs := (objs w)[dateDisplayed w := Some d']\<rparr>"
  have wf: "dateDisplayed w < length (objs w)" "dateChosen w < length (objs w)"
    "length (dayGrid w) = 42"
    using assms(1) by (simp_all add: wf_widget_def)
  have n: "navigateMonth tza now w change = updateCalendar tza now ?w (dateDisplayed w)"
    using assms(2,3) by (simp add: navigateMonth_def getMonth_def Let_def)
  have d: "objs ?w ! dateDisplayed w = Some d'" using wf(1) by simp
  from updateCalendar_view [of "dateDisplayed w" ?w tza now]
  obtain w' ext where w': "updateCalendar tza now ?w (dateDisplayed w) = Inr w'"
    "objs w' = objs ?w @ ext" "dateDisplayed w' = dateDisplayed ?w" "length (dayGrid w') = 42"
    "dateToday w' = dateToday ?w" "dateChosen w' = dateChosen ?w"
    "navigatorText w' = toMonthName tza (objs ?w ! dateDisplayed w) @ '' ''
        @ num_str (toYear tza (objs ?w ! dateDisplayed w))"
    using wf by auto
  show ?thesis
    using n w' d by simp
qed

text \<open>
  C4 (the code departs from the claim).  The listener of the header label only calls
  \<^verbatim>\<open>this.updateCalendar(this.dateToday)\<close>: it renders the snapshot taken at construction, it
  does not read the clock for a new date and it does not write \<open>dateDisplayed\<close>.  In the
  second example run the widget is built on 2025-08-15 and shows August 2025; four months
  forward it shows December 2025; the click on the header label on 2025-10-20 then shows
  August 2025 with its grid from 2025-07-28 on, not October (month number 9), and the month
  anchor \<open>dateDisplayed\<close> still holds 2025-12-15, so that the right arrow after it shows
  January 2026.
\<close>

theorem header_click_shows_snapshot_month:
  "constructor 0 1755259200000 = Inr header_built \<and>
   navigatorText header_built = ''August 2025'' \<and>
   navigateMonth 0 1755259200000 header_built 4 = Inr header_navigated \<and>
   navigatorText header_navigated = ''December 2025'' \<and>
   click 0 1760961600000 header_navigated NavigatorText = Inr header_clicked \<and>
   getMonth 0 (Some 1760961600000) = Some 9 \<and>
   navigatorText header_clicked = ''August 2025'' \<and>
   dataset_date (dayGrid header_clicked ! 0) = Some ''2025-07-28'' \<and>
   objs header_clicked ! dateToday header_clicked = Some 1755259200000 \<and>
   objs header_clicked ! dateDisplayed header_clicked = Some 1765800000000 \<and>
   getMonth 0 (Some 1765800000000) = Some 11 \<and>
   click 0 1760961600000 header_clicked NavigatorRight = Inr header_next \<and>
   navigatorText header_next = ''January 2026''"
proof -
  have f: "getFullYear 0 (Some 1755259200000) = Some 2025"
    "getMonth 0 (Some 1755259200000) = Some 7" "getDate 0 (Some 1755259200000) = Some 15"
    using fields_at [of 0 1755259200000 2025 7 14] by (simp_all add: eval_defs)
  have f1: "getMonth 0 (Some 1760961600000) = Some 9"
    using fields_at [of 0 1760961600000 2025 9 19] by (simp_all add: eval_defs)
  have f2: "getFullYear 0 (Some 1765800000000) = Some 2025"
    "getMonth 0 (Some 1765800000000) = Some 11" "getDate 0 (Some 1765800000000) = Some 15"
    using fields_at [of 0 1765800000000 2025 11 14] by (simp_all add: eval_defs)
  have f3: "getFullYear 0 (Some 1768478400000) = Some 2026"
    "getMonth 0 (Some 1768478400000) = Some 0"
    using fields_at [of 0 1768478400000 2026 0 14] by (simp_all add: eval_defs)
  have y: "int_str 2025 = ''2025''" "int_str 2026 = ''2026''" by code_simp+
  from constructor_view [of 0 1755259200000]
  obtain w ext where w: "constructor 0 1755259200000 = Inr w"
    "objs w = [Some 1755259200000, Some 1755259200000, Some 1755259200000] @ ext"
    "navigatorText w = toMonthName 0 (Some 1755259200000) @ '' ''
        @ num_str (toYear 0 (Some 1755259200000))"
    "dateToday w = 0" "dateChosen w = 1" "dateDisplayed w = 2" "length (dayGrid w) = 42"
    by blast
  have h0: "navigatorText w = ''August 2025''"
    unfolding w(3) header_fields [OF f(1,2)] y by (simp add: month_names_def)
  have wf: "wf_widget w" using w by (simp add: wf_widget_def)
  have d: "objs w ! dateDisplayed w = Some 1755259200000" using w by simp
  have s: "setMonth 0 (Some 1755259200000) (Some (MonthFromTime (LocalTime 0 1755259200000) + 4))
      = Some 1765800000000"
    using f by (simp add: setMonth_def getFullYear_def getMonth_def getDate_def Let_def
        MakeDay_def MakeDate_def UTC_def TimeWithinDay_def eval_defs)
  from navigateMonth_frame [OF wf d s, of 1755259200000]
  obtain w1 ext1 where w1: "navigateMonth 0 1755259200000 w 4 = Inr w1"
    "objs w1 = (objs w)[dateDisplayed w := Some 1765800000000] @ ext1"
    "dateToday w1 = dateToday w" "dateChosen w1 = dateChosen w"
    "dateDisplayed w1 = dateDisplayed w" "length (dayGrid w1) = 42"
    "navigatorText w1 = toMonthName 0 (Some 1765800000000) @ '' ''
        @ num_str (toYear 0 (Some 1765800000000))"
    by blast
  have h1: "navigatorText w1 = ''December 2025''"
    unfolding w1(7) header_fields [OF f2(1,2)] y by (simp add: month_names_def)
  have o1: "objs w1 = [Some 1755259200000, Some 1755259200000, Some 1765800000000] @ ext @ ext1"
    using w1(2) w(2,6) by simp
  have t1: "objs w1 ! dateToday w1 = Some 1755259200000" using o1 w1(3) w(4) by simp
  have d1: "objs w1 ! dateDisplayed w1 = Some 1765800000000" using o1 w1(5) w(6) by simp
  have l1: "dateToday w1 < length (objs w1)" "dateChosen w1 < length (objs w1)"
    "dateDisplayed w1 < length (objs w1)"
    using o1 w1(3,4,5) w(4,5,6) by simp_all
  have c: "click 0 1760961600000 w1 NavigatorText = updateCalendar 0 1760961600000 w1 (dateToday w1)"
    by (simp add: click_def)
  from updateCalendar_view [OF l1(1,2) w1(6), of 0 1760961600000]
  obtain w2 ext2 where w2: "updateCalendar 0 1760961600000 w1 (dateToday w1) = Inr w2"
    "objs w2 = objs w1 @ ext2" "dateDisplayed w2 = dateDisplayed w1"
    "dateToday w2 = dateToday w1" "dateChosen w2 = dateChosen w1"
    "navigatorText w2 = toMonthName 0 (objs w1 ! dateToday w1) @ '' ''
        @ num_str (toYear 0 (objs w1 ! dateToday w1))"
    "map dataset_date (dayGrid w2) =
       map (\<lambda>i. Some (toShort 0 (Some (gridCell 0 1755259200000 i)))) [0..<42]"
    "length (dayGrid w2) = 42"
    using t1 by auto
  have h2: "navigatorText w2 = ''August 2025''"
    unfolding w2(6) t1 header_fields [OF f(1,2)] y by (simp add: month_names_def)
  have "map dataset_date (dayGrid w2) ! 0 = Some (toShort 0 (Some (gridCell 0 1755259200000 0)))"
    unfolding w2(7) by (simp del: upt_Suc)
  then have c0: "dataset_date (dayGrid w2 ! 0) = Some ''2025-07-28''"
    using w2(8) f august_2025(1) [of 0 1755259200000]
    by (simp add: getFullYear_def getMonth_def)
  have t2: "objs w2 ! dateToday w2 = Some 1755259200000"
    using w2(2,4) t1 l1(1) by (simp add: nth_append)
  have d2: "objs w2 ! dateDisplayed w2 = Some 1765800000000"
    using w2(2,3) d1 l1(3) by (simp add: nth_append)
  have wf2: "wf_widget w2"
    using w2(2,3,4,5,8) l1 by (simp add: wf_widget_def)
  have s2: "setMonth 0 (Some 1765800000000) (Some (MonthFromTime (LocalTime 0 1765800000000) + 1))
      = Some 1768478400000"
    using f2 by (simp add: setMonth_def getFullYear_def getMonth_def getDate_def Let_def
        MakeDay_def MakeDate_def UTC_def TimeWithinDay_def eval_defs)
  have c3: "click 0 1760961600000 w2 NavigatorRight = navigateMonth 0 1760961600000 w2 1"
    by (simp add: click_def)
  from navigateMonth_frame [OF wf2 d2 s2, of 1760961600000]
  obtain w3 where w3: "navigateMonth 0 1760961600000 w2 1 = Inr w3"
    "navigatorText w3 = toMonthName 0 (Some 1768478400000) @ '' ''
        @ num_str (toYear 0 (Some 1768478400000))"
    by blast
  have h3: "navigatorText w3 = ''January 2026''"
    unfolding w3(2) header_fields [OF f3(1,2)] y by (simp add: month_names_def)
  have b0: "header_built = w" by (simp add: header_built_def w(1))
  have b1: "header_navigated = w1" by (simp add: header_navigated_def b0 w1(1))
  have b2: "header_clicked = w2" by (simp add: header_clicked_def b1 c w2(1))
  have b3: "header_next = w3" by (simp add: header_next_def b2 c3 w3(1))
  show ?thesis
    unfolding b0 b1 b2 b3
    using w(1) h0 w1(1) h1 c w2(1) f1 h2 c0 t2 d2 f2(2) c3 w3(1) h3 by simp
qed

end
